theory Spec2Isabelle
  imports Complex_Main
begin

section \<open>Data model of the floorplan map component\<close>

text \<open>
  The component (\<^verbatim>\<open>MapComponent\<close>) places desk and profile markers on a floorplan and
  reacts to pointer-move and click events. All numbers it computes with are integers
  (configuration constants, window dimensions in CSS pixels), so a JavaScript
  \<^verbatim>\<open>number\<close> is an \<^typ>\<open>int\<close> here; the only fraction is the icon anchor \<^verbatim>\<open>0.5\<close>, a
  \<^typ>\<open>rat\<close>. A coordinate pair \<^verbatim>\<open>[x, y]\<close> is a pair.
\<close>

type_synonym coord = "int \<times> int"

text \<open>\<^verbatim>\<open>interface Location { coords; profile }\<close>\<close>

record Location =
  loc_coords :: coord
  loc_profile :: string

text \<open>\<^verbatim>\<open>interface DeskLocation { coords; size; id }\<close>\<close>

record DeskLocation =
  desk_coords :: coord
  desk_size :: coord
  desk_id :: string

text \<open>\<^verbatim>\<open>interface SelectedLocation { coords; profile }\<close>\<close>

record SelectedLocation =
  sel_coords :: coord
  sel_profile :: string

text \<open>\<^verbatim>\<open>interface SelectedDesk { id; coords }\<close>\<close>

record SelectedDesk =
  seld_id :: string
  seld_coords :: coord

subsection \<open>Constants\<close>

definition MIN_MAP_HEIGHT :: int where "MIN_MAP_HEIGHT = 400"
definition MAX_MAP_HEIGHT :: int where "MAX_MAP_HEIGHT = 1200"
definition HEADER_FOOTER_SPACE :: int where "HEADER_FOOTER_SPACE = 120"
definition DEFAULT_MARKER_SIZE :: int where "DEFAULT_MARKER_SIZE = 30"
definition HOVER_MARKER_SIZE :: int where "HOVER_MARKER_SIZE = 40"
definition CLICK_MARKER_SIZE :: int where "CLICK_MARKER_SIZE = 45"
definition CLICK_ANIMATION_DURATION :: nat where "CLICK_ANIMATION_DURATION = 200"
definition DESK_RADIUS :: int where "DESK_RADIUS = 25"

definition DEFAULT_LOCATIONS :: "Location list" where
  "DEFAULT_LOCATIONS =
    [\<lparr>loc_coords = (176, 325), loc_profile = ''/profiles/profile1.jpeg''\<rparr>,
     \<lparr>loc_coords = (176, 94), loc_profile = ''/profiles/profile2.jpeg''\<rparr>,
     \<lparr>loc_coords = (232, 506), loc_profile = ''/profiles/profile3.jpeg''\<rparr>,
     \<lparr>loc_coords = (427, 506), loc_profile = ''/profiles/profile4.jpeg''\<rparr>,
     \<lparr>loc_coords = (309, 176), loc_profile = ''/profiles/profile1.jpeg''\<rparr>]"

definition DESK_LOCATIONS :: "DeskLocation list" where
  "DESK_LOCATIONS =
    [\<lparr>desk_coords = (176, 255), desk_size = (DESK_RADIUS * 2, DESK_RADIUS * 2), desk_id = ''desk-1''\<rparr>,
     \<lparr>desk_coords = (176, 177), desk_size = (DESK_RADIUS * 2, DESK_RADIUS * 2), desk_id = ''desk-2''\<rparr>,
     \<lparr>desk_coords = (333, 506), desk_size = (DESK_RADIUS * 2, DESK_RADIUS * 2), desk_id = ''desk-3''\<rparr>,
     \<lparr>desk_coords = (525, 506), desk_size = (DESK_RADIUS * 2, DESK_RADIUS * 2), desk_id = ''desk-4''\<rparr>,
     \<lparr>desk_coords = (309, 329), desk_size = (DESK_RADIUS * 2, DESK_RADIUS * 2), desk_id = ''desk-5''\<rparr>,
     \<lparr>desk_coords = (309, 250), desk_size = (DESK_RADIUS * 2, DESK_RADIUS * 2), desk_id = ''desk-6''\<rparr>,
     \<lparr>desk_coords = (309, 96), desk_size = (DESK_RADIUS * 2, DESK_RADIUS * 2), desk_id = ''desk-6''\<rparr>]"

subsection \<open>Canvases, icons and styles\<close>

text \<open>
  A canvas is its two dimensions and the drawing calls made on its 2d context, in order.
  The two angles of \<^verbatim>\<open>arc\<close> are only ever \<^verbatim>\<open>0\<close> and \<^verbatim>\<open>2 * Math.PI\<close>.
\<close>

datatype angle = Zero | TwoPi

datatype canvas_op =
    BeginPath
  | Arc int int int angle angle
  | SetFillStyle string
  | Fill
  | Clip
  | DrawImage string int int int int

record canvas =
  width :: int
  height :: int
  ops :: "canvas_op list"

text \<open>The options given to \<^verbatim>\<open>new Icon({img, size, anchor, anchorXUnits, anchorYUnits})\<close>.\<close>

record Icon =
  img :: canvas
  icon_size :: coord
  anchor :: "rat \<times> rat"
  anchorXUnits :: string
  anchorYUnits :: string

text \<open>
  A \<^verbatim>\<open>Style\<close> object: \<^verbatim>\<open>new Style()\<close>, \<^verbatim>\<open>new Style({fill: new Fill({color})})\<close> or
  \<^verbatim>\<open>new Style({image: new Icon(...)})\<close>. Styles are compared by reference in the claims
  about the cache, so each object carries the number \<open>sid\<close> it was allocated under.
\<close>

datatype style_options = NoOptions | FillOpt string | ImageOpt Icon

record Style =
  sid :: nat
  options :: style_options

text \<open>The two module-level desk styles are the first two style objects.\<close>

definition deskStyle :: Style where
  "deskStyle = \<lparr>sid = 0, options = FillOpt ''rgba(0, 255, 0, 0.3)''\<rparr>"

definition deskHoverStyle :: Style where
  "deskHoverStyle = \<lparr>sid = 1, options = FillOpt ''rgba(0, 255, 0, 0.5)''\<rparr>"

subsection \<open>Features\<close>

datatype geometry = Point coord | Circle coord int

text \<open>
  The properties a feature is created with: \<^verbatim>\<open>{profile, type: "profile"}\<close> or
  \<^verbatim>\<open>{id, type: "desk"}\<close>. The tag \<^verbatim>\<open>type\<close> is the constructor.
\<close>

datatype properties = Profile string | Desk string

record Feature =
  geometry :: geometry
  props :: properties
  style :: Style

section \<open>Layout: \<^verbatim>\<open>calculateMapHeight\<close>\<close>

text \<open>The decimal digits of a number, as a template literal prints an integer.\<close>

fun string_of_nat :: "nat \<Rightarrow> string" where
  "string_of_nat n =
     (if n < 10 then [''0123456789'' ! n]
      else string_of_nat (n div 10) @ [''0123456789'' ! (n mod 10)])"

declare string_of_nat.simps [simp del]

definition number_to_string :: "int \<Rightarrow> string" where
  "number_to_string i =
     (if i < 0 then CHR ''-'' # string_of_nat (nat (- i)) else string_of_nat (nat i))"

text \<open>The two properties of \<^verbatim>\<open>window\<close> that are read.\<close>

record window =
  innerWidth :: int
  innerHeight :: int

text \<open>
  \<^verbatim>\<open>calculateMapHeight\<close>: \<open>None\<close> for \<^verbatim>\<open>window\<close> stands for
  \<^verbatim>\<open>typeof window === "undefined"\<close>, where the function returns without a state update;
  otherwise the result is the argument of \<^verbatim>\<open>setMapHeight\<close>.
\<close>

definition calculateMapHeight :: "window option \<Rightarrow> string option" where
  "calculateMapHeight w =
     (case w of
        None \<Rightarrow> None
      | Some win \<Rightarrow>
          let vh = innerHeight win;
              vw = innerWidth win;
              calculatedHeight = vh - HEADER_FOOTER_SPACE;
              constrainedHeight = min (max calculatedHeight MIN_MAP_HEIGHT) MAX_MAP_HEIGHT;
              constrainedHeight = (if vw < 1024 then 600 else constrainedHeight)
          in Some (number_to_string constrainedHeight @ ''px''))"

section \<open>Desk features: \<^verbatim>\<open>createDeskFeature\<close>\<close>

definition createDeskFeature :: "DeskLocation \<Rightarrow> Feature" where
  "createDeskFeature desk =
     (let (x, y) = desk_coords desk
      in \<lparr>geometry = Circle (x, y) DESK_RADIUS, props = Desk (desk_id desk), style = deskStyle\<rparr>)"

section \<open>The style cache and the avatar compositor: \<^verbatim>\<open>createProfileStyle\<close>\<close>

text \<open>
  \<^verbatim>\<open>styleCache: { [key: string]: { [size: number]: Style } }\<close>, a dictionary of
  dictionaries. (Keys are image paths; property names that every JavaScript object
  inherits, such as \<^verbatim>\<open>constructor\<close>, are not image paths and are outside this model.)
\<close>

type_synonym style_cache = "string \<rightharpoonup> (int \<rightharpoonup> Style)"

text \<open>\<^verbatim>\<open>styleCache[profilePath]?.[size]\<close>\<close>

definition cache_get :: "style_cache \<Rightarrow> string \<Rightarrow> int \<Rightarrow> Style option" where
  "cache_get c profilePath sz = (case c profilePath of None \<Rightarrow> None | Some m \<Rightarrow> m sz)"

text \<open>
  \<^verbatim>\<open>if (!styleCache[profilePath]) styleCache[profilePath] = {};
  styleCache[profilePath][size] = style\<close>
\<close>

definition cache_put :: "style_cache \<Rightarrow> string \<Rightarrow> int \<Rightarrow> Style \<Rightarrow> style_cache" where
  "cache_put c profilePath sz s =
     (let inner = (case c profilePath of None \<Rightarrow> Map.empty | Some m \<Rightarrow> m)
      in c(profilePath \<mapsto> inner(sz \<mapsto> s)))"

text \<open>
  The handlers are \<^verbatim>\<open>async\<close> functions. Where one stops at an \<^verbatim>\<open>await\<close> on a style
  that is still being rendered, what remains of it is a continuation:
  \<^item> \<open>Preload\<close>: \<^verbatim>\<open>await Promise.all(preloadPromises)\<close> in \<^verbatim>\<open>initializeFeatures\<close>;
  \<^item> \<open>InitLoop l ls\<close>: the loop of \<^verbatim>\<open>initializeFeatures\<close>, stopped at location \<open>l\<close>,
    with \<open>ls\<close> still to come;
  \<^item> \<open>Unhover feature\<close>: the pointer-move handler, stopped in its first \<^verbatim>\<open>if\<close>, with
    \<open>feature\<close> under the pointer;
  \<^item> \<open>Hover f\<close>: the pointer-move handler, stopped in its second \<^verbatim>\<open>if\<close>;
  \<^item> \<open>ClickLarge f\<close>: the click handler, stopped before \<^verbatim>\<open>setStyle(largeStyle)\<close>;
  \<^item> \<open>ClickRevert f\<close>: the timer callback, stopped before \<^verbatim>\<open>setStyle(normalStyle)\<close>.

  Features are named by their position in \<open>features\<close>.
\<close>

datatype cont =
    Preload
  | InitLoop Location "Location list"
  | Unhover "nat option"
  | Hover nat
  | ClickLarge nat
  | ClickRevert nat

text \<open>
  One run of the promise executor of \<^verbatim>\<open>createProfileStyle\<close> that got as far as
  \<^verbatim>\<open>img.src = profilePath\<close>: the image is loading, the promise is pending until
  \<^verbatim>\<open>onload\<close> or \<^verbatim>\<open>onerror\<close> runs. \<open>r_awaiter\<close> is who awaits the promise.
\<close>

record render =
  r_path :: string
  r_size :: int
  r_canvas :: canvas
  r_awaiter :: "cont option"
  r_settled :: bool

text \<open>A \<^verbatim>\<open>setTimeout\<close> of the click handler: its delay and the clicked feature.\<close>

record timer =
  delay :: nat
  target :: nat
  fired :: bool

text \<open>
  The state of one mounted map: the environment (\<open>has2d\<close>: whether
  \<^verbatim>\<open>canvas.getContext("2d")\<close> gives a context), the module-level \<^verbatim>\<open>styleCache\<close>, the
  allocator of style objects, the images requested so far, the lines written with
  \<^verbatim>\<open>console.error\<close>, the features of the two vector sources in the order they were added
  (desks first), the closure variable \<^verbatim>\<open>hoveredFeature\<close>, the timers, the four React
  state variables of the modals, and the cursor of the map's target element.
  (The lines written with \<^verbatim>\<open>console.log\<close>, the zoom listener and the
  \<^verbatim>\<open>map.updateSize()\<close> timer read or touch the map surface only and are left out.)
\<close>

record state =
  has2d :: bool
  styleCache :: style_cache
  nextId :: nat
  renders :: "render list"
  console :: "string list"
  features :: "Feature list"
  hoveredFeature :: "nat option"
  timers :: "timer list"
  selectedLocation :: "SelectedLocation option"
  isOpen :: bool
  selectedDesk :: "SelectedDesk option"
  isDeskModalOpen :: bool
  cursor :: string

text \<open>What a call of \<^verbatim>\<open>createProfileStyle\<close> hands back: a promise in one of three states.\<close>

datatype outcome = Resolved Style | Pending nat | Rejected

definition new_Style :: "style_options \<Rightarrow> state \<Rightarrow> Style \<times> state" where
  "new_Style opts st = (\<lparr>sid = nextId st, options = opts\<rparr>, st\<lparr>nextId := nextId st + 1\<rparr>)"

definition draw :: "canvas_op \<Rightarrow> canvas \<Rightarrow> canvas" where
  "draw d c = c\<lparr>ops := ops c @ [d]\<rparr>"

text \<open>\<^verbatim>\<open>context.arc\<close> throws an \<^verbatim>\<open>IndexSizeError\<close> on a negative radius.\<close>

definition arc :: "int \<Rightarrow> int \<Rightarrow> int \<Rightarrow> angle \<Rightarrow> angle \<Rightarrow> canvas \<Rightarrow> canvas option" where
  "arc x y radius startAngle endAngle c =
     (if radius < 0 then None else Some (draw (Arc x y radius startAngle endAngle) c))"

text \<open>
  An assignment to \<^verbatim>\<open>canvas.width\<close> or \<^verbatim>\<open>canvas.height\<close>. The two attributes are unsigned
  32-bit integers limited to \<open>0 .. 2147483647\<close>: the number assigned is taken modulo
  \<open>2^32\<close>, and a value above the limit is replaced by the attribute's default, 300 for the
  width and 150 for the height.
\<close>

definition canvas_dimension :: "int \<Rightarrow> int \<Rightarrow> int" where
  "canvas_dimension dflt v =
     (let u = v mod 4294967296 in if u \<le> 2147483647 then u else dflt)"

text \<open>
  The drawing the executor does before the image is requested (border disc, clipping
  circle); \<open>None\<close> when an \<^verbatim>\<open>arc\<close> throws. \<^verbatim>\<open>totalSize\<close> is even, so \<^verbatim>\<open>totalSize / 2\<close> is
  exact.
\<close>

definition prepare_canvas :: "int \<Rightarrow> canvas option" where
  "prepare_canvas sz =
     (let borderWidth = 3;
          totalSize = sz * 2 + borderWidth * 2;
          c0 = \<lparr>width = canvas_dimension 300 totalSize,
                height = canvas_dimension 150 totalSize, ops = []\<rparr>
      in case arc (totalSize div 2) (totalSize div 2) (sz + borderWidth) Zero TwoPi
                (draw BeginPath c0) of
           None \<Rightarrow> None
         | Some c1 \<Rightarrow>
             (case arc (totalSize div 2) (totalSize div 2) sz Zero TwoPi
                     (draw BeginPath (draw Fill (draw (SetFillStyle ''#e5e7eb'') c1))) of
                None \<Rightarrow> None
              | Some c2 \<Rightarrow> Some (draw Clip c2)))"

text \<open>
  \<^verbatim>\<open>createProfileStyle(profilePath, size)\<close> up to the point where it returns its promise:
  a cache hit resolves at once; without a 2d context the promise resolves at once to
  \<^verbatim>\<open>new Style()\<close>; a throwing \<^verbatim>\<open>arc\<close> rejects it; otherwise the image is requested
  and the promise is pending.
\<close>

definition createProfileStyle :: "string \<Rightarrow> int \<Rightarrow> state \<Rightarrow> outcome \<times> state" where
  "createProfileStyle profilePath sz st =
     (case cache_get (styleCache st) profilePath sz of
        Some s \<Rightarrow> (Resolved s, st)
      | None \<Rightarrow>
          if \<not> has2d st then
            (let (s, st') = new_Style NoOptions st in (Resolved s, st'))
          else
            (case prepare_canvas sz of
               None \<Rightarrow> (Rejected, st)
             | Some c \<Rightarrow>
                 (Pending (length (renders st)),
                  st\<lparr>renders := renders st @
                     [\<lparr>r_path = profilePath, r_size = sz, r_canvas = c,
                       r_awaiter = None, r_settled = False\<rparr>]\<rparr>)))"

text \<open>\<^verbatim>\<open>img.onload\<close>: the style it resolves the promise with, and the state it leaves.\<close>

definition img_onload :: "render \<Rightarrow> state \<Rightarrow> Style \<times> state" where
  "img_onload r st =
     (let profilePath = r_path r;
          sz = r_size r;
          borderWidth = 3;
          totalSize = sz * 2 + borderWidth * 2;
          cv = draw (DrawImage profilePath borderWidth borderWidth (sz * 2) (sz * 2)) (r_canvas r);
          (s, st1) = new_Style (ImageOpt \<lparr>img = cv, icon_size = (totalSize, totalSize),
                        anchor = (1 / 2, 1 / 2), anchorXUnits = ''fraction'',
                        anchorYUnits = ''fraction''\<rparr>) st
      in (s, st1\<lparr>styleCache := cache_put (styleCache st1) profilePath sz s\<rparr>))"

text \<open>\<^verbatim>\<open>img.onerror\<close>\<close>

definition img_onerror :: "render \<Rightarrow> state \<Rightarrow> Style \<times> state" where
  "img_onerror r st =
     new_Style NoOptions (st\<lparr>console := console st @ [''Failed to load image: '' @ r_path r]\<rparr>)"

section \<open>The interaction controller\<close>

text \<open>
  \<^verbatim>\<open>await p\<close>: on a resolved promise the rest of the handler (\<open>body\<close>) runs before any
  other event is handled; on a pending one the handler stops and \<open>k\<close>, which names the
  same rest, is left with the image; on a rejected one the handler ends with the
  exception.
\<close>

definition suspend :: "nat \<Rightarrow> cont \<Rightarrow> state \<Rightarrow> state" where
  "suspend rid k st =
     st\<lparr>renders := (renders st)[rid := (renders st ! rid)\<lparr>r_awaiter := Some k\<rparr>]\<rparr>"

definition await :: "outcome \<times> state \<Rightarrow> cont \<Rightarrow> (Style \<Rightarrow> state \<Rightarrow> state) \<Rightarrow> state" where
  "await r k body =
     (case r of
        (Resolved s, st) \<Rightarrow> body s st
      | (Pending rid, st) \<Rightarrow> suspend rid k st
      | (Rejected, st) \<Rightarrow> st)"

text \<open>\<^verbatim>\<open>feature.setStyle(s)\<close>\<close>

definition setStyle :: "nat \<Rightarrow> Style \<Rightarrow> state \<Rightarrow> state" where
  "setStyle f s st = st\<lparr>features := (features st)[f := (features st ! f)\<lparr>style := s\<rparr>]\<rparr>"

subsection \<open>Pointer moves\<close>

text \<open>The end of the second \<^verbatim>\<open>if\<close>: \<^verbatim>\<open>feature.setStyle(style); hoveredFeature = feature\<close>.\<close>

definition finish_hover :: "nat \<Rightarrow> Style \<Rightarrow> state \<Rightarrow> state" where
  "finish_hover f s st = (setStyle f s st)\<lparr>hoveredFeature := Some f\<rparr>"

text \<open>The second \<^verbatim>\<open>if\<close>: \<^verbatim>\<open>if (feature && hoveredFeature !== feature)\<close>.\<close>

definition hover_block :: "nat option \<Rightarrow> state \<Rightarrow> state" where
  "hover_block feature st =
     (case feature of
        None \<Rightarrow> st
      | Some f \<Rightarrow>
          if hoveredFeature st = Some f then st
          else
            (case props (features st ! f) of
               Profile p \<Rightarrow>
                 await (createProfileStyle p HOVER_MARKER_SIZE st) (Hover f) (finish_hover f)
             | Desk i \<Rightarrow> finish_hover f deskHoverStyle st))"

text \<open>
  The end of the first \<^verbatim>\<open>if\<close>, then the second. \<^verbatim>\<open>hoveredFeature.setStyle(style)\<close> reads
  the variable after the \<^verbatim>\<open>await\<close>: if another handler has set it to \<^verbatim>\<open>null\<close> meanwhile,
  the call throws and the handler ends.
\<close>

definition finish_unhover :: "nat option \<Rightarrow> Style \<Rightarrow> state \<Rightarrow> state" where
  "finish_unhover feature s st =
     (case hoveredFeature st of
        None \<Rightarrow> st
      | Some h \<Rightarrow> hover_block feature ((setStyle h s st)\<lparr>hoveredFeature := None\<rparr>))"

text \<open>The \<^verbatim>\<open>pointermove\<close> handler; \<open>feature\<close> is what \<^verbatim>\<open>forEachFeatureAtPixel\<close> returned.\<close>

definition pointermove :: "nat option \<Rightarrow> state \<Rightarrow> state" where
  "pointermove feature st0 =
     (let st = st0\<lparr>cursor := (if feature \<noteq> None then ''pointer'' else [])\<rparr>
      in case hoveredFeature st of
           None \<Rightarrow> hover_block feature st
         | Some h \<Rightarrow>
             if Some h = feature then hover_block feature st
             else
               (case props (features st ! h) of
                  Profile p \<Rightarrow>
                    await (createProfileStyle p DEFAULT_MARKER_SIZE st) (Unhover feature)
                      (finish_unhover feature)
                | Desk i \<Rightarrow>
                    hover_block feature ((setStyle h deskStyle st)\<lparr>hoveredFeature := None\<rparr>)))"

subsection \<open>Clicks and the revert timer\<close>

text \<open>\<^verbatim>\<open>clickedFeature.setStyle(normalStyle)\<close>, the end of the timer callback.\<close>

definition finish_revert :: "nat \<Rightarrow> Style \<Rightarrow> state \<Rightarrow> state" where
  "finish_revert f s st = setStyle f s st"

text \<open>
  The callback given to \<^verbatim>\<open>setTimeout\<close>. A timer is only ever set for a profile feature.
\<close>

definition timeout_callback :: "nat \<Rightarrow> state \<Rightarrow> state" where
  "timeout_callback f st =
     (case props (features st ! f) of
        Profile p \<Rightarrow>
          await (createProfileStyle p DEFAULT_MARKER_SIZE st) (ClickRevert f) (finish_revert f)
      | Desk i \<Rightarrow> st)"

text \<open>
  \<^verbatim>\<open>clickedFeature.setStyle(largeStyle); setTimeout(..., CLICK_ANIMATION_DURATION)\<close>
\<close>

definition finish_click :: "nat \<Rightarrow> Style \<Rightarrow> state \<Rightarrow> state" where
  "finish_click f s st =
     (setStyle f s st)\<lparr>timers := timers st @
        [\<lparr>delay = CLICK_ANIMATION_DURATION, target = f, fired = False\<rparr>]\<rparr>"

text \<open>The \<^verbatim>\<open>click\<close> handler; \<open>clickedFeature\<close> is what \<^verbatim>\<open>forEachFeatureAtPixel\<close> returned.\<close>

definition click :: "nat option \<Rightarrow> state \<Rightarrow> state" where
  "click clickedFeature st =
     (case clickedFeature of
        None \<Rightarrow> st
      | Some f \<Rightarrow>
          (case props (features st ! f) of
             Profile p \<Rightarrow>
               (case geometry (features st ! f) of
                  Point coords \<Rightarrow>
                    await
                      (createProfileStyle p CLICK_MARKER_SIZE
                         (st\<lparr>selectedLocation := Some \<lparr>sel_coords = coords, sel_profile = p\<rparr>,
                             isOpen := True\<rparr>))
                      (ClickLarge f) (finish_click f)
                | Circle c r \<Rightarrow> st)
           | Desk i \<Rightarrow>
               (case geometry (features st ! f) of
                  Circle coords r \<Rightarrow>
                    st\<lparr>selectedDesk := Some \<lparr>seld_id = i, seld_coords = coords\<rparr>,
                       isDeskModalOpen := True\<rparr>
                | Point c \<Rightarrow> st)))"

subsection \<open>Start-up: the desks and \<^verbatim>\<open>initializeFeatures\<close>\<close>

text \<open>
  The body of the loop after its \<^verbatim>\<open>await\<close>: \<^verbatim>\<open>feature.setStyle(style);
  vectorSource.addFeature(feature)\<close>.
\<close>

definition add_profile_feature :: "Location \<Rightarrow> Style \<Rightarrow> state \<Rightarrow> state" where
  "add_profile_feature location s st =
     st\<lparr>features := features st @
        [\<lparr>geometry = Point (loc_coords location), props = Profile (loc_profile location),
          style = s\<rparr>]\<rparr>"

text \<open>\<^verbatim>\<open>for (const location of DEFAULT_LOCATIONS) { ... await createProfileStyle(...) ... }\<close>\<close>

fun init_loop :: "Location list \<Rightarrow> state \<Rightarrow> state" where
  "init_loop [] st = st"
| "init_loop (location # rest) st =
     (case createProfileStyle (loc_profile location) DEFAULT_MARKER_SIZE st of
        (Resolved s, st') \<Rightarrow> init_loop rest (add_profile_feature location s st')
      | (Pending rid, st') \<Rightarrow> suspend rid (InitLoop location rest) st'
      | (Rejected, st') \<Rightarrow> st')"

text \<open>
  The calls of the \<^verbatim>\<open>flatMap\<close>, in order. The three sizes are positive constants, so none
  of the promises is rejected (\<^verbatim>\<open>Promise.all\<close> would reject and end the function).
\<close>

fun preload :: "(string \<times> int) list \<Rightarrow> state \<Rightarrow> state" where
  "preload [] st = st"
| "preload ((p, sz) # rest) st =
     (case createProfileStyle p sz st of
        (Resolved s, st') \<Rightarrow> preload rest st'
      | (Pending rid, st') \<Rightarrow> preload rest (suspend rid Preload st')
      | (Rejected, st') \<Rightarrow> st')"

text \<open>\<^verbatim>\<open>Promise.all(preloadPromises)\<close> is resolved when every preload promise is.\<close>

definition preload_done :: "state \<Rightarrow> bool" where
  "preload_done st = list_all (\<lambda>r. r_awaiter r \<noteq> Some Preload \<or> r_settled r) (renders st)"

definition after_preload :: "state \<Rightarrow> state" where
  "after_preload st = (if preload_done st then init_loop DEFAULT_LOCATIONS st else st)"

definition initializeFeatures :: "state \<Rightarrow> state" where
  "initializeFeatures st =
     after_preload
       (preload
          (concat (map (\<lambda>location.
             [(loc_profile location, DEFAULT_MARKER_SIZE),
              (loc_profile location, HOVER_MARKER_SIZE),
              (loc_profile location, CLICK_MARKER_SIZE)]) DEFAULT_LOCATIONS))
          st)"

text \<open>
  The map effect on a freshly loaded page: the desks are added (\<open>mounted\<close>), then
  \<^verbatim>\<open>initializeFeatures()\<close> runs up to its first pending \<^verbatim>\<open>await\<close> (\<open>init\<close>).
\<close>

definition mounted :: "bool \<Rightarrow> state" where
  "mounted ctx =
     \<lparr>has2d = ctx, styleCache = Map.empty, nextId = 2, renders = [], console = [],
      features = map createDeskFeature DESK_LOCATIONS, hoveredFeature = None, timers = [],
      selectedLocation = None, isOpen = False, selectedDesk = None,
      isDeskModalOpen = False, cursor = []\<rparr>"

definition init :: "bool \<Rightarrow> state" where
  "init ctx = initializeFeatures (mounted ctx)"

subsection \<open>The event loop\<close>

text \<open>A stopped handler goes on with the style its promise resolved to.\<close>

fun resume :: "cont option \<Rightarrow> Style \<Rightarrow> state \<Rightarrow> state" where
  "resume None s st = st"
| "resume (Some Preload) s st = after_preload st"
| "resume (Some (InitLoop location rest)) s st = init_loop rest (add_profile_feature location s st)"
| "resume (Some (Unhover feature)) s st = finish_unhover feature s st"
| "resume (Some (Hover f)) s st = finish_hover f s st"
| "resume (Some (ClickLarge f)) s st = finish_click f s st"
| "resume (Some (ClickRevert f)) s st = finish_revert f s st"

text \<open>
  What the browser can deliver: a pointer move or a click (with the topmost feature under
  the pointer, if any), the load or the error of a requested image, the expiry of a timer.
\<close>

datatype event =
    PointerMove "nat option"
  | Click "nat option"
  | ImageLoad nat
  | ImageError nat
  | Timeout nat

text \<open>The map reports only features that were added to one of its sources.\<close>

definition featureAtPixel :: "state \<Rightarrow> nat option \<Rightarrow> nat option" where
  "featureAtPixel st fo =
     (case fo of None \<Rightarrow> None | Some f \<Rightarrow> if f < length (features st) then Some f else None)"

definition settle :: "nat \<Rightarrow> state \<Rightarrow> state" where
  "settle rid st = st\<lparr>renders := (renders st)[rid := (renders st ! rid)\<lparr>r_settled := True\<rparr>]\<rparr>"

text \<open>
  One task of the event loop, run to the point where every handler has ended or stopped at
  a pending \<^verbatim>\<open>await\<close>. An image fires \<^verbatim>\<open>load\<close> or \<^verbatim>\<open>error\<close> once; a timer fires once.
\<close>

fun step :: "event \<Rightarrow> state \<Rightarrow> state" where
  "step (PointerMove fo) st = pointermove (featureAtPixel st fo) st"
| "step (Click fo) st = click (featureAtPixel st fo) st"
| "step (ImageLoad rid) st =
     (if rid < length (renders st) \<and> \<not> r_settled (renders st ! rid) then
        (let r = renders st ! rid;
             (s, st') = img_onload r (settle rid st)
         in resume (r_awaiter r) s st')
      else st)"
| "step (ImageError rid) st =
     (if rid < length (renders st) \<and> \<not> r_settled (renders st ! rid) then
        (let r = renders st ! rid;
             (s, st') = img_onerror r (settle rid st)
         in resume (r_awaiter r) s st')
      else st)"
| "step (Timeout t) st =
     (if t < length (timers st) \<and> \<not> fired (timers st ! t) then
        timeout_callback (target (timers st ! t))
          (st\<lparr>timers := (timers st)[t := (timers st ! t)\<lparr>fired := True\<rparr>]\<rparr>)
      else st)"

fun run :: "event list \<Rightarrow> state \<Rightarrow> state" where
  "run [] st = st"
| "run (e # es) st = run es (step e st)"

section \<open>Notions used in the properties\<close>

text \<open>
  The default and the hover style of a marker: the shared fill styles for a desk, the
  cached icon of the default or the hover size for a profile (\<open>None\<close> while that icon is
  not in the cache).
\<close>

definition default_style :: "style_cache \<Rightarrow> properties \<Rightarrow> Style option" where
  "default_style c pr =
     (case pr of
        Profile p \<Rightarrow> cache_get c p DEFAULT_MARKER_SIZE
      | Desk i \<Rightarrow> Some deskStyle)"

definition hover_style :: "style_cache \<Rightarrow> properties \<Rightarrow> Style option" where
  "hover_style c pr =
     (case pr of
        Profile p \<Rightarrow> cache_get c p HOVER_MARKER_SIZE
      | Desk i \<Rightarrow> Some deskHoverStyle)"

text \<open>Every marker's default and hover style is at hand: no pointer move has to wait.\<close>

definition preloaded :: "state \<Rightarrow> bool" where
  "preloaded st =
     list_all (\<lambda>pr. default_style (styleCache st) pr \<noteq> None \<and>
                     hover_style (styleCache st) pr \<noteq> None)
       (map props (features st))"

text \<open>Marker \<open>i\<close> shows its default style; the markers that do not.\<close>

definition is_default :: "state \<Rightarrow> nat \<Rightarrow> bool" where
  "is_default st i =
     (Some (style (features st ! i)) = default_style (styleCache st) (props (features st ! i)))"

definition non_default :: "state \<Rightarrow> nat list" where
  "non_default st = filter (\<lambda>i. \<not> is_default st i) [0..<length (features st)]"

definition in_range :: "nat option \<Rightarrow> nat \<Rightarrow> bool" where
  "in_range fo n = (case fo of None \<Rightarrow> True | Some h \<Rightarrow> h < n)"

text \<open>
  \<^verbatim>\<open>hoveredFeature\<close> is a marker of the map, and every other marker shows its default style.
\<close>

definition hover_inv :: "state \<Rightarrow> bool" where
  "hover_inv st =
     (in_range (hoveredFeature st) (length (features st)) \<and>
      list_all (\<lambda>i. hoveredFeature st = Some i \<or> is_default st i) [0..<length (features st)])"

text \<open>
  The style object number \<open>n\<close> with the icon the specification describes for image \<open>p\<close> at
  size \<open>sz\<close>: a square canvas of side \<open>2 * (sz + 3)\<close>, the border disc, the clipping
  circle, the image drawn \<open>2 * sz\<close> wide and high, the anchor at the centre.
\<close>

definition avatar :: "nat \<Rightarrow> string \<Rightarrow> int \<Rightarrow> Style" where
  "avatar n p sz =
     \<lparr>sid = n,
      options = ImageOpt
        \<lparr>img = \<lparr>width = 2 * (sz + 3), height = 2 * (sz + 3),
                ops = [BeginPath, Arc (sz + 3) (sz + 3) (sz + 3) Zero TwoPi,
                       SetFillStyle ''#e5e7eb'', Fill,
                       BeginPath, Arc (sz + 3) (sz + 3) sz Zero TwoPi, Clip,
                       DrawImage p 3 3 (2 * sz) (2 * sz)]\<rparr>,
         icon_size = (2 * (sz + 3), 2 * (sz + 3)),
         anchor = (1 / 2, 1 / 2), anchorXUnits = ''fraction'', anchorYUnits = ''fraction''\<rparr>\<rparr>"

text \<open>
  No image is still loading: every promise that \<^verbatim>\<open>createProfileStyle\<close> has handed out is
  settled, so no handler is stopped at an \<^verbatim>\<open>await\<close>.
\<close>

definition idle :: "state \<Rightarrow> bool" where
  "idle st = list_all r_settled (renders st)"

text \<open>
  The events that arrive without any action of the user, the load and the error of an
  image; and the events of a sequence of pointer moves, with those in between.
\<close>

fun image_event :: "event \<Rightarrow> bool" where
  "image_event (ImageLoad rid) = True"
| "image_event (ImageError rid) = True"
| "image_event (PointerMove fo) = False"
| "image_event (Click fo) = False"
| "image_event (Timeout t) = False"

fun pointer_or_image :: "event \<Rightarrow> bool" where
  "pointer_or_image (PointerMove fo) = True"
| "pointer_or_image (ImageLoad rid) = True"
| "pointer_or_image (ImageError rid) = True"
| "pointer_or_image (Click fo) = False"
| "pointer_or_image (Timeout t) = False"

text \<open>
  The promise of render \<open>rid\<close> is pending; more generally, the render exists and its promise
  is settled or not as \<open>b\<close> says.
\<close>

definition pending :: "state \<Rightarrow> nat \<Rightarrow> bool" where
  "pending st rid = (rid < length (renders st) \<and> \<not> r_settled (renders st ! rid))"

definition settled_is :: "nat \<Rightarrow> bool \<Rightarrow> state \<Rightarrow> bool" where
  "settled_is rid b st = (rid < length (renders st) \<and> r_settled (renders st ! rid) = b)"

text \<open>
  What a marker is on the map, whatever its style: its geometry and its properties. A state
  extends another one when its markers begin with the markers of the other.
\<close>

definition marker :: "Feature \<Rightarrow> geometry \<times> properties" where
  "marker f = (geometry f, props f)"

definition extends :: "state \<Rightarrow> state \<Rightarrow> bool" where
  "extends st st' =
     (take (length (features st)) (map marker (features st')) = map marker (features st))"

text \<open>
  The markers that a state refers to are among the first \<open>n\<close>: \<^verbatim>\<open>hoveredFeature\<close>, the
  target of every timer, and the markers that the stopped handlers go on with. A state is
  well formed when this holds for the number of its markers.
\<close>

fun cont_ok :: "nat \<Rightarrow> cont option \<Rightarrow> bool" where
  "cont_ok n None = True"
| "cont_ok n (Some Preload) = True"
| "cont_ok n (Some (InitLoop location rest)) = True"
| "cont_ok n (Some (Unhover feature)) = in_range feature n"
| "cont_ok n (Some (Hover f)) = (f < n)"
| "cont_ok n (Some (ClickLarge f)) = (f < n)"
| "cont_ok n (Some (ClickRevert f)) = (f < n)"

definition refs_ok :: "nat \<Rightarrow> state \<Rightarrow> bool" where
  "refs_ok n st =
     (in_range (hoveredFeature st) n \<and>
      list_all (\<lambda>t. target t < n) (timers st) \<and>
      list_all (\<lambda>r. cont_ok n (r_awaiter r)) (renders st))"

definition well_formed :: "state \<Rightarrow> bool" where
  "well_formed st = refs_ok (length (features st)) st"

text \<open>
  The same state with every desk identity \<open>i\<close> replaced by \<open>rn i\<close>, on the markers and in
  the desk selection.
\<close>

fun relabel_props :: "(string \<Rightarrow> string) \<Rightarrow> properties \<Rightarrow> properties" where
  "relabel_props rn (Profile p) = Profile p"
| "relabel_props rn (Desk i) = Desk (rn i)"

definition relabel :: "(string \<Rightarrow> string) \<Rightarrow> state \<Rightarrow> state" where
  "relabel rn st =
     st\<lparr>features := map (\<lambda>f. f\<lparr>props := relabel_props rn (props f)\<rparr>) (features st),
        selectedDesk := map_option (\<lambda>d. d\<lparr>seld_id := rn (seld_id d)\<rparr>) (selectedDesk st)\<rparr>"

text \<open>The same state with marker \<open>f\<close> made the desk named \<open>i\<close>.\<close>

definition renamed_desk :: "nat \<Rightarrow> string \<Rightarrow> state \<Rightarrow> state" where
  "renamed_desk f i st = st\<lparr>features := (features st)[f := (features st ! f)\<lparr>props := Desk i\<rparr>]\<rparr>"

text \<open>Two runs of the start-up: every image loads; the hover- and click-size images of
  \<^verbatim>\<open>profile1.jpeg\<close> fail to load while all others load.\<close>

definition loaded :: state where
  "loaded =
     run [ImageLoad 0, ImageLoad 1, ImageLoad 2, ImageLoad 3, ImageLoad 4, ImageLoad 5,
          ImageLoad 6, ImageLoad 7, ImageLoad 8, ImageLoad 9, ImageLoad 10, ImageLoad 11,
          ImageLoad 12, ImageLoad 13, ImageLoad 14] (init True)"

definition half_loaded :: state where
  "half_loaded =
     run [ImageLoad 0, ImageError 1, ImageError 2, ImageLoad 3, ImageLoad 4, ImageLoad 5,
          ImageLoad 6, ImageLoad 7, ImageLoad 8, ImageLoad 9, ImageLoad 10, ImageLoad 11,
          ImageLoad 12, ImageError 13, ImageError 14] (init True)"

section \<open>Properties\<close>

lemma string_of_nat_600: "string_of_nat 600 = ''600''"
  by (simp add: string_of_nat.simps)

text \<open>
  C9. For every window whose inner width is below 1024, \<^verbatim>\<open>calculateMapHeight\<close> sets the
  map height to the fixed value \<^verbatim>\<open>600px\<close>, whatever the inner height is, that is whatever
  the clamped value \<open>min (max (vh - 120) 400) 1200\<close> would have been.
\<close>

theorem calculateMapHeight_narrow:
  "innerWidth win < 1024 \<Longrightarrow> calculateMapHeight (Some win) = Some ''600px''"
  by (simp add: calculateMapHeight_def number_to_string_def string_of_nat_600)

text \<open>
  A window 800 wide and 2000 high: the clamped height would be 1200, the height set is 600.
\<close>

theorem calculateMapHeight_narrow_witness:
  "innerWidth \<lparr>innerWidth = 800, innerHeight = 2000\<rparr> < 1024 \<and>
   calculateMapHeight (Some \<lparr>innerWidth = 800, innerHeight = 2000\<rparr>) = Some ''600px'' \<and>
   min (max (innerHeight \<lparr>innerWidth = 800, innerHeight = 2000\<rparr> - HEADER_FOOTER_SPACE)
     MIN_MAP_HEIGHT) MAX_MAP_HEIGHT = 1200"
  using calculateMapHeight_narrow [of "\<lparr>innerWidth = 800, innerHeight = 2000\<rparr>"]
  by (simp add: HEADER_FOOTER_SPACE_def MIN_MAP_HEIGHT_def MAX_MAP_HEIGHT_def)

text \<open>
  C10. The feature created for a desk entry is a circle of radius 25 (\<^verbatim>\<open>DESK_RADIUS\<close>)
  around the entry's coordinates, and the entry's \<^verbatim>\<open>size\<close> field is never read: the same
  entry with any other size gives the same feature.
\<close>

theorem createDeskFeature_radius:
  "geometry (createDeskFeature desk) = Circle (desk_coords desk) 25 \<and>
   createDeskFeature (desk\<lparr>desk_size := s\<rparr>) = createDeskFeature desk"
  by (simp add: createDeskFeature_def DESK_RADIUS_def split: prod.split)

section \<open>The compositor and the cache\<close>

lemma canvas_dimension_in_range:
  "0 \<le> v \<Longrightarrow> v \<le> 2147483647 \<Longrightarrow> canvas_dimension dflt v = v"
  by (simp add: canvas_dimension_def)

lemma prepare_canvas_nonneg:
  "0 \<le> sz \<Longrightarrow>
   prepare_canvas sz =
     Some \<lparr>width = canvas_dimension 300 (2 * (sz + 3)),
           height = canvas_dimension 150 (2 * (sz + 3)),
           ops = [BeginPath, Arc (sz + 3) (sz + 3) (sz + 3) Zero TwoPi,
                  SetFillStyle ''#e5e7eb'', Fill,
                  BeginPath, Arc (sz + 3) (sz + 3) sz Zero TwoPi, Clip]\<rparr>"
  by (simp add: prepare_canvas_def arc_def draw_def Let_def algebra_simps)

lemma prepare_canvas_in_range:
  "0 \<le> sz \<Longrightarrow> sz \<le> 1073741820 \<Longrightarrow>
   prepare_canvas sz =
     Some \<lparr>width = 2 * (sz + 3), height = 2 * (sz + 3),
           ops = [BeginPath, Arc (sz + 3) (sz + 3) (sz + 3) Zero TwoPi,
                  SetFillStyle ''#e5e7eb'', Fill,
                  BeginPath, Arc (sz + 3) (sz + 3) sz Zero TwoPi, Clip]\<rparr>"
  by (simp add: prepare_canvas_nonneg canvas_dimension_in_range)

lemma prepare_canvas_neg: "sz < 0 \<Longrightarrow> prepare_canvas sz = None"
  by (simp add: prepare_canvas_def arc_def draw_def Let_def)

lemma createProfileStyle_hit:
  "cache_get (styleCache st) p sz = Some s \<Longrightarrow> createProfileStyle p sz st = (Resolved s, st)"
  by (simp add: createProfileStyle_def)

lemma createProfileStyle_no_context:
  "cache_get (styleCache st) p sz = None \<Longrightarrow> \<not> has2d st \<Longrightarrow>
   createProfileStyle p sz st =
     (Resolved \<lparr>sid = nextId st, options = NoOptions\<rparr>, st\<lparr>nextId := nextId st + 1\<rparr>)"
  by (simp add: createProfileStyle_def new_Style_def)

lemma createProfileStyle_pending:
  "cache_get (styleCache st) p sz = None \<Longrightarrow> has2d st \<Longrightarrow> 0 \<le> sz \<Longrightarrow>
   createProfileStyle p sz st =
     (Pending (length (renders st)),
      st\<lparr>renders := renders st @
          [\<lparr>r_path = p, r_size = sz, r_canvas = the (prepare_canvas sz),
            r_awaiter = None, r_settled = False\<rparr>]\<rparr>)"
  by (simp add: createProfileStyle_def prepare_canvas_nonneg)

lemma createProfileStyle_rejected:
  "cache_get (styleCache st) p sz = None \<Longrightarrow> has2d st \<Longrightarrow> sz < 0 \<Longrightarrow>
   createProfileStyle p sz st = (Rejected, st)"
  by (simp add: createProfileStyle_def prepare_canvas_neg)

lemma createProfileStyle_never_rejects:
  "0 \<le> sz \<Longrightarrow> fst (createProfileStyle p sz st) \<noteq> Rejected"
  by (simp add: createProfileStyle_def prepare_canvas_nonneg new_Style_def split: option.split)

subsection \<open>What the handlers leave alone: the style cache\<close>

lemma styleCache_createProfileStyle [simp]:
  "styleCache (snd (createProfileStyle p sz st)) = styleCache st"
  by (simp add: createProfileStyle_def new_Style_def split: option.split prod.split)

lemma styleCache_suspend [simp]: "styleCache (suspend rid k st) = styleCache st"
  by (simp add: suspend_def)

lemma styleCache_setStyle [simp]: "styleCache (setStyle f s st) = styleCache st"
  by (simp add: setStyle_def)

lemma styleCache_await:
  "(\<And>s st. styleCache (body s st) = styleCache st) \<Longrightarrow>
   styleCache (await r k body) = styleCache (snd r)"
  by (simp add: await_def split: prod.split outcome.split)

lemma styleCache_finish_hover [simp]: "styleCache (finish_hover f s st) = styleCache st"
  by (simp add: finish_hover_def)

lemma styleCache_hover_block [simp]: "styleCache (hover_block feature st) = styleCache st"
  by (simp add: hover_block_def styleCache_await split: option.split properties.split)

lemma styleCache_finish_unhover [simp]: "styleCache (finish_unhover feature s st) = styleCache st"
  by (simp add: finish_unhover_def split: option.split)

lemma styleCache_pointermove [simp]: "styleCache (pointermove feature st) = styleCache st"
  by (simp add: pointermove_def Let_def styleCache_await split: option.split properties.split)

lemma styleCache_finish_revert [simp]: "styleCache (finish_revert f s st) = styleCache st"
  by (simp add: finish_revert_def)

lemma styleCache_timeout_callback [simp]: "styleCache (timeout_callback f st) = styleCache st"
  by (simp add: timeout_callback_def styleCache_await split: properties.split)

lemma styleCache_finish_click [simp]: "styleCache (finish_click f s st) = styleCache st"
  by (simp add: finish_click_def)

lemma styleCache_click [simp]: "styleCache (click feature st) = styleCache st"
  by (simp add: click_def styleCache_await split: option.split properties.split geometry.split)

lemma styleCache_add_profile_feature [simp]:
  "styleCache (add_profile_feature l s st) = styleCache st"
  by (simp add: add_profile_feature_def)

lemma createProfileStyle_cache:
  "createProfileStyle p sz st = (r, st') \<Longrightarrow> styleCache st' = styleCache st"
  using styleCache_createProfileStyle [of p sz st] by simp

lemma styleCache_init_loop [simp]: "styleCache (init_loop ls st) = styleCache st"
proof (induction ls arbitrary: st)
  case Nil
  show ?case by simp
next
  case (Cons l ls)
  obtain r st' where c: "createProfileStyle (loc_profile l) DEFAULT_MARKER_SIZE st = (r, st')"
    by (cases "createProfileStyle (loc_profile l) DEFAULT_MARKER_SIZE st")
  from createProfileStyle_cache [OF c] c show ?case
    by (cases r) (simp_all add: Cons.IH)
qed

lemma styleCache_after_preload [simp]: "styleCache (after_preload st) = styleCache st"
  by (simp add: after_preload_def)

lemma styleCache_resume [simp]: "styleCache (resume k s st) = styleCache st"
  by (cases "(k, s, st)" rule: resume.cases) simp_all

lemma styleCache_settle [simp]: "styleCache (settle rid st) = styleCache st"
  by (simp add: settle_def)

lemma styleCache_img_onerror [simp]: "styleCache (snd (img_onerror r st)) = styleCache st"
  by (simp add: img_onerror_def new_Style_def)

lemma img_onload_cache:
  "img_onload r st = (s, st') \<Longrightarrow>
   styleCache st' = cache_put (styleCache st) (r_path r) (r_size r) s"
  by (auto simp: img_onload_def new_Style_def Let_def)

lemma cache_get_put:
  "cache_get (cache_put c p sz s) p' sz' =
     (if p' = p \<and> sz' = sz then Some s else cache_get c p' sz')"
  by (auto simp: cache_get_def cache_put_def Let_def split: option.split)

text \<open>An entry of the cache is never removed: after any event the key is still there.\<close>

lemma cache_kept_step:
  assumes "cache_get (styleCache st) p sz \<noteq> None"
  shows "cache_get (styleCache (step e st)) p sz \<noteq> None"
proof (cases e)
  case (ImageLoad rid)
  obtain s st' where o: "img_onload (renders st ! rid) (settle rid st) = (s, st')"
    by (cases "img_onload (renders st ! rid) (settle rid st)")
  from assms o img_onload_cache [OF o] show ?thesis
    by (simp add: ImageLoad Let_def cache_get_put)
next
  case (ImageError rid)
  obtain s st' where o: "img_onerror (renders st ! rid) (settle rid st) = (s, st')"
    by (cases "img_onerror (renders st ! rid) (settle rid st)")
  have "styleCache st' = styleCache st"
    using styleCache_img_onerror [of "renders st ! rid" "settle rid st"] o by simp
  with assms o show ?thesis by (simp add: ImageError Let_def)
qed (use assms in simp_all)

lemma cache_kept_run:
  assumes "cache_get (styleCache st) p sz \<noteq> None"
  shows "cache_get (styleCache (run es st)) p sz \<noteq> None"
  using assms
proof (induction es arbitrary: st)
  case Nil
  then show ?case by simp
next
  case (Cons e es)
  from Cons.prems have "cache_get (styleCache (step e st)) p sz \<noteq> None"
    by (rule cache_kept_step)
  then have "cache_get (styleCache (run es (step e st))) p sz \<noteq> None"
    by (rule Cons.IH)
  then show ?case by simp
qed

lemma step_ImageError_pending:
  assumes "rid < length (renders st)" and "\<not> r_settled (renders st ! rid)"
  shows "step (ImageError rid) st =
     resume (r_awaiter (renders st ! rid)) \<lparr>sid = nextId st, options = NoOptions\<rparr>
       ((settle rid st)\<lparr>console := console st @ [''Failed to load image: '' @ r_path (renders st ! rid)],
                        nextId := nextId st + 1\<rparr>)"
  using assms by (simp add: img_onerror_def new_Style_def settle_def Let_def)

lemma step_ImageLoad_pending:
  assumes "rid < length (renders st)" and "\<not> r_settled (renders st ! rid)"
  shows "step (ImageLoad rid) st =
     resume (r_awaiter (renders st ! rid)) (fst (img_onload (renders st ! rid) (settle rid st)))
       (snd (img_onload (renders st ! rid) (settle rid st)))"
  using assms by (simp add: Let_def split: prod.split)

lemma img_onload_style:
  "fst (img_onload r st) =
     \<lparr>sid = nextId st,
      options = ImageOpt
        \<lparr>img = (r_canvas r)\<lparr>ops := ops (r_canvas r) @
                 [DrawImage (r_path r) 3 3 (r_size r * 2) (r_size r * 2)]\<rparr>,
         icon_size = (r_size r * 2 + 6, r_size r * 2 + 6),
         anchor = (1 / 2, 1 / 2), anchorXUnits = ''fraction'', anchorYUnits = ''fraction''\<rparr>\<rparr>"
  by (simp add: img_onload_def new_Style_def draw_def Let_def)

lemma img_onload_state:
  "snd (img_onload r st) =
     st\<lparr>nextId := nextId st + 1,
        styleCache := cache_put (styleCache st) (r_path r) (r_size r) (fst (img_onload r st))\<rparr>"
  by (simp add: img_onload_def new_Style_def draw_def Let_def)

text \<open>
  C2. Let a render of the pair \<open>(p, sz)\<close> be in flight and its image load: \<^verbatim>\<open>onload\<close> puts
  the style \<open>s\<close> into the cache under exactly that pair before it resolves the promise
  (\<open>st1\<close> is the state the awaiting handler is resumed in). From then on the entry is
  never evicted: after any further events a call of \<^verbatim>\<open>createProfileStyle\<close> for the pair
  returns the very object the cache holds and leaves the state as it is, so no canvas is
  created, no image requested and no style allocated; right after the load that object is
  \<open>s\<close> itself. No other key of the cache is touched by the insertion.
\<close>

theorem createProfileStyle_memo:
  assumes "rid < length (renders st)" and "\<not> r_settled (renders st ! rid)"
    and "r_path (renders st ! rid) = p" and "r_size (renders st ! rid) = sz"
    and "img_onload (renders st ! rid) (settle rid st) = (s, st1)"
  shows "cache_get (styleCache st1) p sz = Some s \<and>
         step (ImageLoad rid) st = resume (r_awaiter (renders st ! rid)) s st1 \<and>
         createProfileStyle p sz (step (ImageLoad rid) st) = (Resolved s, step (ImageLoad rid) st) \<and>
         (\<forall>es. \<exists>s'. cache_get (styleCache (run es (step (ImageLoad rid) st))) p sz = Some s' \<and>
            createProfileStyle p sz (run es (step (ImageLoad rid) st)) =
              (Resolved s', run es (step (ImageLoad rid) st))) \<and>
         (\<forall>p' sz'. p' \<noteq> p \<or> sz' \<noteq> sz \<longrightarrow>
            cache_get (styleCache (step (ImageLoad rid) st)) p' sz' = cache_get (styleCache st) p' sz')"
proof -
  let ?st2 = "step (ImageLoad rid) st"
  have c1: "styleCache st1 = cache_put (styleCache st) p sz s"
    using img_onload_cache [OF assms(5)] assms(3,4) by simp
  have put: "cache_get (styleCache st1) p sz = Some s"
    by (simp add: c1 cache_get_put)
  have st2: "?st2 = resume (r_awaiter (renders st ! rid)) s st1"
    using assms(1,2,5) by (simp add: Let_def)
  have c2: "styleCache ?st2 = styleCache st1"
    by (simp only: st2 styleCache_resume)
  have hit: "cache_get (styleCache ?st2) p sz = Some s"
    by (simp only: c2 put)
  have again: "createProfileStyle p sz ?st2 = (Resolved s, ?st2)"
    using hit by (rule createProfileStyle_hit)
  have later: "\<exists>s'. cache_get (styleCache (run es ?st2)) p sz = Some s' \<and>
      createProfileStyle p sz (run es ?st2) = (Resolved s', run es ?st2)" for es
  proof -
    from hit have "cache_get (styleCache ?st2) p sz \<noteq> None" by simp
    then have "cache_get (styleCache (run es ?st2)) p sz \<noteq> None"
      by (rule cache_kept_run)
    then obtain s' where "cache_get (styleCache (run es ?st2)) p sz = Some s'" by blast
    then show ?thesis using createProfileStyle_hit by blast
  qed
  have others: "cache_get (styleCache ?st2) p' sz' = cache_get (styleCache st) p' sz'"
    if "p' \<noteq> p \<or> sz' \<noteq> sz" for p' sz'
    using that by (auto simp add: c2 c1 cache_get_put simp del: step.simps)
  from put st2 again later others show ?thesis by blast
qed

subsection \<open>What the handlers leave alone: whether a promise is settled\<close>

lemma pending_settled_is: "pending st rid = settled_is rid False st"
  by (simp add: pending_def settled_is_def)

lemma settled_is_createProfileStyle:
  "settled_is rid b st \<Longrightarrow> settled_is rid b (snd (createProfileStyle p sz st))"
  by (auto simp: settled_is_def createProfileStyle_def new_Style_def nth_append
      split: option.split prod.split)

lemma settled_is_suspend: "settled_is rid b st \<Longrightarrow> settled_is rid b (suspend r k st)"
  by (cases "r = rid") (auto simp: settled_is_def suspend_def)

lemma settled_is_setStyle [simp]: "settled_is rid b (setStyle f s st) = settled_is rid b st"
  by (simp add: settled_is_def setStyle_def)

lemma settled_is_await:
  assumes "settled_is rid b (snd r)"
    and "\<And>s st. settled_is rid b st \<Longrightarrow> settled_is rid b (body s st)"
  shows "settled_is rid b (await r k body)"
  using assms by (auto simp: await_def settled_is_suspend split: prod.split outcome.split)

lemma settled_is_finish_hover:
  "settled_is rid b st \<Longrightarrow> settled_is rid b (finish_hover f s st)"
  by (simp add: settled_is_def finish_hover_def setStyle_def)

lemma settled_is_hover_block:
  "settled_is rid b st \<Longrightarrow> settled_is rid b (hover_block feature st)"
  by (auto simp: hover_block_def settled_is_finish_hover
      intro!: settled_is_await settled_is_createProfileStyle
      split: option.split properties.split)

lemma settled_is_finish_unhover:
  "settled_is rid b st \<Longrightarrow> settled_is rid b (finish_unhover feature s st)"
  by (auto simp: finish_unhover_def settled_is_def setStyle_def
      intro!: settled_is_hover_block [unfolded settled_is_def]
      split: option.split)

lemma settled_is_pointermove:
  "settled_is rid b st \<Longrightarrow> settled_is rid b (pointermove feature st)"
  by (auto simp: pointermove_def Let_def settled_is_def setStyle_def
      intro!: settled_is_hover_block [unfolded settled_is_def]
        settled_is_await [unfolded settled_is_def]
        settled_is_createProfileStyle [unfolded settled_is_def]
        settled_is_finish_unhover [unfolded settled_is_def]
      split: option.split properties.split)

lemma settled_is_timeout_callback:
  "settled_is rid b st \<Longrightarrow> settled_is rid b (timeout_callback f st)"
  by (auto simp: timeout_callback_def finish_revert_def
      intro!: settled_is_await settled_is_createProfileStyle
      split: properties.split)

lemma settled_is_finish_click:
  "settled_is rid b st \<Longrightarrow> settled_is rid b (finish_click f s st)"
  by (simp add: settled_is_def finish_click_def setStyle_def)

lemma settled_is_click:
  "settled_is rid b st \<Longrightarrow> settled_is rid b (click feature st)"
  by (auto simp: click_def settled_is_finish_click settled_is_def
      intro!: settled_is_await [unfolded settled_is_def]
        settled_is_createProfileStyle [unfolded settled_is_def]
        settled_is_finish_click [unfolded settled_is_def]
      split: option.split properties.split geometry.split)

lemma settled_is_add_profile_feature [simp]:
  "settled_is rid b (add_profile_feature l s st) = settled_is rid b st"
  by (simp add: settled_is_def add_profile_feature_def)

lemma settled_is_init_loop:
  "settled_is rid b st \<Longrightarrow> settled_is rid b (init_loop ls st)"
proof (induction ls arbitrary: st)
  case Nil
  then show ?case by simp
next
  case (Cons l ls)
  obtain r st' where c: "createProfileStyle (loc_profile l) DEFAULT_MARKER_SIZE st = (r, st')"
    by (cases "createProfileStyle (loc_profile l) DEFAULT_MARKER_SIZE st")
  from settled_is_createProfileStyle [OF Cons.prems, of "loc_profile l" DEFAULT_MARKER_SIZE] c
  have s: "settled_is rid b st'" by simp
  show ?case
  proof (cases r)
    case (Resolved x)
    with c s show ?thesis by (simp add: Cons.IH)
  next
    case (Pending n)
    with c s show ?thesis by (simp add: settled_is_suspend)
  next
    case Rejected
    with c s show ?thesis by simp
  qed
qed

lemma settled_is_after_preload:
  "settled_is rid b st \<Longrightarrow> settled_is rid b (after_preload st)"
  by (simp add: after_preload_def settled_is_init_loop)

lemma settled_is_resume:
  "settled_is rid b st \<Longrightarrow> settled_is rid b (resume k s st)"
  by (cases "(k, s, st)" rule: resume.cases)
    (simp_all add: settled_is_after_preload settled_is_init_loop settled_is_finish_unhover
      settled_is_finish_hover settled_is_finish_click finish_revert_def)

lemma settled_is_settle:
  "settled_is rid b st \<Longrightarrow> rid' \<noteq> rid \<Longrightarrow> settled_is rid b (settle rid' st)"
  by (auto simp: settled_is_def settle_def)

lemma settled_is_img_onload:
  "settled_is rid b st \<Longrightarrow> settled_is rid b (snd (img_onload r st))"
  by (simp add: settled_is_def img_onload_def new_Style_def Let_def)

lemma settled_is_img_onerror:
  "settled_is rid b st \<Longrightarrow> settled_is rid b (snd (img_onerror r st))"
  by (simp add: settled_is_def img_onerror_def new_Style_def)

text \<open>
  No event but the load or the error of its own image changes whether a promise is
  settled.
\<close>

lemma settled_is_step:
  assumes "settled_is rid b st" and "e \<noteq> ImageLoad rid" and "e \<noteq> ImageError rid"
  shows "settled_is rid b (step e st)"
proof (cases e)
  case (PointerMove fo)
  with assms(1) show ?thesis by (simp add: settled_is_pointermove)
next
  case (Click fo)
  with assms(1) show ?thesis by (simp add: settled_is_click)
next
  case (ImageLoad rid')
  with assms(2) have ne: "rid' \<noteq> rid" by simp
  have "settled_is rid b (snd (img_onload (renders st ! rid') (settle rid' st)))"
    using assms(1) ne by (intro settled_is_img_onload settled_is_settle)
  then show ?thesis
    using assms(1) by (auto simp: ImageLoad Let_def settled_is_resume split: prod.split)
next
  case (ImageError rid')
  with assms(3) have ne: "rid' \<noteq> rid" by simp
  have "settled_is rid b (snd (img_onerror (renders st ! rid') (settle rid' st)))"
    using assms(1) ne by (intro settled_is_img_onerror settled_is_settle)
  then show ?thesis
    using assms(1) by (auto simp: ImageError Let_def settled_is_resume split: prod.split)
next
  case (Timeout t)
  have "settled_is rid b (st\<lparr>timers := ts\<rparr>)" for ts
    using assms(1) by (simp add: settled_is_def)
  then show ?thesis
    using assms(1) by (simp add: Timeout settled_is_timeout_callback)
qed

lemma settled_is_run:
  assumes "settled_is rid b st" and "ImageLoad rid \<notin> set es" and "ImageError rid \<notin> set es"
  shows "settled_is rid b (run es st)"
  using assms
proof (induction es arbitrary: st)
  case Nil
  then show ?case by simp
next
  case (Cons e es)
  from Cons.prems have "settled_is rid b (step e st)"
    by (intro settled_is_step) auto
  with Cons.prems Cons.IH [of "step e st"] show ?case by simp
qed

text \<open>
  The load or the error of its image settles a pending promise, and a settled promise stays
  settled.
\<close>

lemma settled_by_image:
  assumes "pending st rid"
  shows "settled_is rid True (step (ImageLoad rid) st) \<and>
         settled_is rid True (step (ImageError rid) st)"
proof -
  have s: "settled_is rid True (settle rid st)"
    using assms by (simp add: pending_def settled_is_def settle_def)
  have "settled_is rid True (snd (img_onload (renders st ! rid) (settle rid st)))"
    using s by (rule settled_is_img_onload)
  moreover have "settled_is rid True (snd (img_onerror (renders st ! rid) (settle rid st)))"
    using s by (rule settled_is_img_onerror)
  ultimately show ?thesis
    using assms by (auto simp: pending_def Let_def settled_is_resume split: prod.split)
qed

lemma settled_stays_step:
  assumes "settled_is rid True st"
  shows "settled_is rid True (step e st)"
proof (cases "e = ImageLoad rid \<or> e = ImageError rid")
  case True
  with assms have "step e st = st" by (auto simp: settled_is_def)
  with assms show ?thesis by simp
next
  case False
  with assms show ?thesis by (intro settled_is_step) simp_all
qed

lemma settled_stays_run:
  assumes "settled_is rid True st"
  shows "settled_is rid True (run es st)"
  using assms
proof (induction es arbitrary: st)
  case Nil
  then show ?case by simp
next
  case (Cons e es)
  from Cons.prems have "settled_is rid True (step e st)" by (rule settled_stays_step)
  then have "settled_is rid True (run es (step e st))" by (rule Cons.IH)
  then show ?case by simp
qed

lemma timers_createProfileStyle [simp]:
  "timers (snd (createProfileStyle p sz st)) = timers st"
  by (simp add: createProfileStyle_def new_Style_def split: option.split prod.split)

lemma console_createProfileStyle [simp]:
  "console (snd (createProfileStyle p sz st)) = console st"
  by (simp add: createProfileStyle_def new_Style_def split: option.split prod.split)

text \<open>
  C3, as amended. For a size that is not negative, \<^verbatim>\<open>createProfileStyle\<close> never rejects,
  writes nothing to the console itself and sets no timer. Without a 2d context (and with no
  cache entry) it resolves at once to an empty style, and the only change of state is the
  allocation of that style: the missing context is reported nowhere. With a context and no
  cache entry the promise is pending on the image. A pending promise is settled by the load
  or by the error of its image: \<^verbatim>\<open>onerror\<close> writes the console error and resumes the
  awaiting handler with an empty style, \<^verbatim>\<open>onload\<close> resumes it with the icon, and the
  promise stays settled whatever follows. Nothing else settles it: through any sequence of
  other events (pointer moves, clicks, expiring timers, the events of other images) it
  stays pending.
\<close>

theorem createProfileStyle_failure_modes:
  assumes "0 \<le> sz"
  shows "fst (createProfileStyle p sz st) \<noteq> Rejected \<and>
     console (snd (createProfileStyle p sz st)) = console st \<and>
     timers (snd (createProfileStyle p sz st)) = timers st \<and>
     (cache_get (styleCache st) p sz = None \<and> \<not> has2d st \<longrightarrow>
        createProfileStyle p sz st =
          (Resolved \<lparr>sid = nextId st, options = NoOptions\<rparr>, st\<lparr>nextId := nextId st + 1\<rparr>)) \<and>
     (cache_get (styleCache st) p sz = None \<and> has2d st \<longrightarrow>
        fst (createProfileStyle p sz st) = Pending (length (renders st)) \<and>
        pending (snd (createProfileStyle p sz st)) (length (renders st)) \<and>
        r_path (renders (snd (createProfileStyle p sz st)) ! length (renders st)) = p \<and>
        r_size (renders (snd (createProfileStyle p sz st)) ! length (renders st)) = sz) \<and>
     (\<forall>st2 rid. pending st2 rid \<longrightarrow>
        step (ImageError rid) st2 =
          resume (r_awaiter (renders st2 ! rid)) \<lparr>sid = nextId st2, options = NoOptions\<rparr>
            ((settle rid st2)\<lparr>console := console st2 @
                 [''Failed to load image: '' @ r_path (renders st2 ! rid)],
               nextId := nextId st2 + 1\<rparr>) \<and>
        step (ImageLoad rid) st2 =
          resume (r_awaiter (renders st2 ! rid))
            (fst (img_onload (renders st2 ! rid) (settle rid st2)))
            (snd (img_onload (renders st2 ! rid) (settle rid st2))) \<and>
        \<not> pending (step (ImageError rid) st2) rid \<and>
        \<not> pending (step (ImageLoad rid) st2) rid \<and>
        (\<forall>es. \<not> pending (run es (step (ImageError rid) st2)) rid \<and>
              \<not> pending (run es (step (ImageLoad rid) st2)) rid) \<and>
        (\<forall>es. ImageLoad rid \<notin> set es \<and> ImageError rid \<notin> set es \<longrightarrow> pending (run es st2) rid))"
proof -
  have a: "fst (createProfileStyle p sz st) \<noteq> Rejected"
    using assms by (rule createProfileStyle_never_rejects)
  have b: "createProfileStyle p sz st =
      (Resolved \<lparr>sid = nextId st, options = NoOptions\<rparr>, st\<lparr>nextId := nextId st + 1\<rparr>)"
    if "cache_get (styleCache st) p sz = None \<and> \<not> has2d st"
    using that by (simp add: createProfileStyle_no_context)
  have c: "fst (createProfileStyle p sz st) = Pending (length (renders st)) \<and>
        pending (snd (createProfileStyle p sz st)) (length (renders st)) \<and>
        r_path (renders (snd (createProfileStyle p sz st)) ! length (renders st)) = p \<and>
        r_size (renders (snd (createProfileStyle p sz st)) ! length (renders st)) = sz"
    if "cache_get (styleCache st) p sz = None \<and> has2d st"
    using that assms by (simp add: createProfileStyle_pending pending_def)
  have d: "step (ImageError rid) st2 =
          resume (r_awaiter (renders st2 ! rid)) \<lparr>sid = nextId st2, options = NoOptions\<rparr>
            ((settle rid st2)\<lparr>console := console st2 @
                 [''Failed to load image: '' @ r_path (renders st2 ! rid)],
               nextId := nextId st2 + 1\<rparr>) \<and>
        step (ImageLoad rid) st2 =
          resume (r_awaiter (renders st2 ! rid))
            (fst (img_onload (renders st2 ! rid) (settle rid st2)))
            (snd (img_onload (renders st2 ! rid) (settle rid st2))) \<and>
        \<not> pending (step (ImageError rid) st2) rid \<and>
        \<not> pending (step (ImageLoad rid) st2) rid \<and>
        (\<forall>es. \<not> pending (run es (step (ImageError rid) st2)) rid \<and>
              \<not> pending (run es (step (ImageLoad rid) st2)) rid) \<and>
        (\<forall>es. ImageLoad rid \<notin> set es \<and> ImageError rid \<notin> set es \<longrightarrow> pending (run es st2) rid)"
    if p: "pending st2 rid" for st2 rid
  proof -
    from p have r: "rid < length (renders st2)" and u: "\<not> r_settled (renders st2 ! rid)"
      by (simp_all add: pending_def)
    have "\<not> pending (step (ImageError rid) st2) rid \<and> \<not> pending (step (ImageLoad rid) st2) rid"
      using settled_by_image [OF p] by (simp add: pending_def settled_is_def del: step.simps)
    moreover have "\<not> pending (run es (step (ImageError rid) st2)) rid \<and>
        \<not> pending (run es (step (ImageLoad rid) st2)) rid" for es
      using settled_by_image [OF p]
        settled_stays_run [of rid "step (ImageError rid) st2" es]
        settled_stays_run [of rid "step (ImageLoad rid) st2" es]
      by (simp add: pending_def settled_is_def del: step.simps)
    moreover have "pending (run es st2) rid"
      if "ImageLoad rid \<notin> set es \<and> ImageError rid \<notin> set es" for es
      using settled_is_run [of rid False st2 es] p that by (simp add: pending_settled_is)
    ultimately show ?thesis
      using step_ImageError_pending [OF r u] step_ImageLoad_pending [OF r u] by blast
  qed
  have e: "console (snd (createProfileStyle p sz st)) = console st"
    "timers (snd (createProfileStyle p sz st)) = timers st"
    by simp_all
  from a b c d e show ?thesis by blast
qed

text \<open>
  C7, as amended. For a positive size (an integer, as the specification requires) of at most
  1073741820, the largest for which the side \<open>2 * (sz + 3)\<close> is a dimension a canvas can
  have, with a 2d context and no cache entry,
  \<^verbatim>\<open>createProfileStyle\<close> allocates a square canvas of side \<open>2 * (sz + 3)\<close> (border width 3),
  fills a disc of radius \<open>sz + 3\<close> around the centre of the canvas, clips to the circle of
  radius \<open>sz\<close> around the same centre, and requests the image; when the image has loaded,
  it is drawn at \<open>(3, 3)\<close> scaled to \<open>2 * sz\<close> by \<open>2 * sz\<close>, and the canvas becomes an icon
  of the canvas's size anchored at the fraction \<open>(1/2, 1/2)\<close>.
\<close>

theorem createProfileStyle_compositing:
  assumes "0 < sz" and "sz \<le> 1073741820"
    and "has2d st" and "cache_get (styleCache st) p sz = None"
  shows "\<exists>st1 r.
     createProfileStyle p sz st = (Pending (length (renders st)), st1) \<and>
     renders st1 = renders st @ [r] \<and> r_path r = p \<and> r_size r = sz \<and>
     r_canvas r =
       \<lparr>width = 2 * (sz + 3), height = 2 * (sz + 3),
        ops = [BeginPath, Arc (sz + 3) (sz + 3) (sz + 3) Zero TwoPi,
               SetFillStyle ''#e5e7eb'', Fill,
               BeginPath, Arc (sz + 3) (sz + 3) sz Zero TwoPi, Clip]\<rparr> \<and>
     (\<forall>st2. options (fst (img_onload r st2)) =
        ImageOpt
          \<lparr>img = \<lparr>width = 2 * (sz + 3), height = 2 * (sz + 3),
                  ops = [BeginPath, Arc (sz + 3) (sz + 3) (sz + 3) Zero TwoPi,
                         SetFillStyle ''#e5e7eb'', Fill,
                         BeginPath, Arc (sz + 3) (sz + 3) sz Zero TwoPi, Clip,
                         DrawImage p 3 3 (2 * sz) (2 * sz)]\<rparr>,
           icon_size = (2 * (sz + 3), 2 * (sz + 3)),
           anchor = (1 / 2, 1 / 2), anchorXUnits = ''fraction'', anchorYUnits = ''fraction''\<rparr> \<and>
        fst (img_onload r st2) = avatar (nextId st2) p sz)"
  using assms
  by (simp add: createProfileStyle_def prepare_canvas_in_range img_onload_style avatar_def
      algebra_simps)

section \<open>Hovering and clicking\<close>

lemma await_Resolved [simp]: "await (Resolved s, st) k body = body s st"
  by (simp add: await_def)

lemma hover_inv_iff:
  "hover_inv st \<longleftrightarrow>
     (\<forall>h. hoveredFeature st = Some h \<longrightarrow> h < length (features st)) \<and>
     (\<forall>i < length (features st). hoveredFeature st \<noteq> Some i \<longrightarrow> is_default st i)"
  by (auto simp: hover_inv_def in_range_def list_all_iff split: option.split)

lemma preloaded_iff:
  "preloaded st \<longleftrightarrow>
     (\<forall>i < length (features st).
        default_style (styleCache st) (props (features st ! i)) \<noteq> None \<and>
        hover_style (styleCache st) (props (features st ! i)) \<noteq> None)"
  by (simp add: preloaded_def list_all_length)

lemma map_props_update: "map props (xs[h := (xs ! h)\<lparr>style := d\<rparr>]) = map props xs"
proof (cases "h < length xs")
  case True
  then have "(map props xs)[h := props (xs ! h)] = (map props xs)[h := map props xs ! h]"
    by simp
  then show ?thesis by (simp add: map_update)
next
  case False
  then show ?thesis by (simp add: list_update_beyond not_less)
qed

lemma props_setStyle [simp]: "map props (features (setStyle h d st)) = map props (features st)"
  by (simp add: setStyle_def map_props_update)

lemma props_nth_setStyle [simp]:
  "props (features (setStyle h d st) ! i) = props (features st ! i)"
  by (cases "h < length (features st)")
    (auto simp: setStyle_def nth_list_update list_update_beyond not_less)

lemma length_setStyle [simp]: "length (features (setStyle h d st)) = length (features st)"
  by (simp add: setStyle_def)

text \<open>The two halves of a pointer move, when the styles they ask for are in the cache.\<close>

lemma hover_block_sync:
  assumes "hoveredFeature st \<noteq> Some f"
    and "hover_style (styleCache st) (props (features st ! f)) = Some s"
  shows "hover_block (Some f) st = finish_hover f s st"
  using assms
  by (auto simp: hover_block_def hover_style_def createProfileStyle_hit split: properties.split)

lemma hover_block_same [simp]: "hoveredFeature st = Some f \<Longrightarrow> hover_block (Some f) st = st"
  by (simp add: hover_block_def)

lemma hover_block_None [simp]: "hover_block None st = st"
  by (simp add: hover_block_def)

lemma pointermove_keep:
  assumes "hoveredFeature st = None \<or> hoveredFeature st = feature"
  shows "pointermove feature st =
     hover_block feature (st\<lparr>cursor := (if feature \<noteq> None then ''pointer'' else [])\<rparr>)"
  using assms by (auto simp: pointermove_def Let_def split: option.split)

lemma pointermove_revert:
  assumes "hoveredFeature st = Some h" and "Some h \<noteq> feature"
    and "default_style (styleCache st) (props (features st ! h)) = Some d"
  shows "pointermove feature st =
     hover_block feature
       ((setStyle h d (st\<lparr>cursor := (if feature \<noteq> None then ''pointer'' else [])\<rparr>))
          \<lparr>hoveredFeature := None\<rparr>)"
  using assms
  by (auto simp: pointermove_def Let_def default_style_def createProfileStyle_hit
      finish_unhover_def split: properties.split)

lemma hover_inv_cursor [simp]: "hover_inv (st\<lparr>cursor := c\<rparr>) = hover_inv st"
  by (simp add: hover_inv_def is_default_def)

lemma preloaded_cursor [simp]: "preloaded (st\<lparr>cursor := c\<rparr>) = preloaded st"
  by (simp add: preloaded_def)

lemma hover_inv_revert:
  assumes "hover_inv st" and "hoveredFeature st = Some h"
    and "default_style (styleCache st) (props (features st ! h)) = Some d"
  shows "hover_inv ((setStyle h d st)\<lparr>hoveredFeature := None\<rparr>)"
  using assms
  by (auto simp: hover_inv_iff setStyle_def is_default_def nth_list_update)

lemma hover_inv_finish_hover:
  assumes "hover_inv st" and "hoveredFeature st = None" and "f < length (features st)"
  shows "hover_inv (finish_hover f s st)"
  using assms
  by (auto simp: hover_inv_iff finish_hover_def setStyle_def is_default_def nth_list_update)

lemma preloaded_setStyle [simp]: "preloaded (setStyle h d st) = preloaded st"
  by (simp add: preloaded_def)

lemma preloaded_hoveredFeature [simp]: "preloaded (st\<lparr>hoveredFeature := x\<rparr>) = preloaded st"
  by (simp add: preloaded_def)

lemma preloaded_finish_hover [simp]: "preloaded (finish_hover f s st) = preloaded st"
  by (simp add: finish_hover_def)

text \<open>A pointer move in a preloaded state runs to its end within the step.\<close>

lemma pointermove_preloaded:
  assumes inv: "hover_inv st" and pre: "preloaded st"
    and ok: "feature = featureAtPixel st fo"
  shows "hover_inv (pointermove feature st) \<and> preloaded (pointermove feature st) \<and>
         hoveredFeature (pointermove feature st) = feature"
proof -
  let ?c = "if feature \<noteq> None then ''pointer'' else []"
  have valid: "f < length (features st)" if "feature = Some f" for f
    using that ok by (auto simp: featureAtPixel_def split: option.splits if_splits)
  text \<open>First half: the previously hovered marker, if it is another one, gets its default style.\<close>
  define st1 where "st1 =
    (case hoveredFeature st of
       None \<Rightarrow> st\<lparr>cursor := ?c\<rparr>
     | Some h \<Rightarrow> if Some h = feature then st\<lparr>cursor := ?c\<rparr>
         else (setStyle h (the (default_style (styleCache st) (props (features st ! h))))
                 (st\<lparr>cursor := ?c\<rparr>))
                \<lparr>hoveredFeature := None\<rparr>)"
  have pm: "pointermove feature st = hover_block feature st1"
  proof (cases "hoveredFeature st")
    case None
    then show ?thesis by (simp add: st1_def pointermove_keep)
  next
    case (Some h)
    show ?thesis
    proof (cases "Some h = feature")
      case True
      then have "feature = Some h" by simp
      with Some show ?thesis by (simp add: st1_def pointermove_keep)
    next
      case False
      from inv Some have "h < length (features st)" by (simp add: hover_inv_iff)
      with pre obtain d where d: "default_style (styleCache st) (props (features st ! h)) = Some d"
        by (auto simp: preloaded_iff)
      from Some False d show ?thesis by (simp add: st1_def pointermove_revert)
    qed
  qed
  have inv1: "hover_inv st1"
  proof (cases "hoveredFeature st")
    case None
    with inv show ?thesis by (simp add: st1_def)
  next
    case (Some h)
    show ?thesis
    proof (cases "Some h = feature")
      case True
      then have "feature = Some h" by simp
      with Some inv show ?thesis by (simp add: st1_def)
    next
      case False
      from inv Some have "h < length (features st)" by (simp add: hover_inv_iff)
      with pre obtain d where d: "default_style (styleCache st) (props (features st ! h)) = Some d"
        by (auto simp: preloaded_iff)
      have "hover_inv ((setStyle h d (st\<lparr>cursor := ?c\<rparr>))\<lparr>hoveredFeature := None\<rparr>)"
        by (rule hover_inv_revert) (use inv Some d in simp_all)
      with Some False d show ?thesis by (simp add: st1_def)
    qed
  qed
  have pre1: "preloaded st1"
    using pre by (simp add: st1_def split: option.split)
  have hov1: "hoveredFeature st1 = None \<or> hoveredFeature st1 = feature"
    by (auto simp: st1_def setStyle_def split: option.split)
  have len1: "length (features st1) = length (features st)"
    by (simp add: st1_def split: option.split)
  text \<open>Second half: the marker under the pointer gets its hover style.\<close>
  show ?thesis
  proof (cases feature)
    case None
    with pm inv1 pre1 hov1 show ?thesis by auto
  next
    case (Some f)
    show ?thesis
    proof (cases "hoveredFeature st1 = Some f")
      case True
      with pm Some inv1 pre1 show ?thesis by simp
    next
      case False
      with hov1 Some have none: "hoveredFeature st1 = None" by simp
      from valid [OF Some] len1 have f: "f < length (features st1)" by simp
      with pre1 obtain s where s: "hover_style (styleCache st1) (props (features st1 ! f)) = Some s"
        by (auto simp: preloaded_iff)
      from False s have hb: "hover_block (Some f) st1 = finish_hover f s st1"
        by (rule hover_block_sync)
      have "hover_inv (finish_hover f s st1)"
        using inv1 none f by (rule hover_inv_finish_hover)
      with pm Some hb pre1 show ?thesis by (simp add: finish_hover_def)
    qed
  qed
qed

subsection \<open>What a pointer move leaves alone: the markers and their properties\<close>

lemma features_createProfileStyle [simp]:
  "features (snd (createProfileStyle p sz st)) = features st"
  by (simp add: createProfileStyle_def new_Style_def split: option.split prod.split)

lemma features_suspend [simp]: "features (suspend rid k st) = features st"
  by (simp add: suspend_def)

lemma props_await:
  "(\<And>s st. map props (features (body s st)) = map props (features st)) \<Longrightarrow>
   map props (features (await r k body)) = map props (features (snd r))"
  by (simp add: await_def split: prod.split outcome.split)

lemma props_finish_hover [simp]:
  "map props (features (finish_hover f s st)) = map props (features st)"
  by (simp add: finish_hover_def)

lemma props_hover_block [simp]:
  "map props (features (hover_block feature st)) = map props (features st)"
  by (simp add: hover_block_def props_await split: option.split properties.split)

lemma props_finish_unhover [simp]:
  "map props (features (finish_unhover feature s st)) = map props (features st)"
  by (simp add: finish_unhover_def split: option.split)

lemma props_pointermove [simp]:
  "map props (features (pointermove feature st)) = map props (features st)"
  by (simp add: pointermove_def Let_def props_await split: option.split properties.split)

lemma length_pointermove [simp]:
  "length (features (pointermove feature st)) = length (features st)"
  using props_pointermove [of feature st] by (metis length_map)

lemma props_nth_pointermove:
  "i < length (features st) \<Longrightarrow>
   props (features (pointermove feature st) ! i) = props (features st ! i)"
  using props_pointermove [of feature st] by (metis length_map nth_map)

text \<open>The hover style is what a pointer move sets on a marker that was not hovered.\<close>

lemma pointermove_hover_style:
  assumes inv: "hover_inv st" and pre: "preloaded st"
    and f: "f < length (features st)" and other: "hoveredFeature st \<noteq> Some f"
  shows "Some (style (features (pointermove (Some f) st) ! f)) =
         hover_style (styleCache st) (props (features st ! f))"
proof -
  from pre f obtain s where s: "hover_style (styleCache st) (props (features st ! f)) = Some s"
    by (auto simp: preloaded_iff)
  show ?thesis
  proof (cases "hoveredFeature st")
    case None
    with s f show ?thesis
      by (simp add: pointermove_keep hover_block_sync finish_hover_def setStyle_def)
  next
    case (Some h)
    with other have ne: "Some h \<noteq> Some f" by simp
    from inv Some have "h < length (features st)" by (simp add: hover_inv_iff)
    with pre obtain d where d: "default_style (styleCache st) (props (features st ! h)) = Some d"
      by (auto simp: preloaded_iff)
    let ?st1 = "(setStyle h d (st\<lparr>cursor := ''pointer''\<rparr>))\<lparr>hoveredFeature := None\<rparr>"
    have "pointermove (Some f) st = hover_block (Some f) ?st1"
      using pointermove_revert [OF Some ne d] by simp
    moreover have "hover_block (Some f) ?st1 = finish_hover f s ?st1"
      by (rule hover_block_sync) (use s in simp_all)
    ultimately show ?thesis
      using s f by (simp add: finish_hover_def setStyle_def)
  qed
qed

lemma hover_inv_non_default:
  assumes "hover_inv st"
  shows "length (non_default st) \<le> 1"
proof -
  have sub: "set (non_default st) \<subseteq> set_option (hoveredFeature st)"
    using assms by (auto simp: non_default_def hover_inv_iff)
  have "distinct (non_default st)"
    by (simp add: non_default_def)
  then have "length (non_default st) = card (set (non_default st))"
    by (simp add: distinct_card)
  also have "\<dots> \<le> card (set_option (hoveredFeature st))"
    by (rule card_mono) (use sub in simp_all)
  also have "\<dots> \<le> 1"
    by (cases "hoveredFeature st") simp_all
  finally show ?thesis .
qed

lemma idle_iff: "idle st \<longleftrightarrow> (\<forall>rid < length (renders st). r_settled (renders st ! rid))"
  by (simp add: idle_def list_all_length)

lemma step_image_idle:
  assumes "idle st" and "image_event e"
  shows "step e st = st"
  using assms by (cases e) (auto simp: idle_iff)

lemma run_images_idle:
  assumes "idle st" and "list_all image_event es"
  shows "run es st = st"
  using assms
proof (induction es)
  case Nil
  show ?case by simp
next
  case (Cons e es)
  then have "step e st = st" by (simp add: step_image_idle)
  with Cons show ?case by simp
qed

lemma renders_setStyle [simp]: "renders (setStyle f s st) = renders st"
  by (simp add: setStyle_def)

lemma renders_finish_hover [simp]: "renders (finish_hover f s st) = renders st"
  by (simp add: finish_hover_def)

text \<open>A pointer move in a preloaded state requests no image.\<close>

lemma pointermove_preloaded_renders:
  assumes inv: "hover_inv st" and pre: "preloaded st"
    and ok: "feature = featureAtPixel st fo"
  shows "renders (pointermove feature st) = renders st"
proof -
  let ?c = "if feature \<noteq> None then ''pointer'' else []"
  have valid: "f < length (features st)" if "feature = Some f" for f
    using that ok by (auto simp: featureAtPixel_def split: option.splits if_splits)
  have second: "renders (hover_block feature st1) = renders st1"
    if "hoveredFeature st1 = None \<or> hoveredFeature st1 = feature" and "preloaded st1"
      and "length (features st1) = length (features st)" for st1
  proof (cases feature)
    case None
    then show ?thesis by simp
  next
    case (Some f)
    show ?thesis
    proof (cases "hoveredFeature st1 = Some f")
      case True
      with Some show ?thesis by simp
    next
      case False
      from valid [OF Some] that(3) have "f < length (features st1)" by simp
      with that(2) obtain s where "hover_style (styleCache st1) (props (features st1 ! f)) = Some s"
        by (auto simp: preloaded_iff)
      with False have "hover_block (Some f) st1 = finish_hover f s st1"
        by (rule hover_block_sync)
      with Some show ?thesis by simp
    qed
  qed
  show ?thesis
  proof (cases "hoveredFeature st")
    case None
    have "renders (hover_block feature (st\<lparr>cursor := ?c\<rparr>)) = renders (st\<lparr>cursor := ?c\<rparr>)"
      by (rule second) (use None pre in simp_all)
    with None show ?thesis by (simp add: pointermove_keep)
  next
    case (Some h)
    show ?thesis
    proof (cases "Some h = feature")
      case True
      then have eq: "feature = Some h" by simp
      have "renders (hover_block feature (st\<lparr>cursor := ?c\<rparr>)) = renders (st\<lparr>cursor := ?c\<rparr>)"
        by (rule second) (use Some eq pre in simp_all)
      with Some eq show ?thesis by (simp add: pointermove_keep)
    next
      case False
      from inv Some have "h < length (features st)" by (simp add: hover_inv_iff)
      with pre obtain d where d: "default_style (styleCache st) (props (features st ! h)) = Some d"
        by (auto simp: preloaded_iff)
      let ?st1 = "(setStyle h d (st\<lparr>cursor := ?c\<rparr>))\<lparr>hoveredFeature := None\<rparr>"
      have "renders (hover_block feature ?st1) = renders ?st1"
        by (rule second) (use pre in simp_all)
      then show ?thesis
        using pointermove_revert [OF Some False d] by simp
    qed
  qed
qed

text \<open>The three conditions are kept by every pointer move and every image event.\<close>

lemma step_calm:
  assumes "preloaded st" and "hover_inv st" and "idle st" and "pointer_or_image e"
  shows "preloaded (step e st) \<and> hover_inv (step e st) \<and> idle (step e st)"
proof (cases "image_event e")
  case True
  with assms show ?thesis by (simp add: step_image_idle)
next
  case False
  with assms(4) obtain fo where e: "e = PointerMove fo" by (cases e) simp_all
  have "idle (pointermove (featureAtPixel st fo) st)"
    using pointermove_preloaded_renders [OF assms(2) assms(1) refl, of fo] assms(3)
    by (simp add: idle_def)
  with pointermove_preloaded [OF assms(2) assms(1) refl, of fo] show ?thesis
    by (simp add: e)
qed

lemma run_calm:
  assumes "preloaded st" and "hover_inv st" and "idle st" and "list_all pointer_or_image es"
  shows "preloaded (run es st) \<and> hover_inv (run es st) \<and> idle (run es st)"
  using assms
proof (induction es arbitrary: st)
  case Nil
  then show ?case by simp
next
  case (Cons e es)
  from Cons.prems have "preloaded (step e st) \<and> hover_inv (step e st) \<and> idle (step e st)"
    by (intro step_calm) simp_all
  with Cons.prems(4) Cons.IH [of "step e st"] show ?case by simp
qed

lemma hover_inv_non_default_subset:
  "hover_inv st \<Longrightarrow> set (non_default st) \<subseteq> set_option (hoveredFeature st)"
  by (auto simp: non_default_def hover_inv_iff)

lemma list_all_take: "list_all P xs \<Longrightarrow> list_all P (take n xs)"
  by (auto simp: list_all_iff dest: in_set_takeD)

text \<open>What one pointer move does in such a state.\<close>

lemma pointermove_calm:
  assumes pre: "preloaded st" and inv: "hover_inv st"
  shows "hoveredFeature (step (PointerMove fo) st) = featureAtPixel st fo \<and>
         (\<forall>f. featureAtPixel st fo = Some f \<and> hoveredFeature st \<noteq> Some f \<longrightarrow>
            Some (style (features (step (PointerMove fo) st) ! f)) =
              hover_style (styleCache st) (props (features st ! f))) \<and>
         (\<forall>i < length (features st). featureAtPixel st fo \<noteq> Some i \<longrightarrow>
            is_default (step (PointerMove fo) st) i)"
proof -
  let ?st' = "pointermove (featureAtPixel st fo) st"
  from pointermove_preloaded [OF inv pre refl, of fo]
  have inv': "hover_inv ?st'" and hov: "hoveredFeature ?st' = featureAtPixel st fo"
    by simp_all
  have a: "Some (style (features ?st' ! f)) = hover_style (styleCache st) (props (features st ! f))"
    if "featureAtPixel st fo = Some f \<and> hoveredFeature st \<noteq> Some f" for f
  proof -
    from that have "f < length (features st)"
      by (auto simp: featureAtPixel_def split: option.splits if_splits)
    with that pointermove_hover_style [OF inv pre, of f] show ?thesis by simp
  qed
  have b: "is_default ?st' i" if "i < length (features st)" and "featureAtPixel st fo \<noteq> Some i" for i
    using inv' hov that by (simp add: hover_inv_iff)
  from hov a b show ?thesis by simp
qed

lemma run_append: "run (es @ es') st = run es' (run es st)"
  by (induction es arbitrary: st) simp_all

text \<open>
  C5, as amended. Take a state where every marker's default and hover style is in the
  cache, where no image is still loading, and where every marker but the hovered one shows
  its default style (as after a start-up in which every image loaded). Through any sequence
  of pointer moves from there, with image events arriving in between, the following holds
  after every prefix of the sequence: at most one marker is in a non-default style, and
  only the hovered marker can be. The three conditions hold again at the end, where a
  further pointer move runs to its end within the step: afterwards \<^verbatim>\<open>hoveredFeature\<close> is the
  marker under the pointer (none when the pointer is on no marker), that marker shows its
  hover style if it was not the hovered one before, and every other marker, the previously
  hovered one included, shows its default style. (\<^verbatim>\<open>hoveredFeature\<close> is one optional
  marker, so it never designates more than one.)
\<close>

theorem hover_at_most_one:
  assumes "preloaded st" and "hover_inv st" and "idle st"
    and "list_all pointer_or_image es"
  shows "(\<forall>n. length (non_default (run (take n es) st)) \<le> 1 \<and>
              set (non_default (run (take n es) st)) \<subseteq>
                set_option (hoveredFeature (run (take n es) st))) \<and>
         preloaded (run es st) \<and> hover_inv (run es st) \<and> idle (run es st) \<and>
         (\<forall>fo. hoveredFeature (step (PointerMove fo) (run es st)) = featureAtPixel (run es st) fo \<and>
            (\<forall>f. featureAtPixel (run es st) fo = Some f \<and> hoveredFeature (run es st) \<noteq> Some f \<longrightarrow>
               Some (style (features (step (PointerMove fo) (run es st)) ! f)) =
                 hover_style (styleCache (run es st)) (props (features (run es st) ! f))) \<and>
            (\<forall>i < length (features (run es st)). featureAtPixel (run es st) fo \<noteq> Some i \<longrightarrow>
               is_default (step (PointerMove fo) (run es st)) i))"
proof -
  have calm: "preloaded (run es st) \<and> hover_inv (run es st) \<and> idle (run es st)"
    using assms by (rule run_calm)
  have "length (non_default (run (take n es) st)) \<le> 1 \<and>
        set (non_default (run (take n es) st)) \<subseteq> set_option (hoveredFeature (run (take n es) st))"
    for n
  proof -
    have "hover_inv (run (take n es) st)"
      using run_calm [OF assms(1-3) list_all_take [OF assms(4)], of n] by simp
    then show ?thesis
      using hover_inv_non_default hover_inv_non_default_subset by blast
  qed
  moreover note calm
  moreover have "hoveredFeature (step (PointerMove fo) (run es st)) = featureAtPixel (run es st) fo \<and>
            (\<forall>f. featureAtPixel (run es st) fo = Some f \<and> hoveredFeature (run es st) \<noteq> Some f \<longrightarrow>
               Some (style (features (step (PointerMove fo) (run es st)) ! f)) =
                 hover_style (styleCache (run es st)) (props (features (run es st) ! f))) \<and>
            (\<forall>i < length (features (run es st)). featureAtPixel (run es st) fo \<noteq> Some i \<longrightarrow>
               is_default (step (PointerMove fo) (run es st)) i)" for fo
    using calm by (intro pointermove_calm) simp_all
  ultimately show ?thesis by blast
qed

text \<open>
  C6, as amended. Under the same three conditions, moving the pointer onto a marker makes
  it the hovered marker and, unless it already was, gives it its hover style (the cached
  hover-size icon of a profile, the shared hover fill of a desk); moving the pointer off
  all markers then gives it back exactly its default style (the cached default-size icon,
  the shared default fill), clears \<^verbatim>\<open>hoveredFeature\<close>, and leaves no marker in a
  non-default style, whatever image events arrive in between and afterwards.
\<close>

theorem hover_then_leave:
  assumes pre: "preloaded st" and inv: "hover_inv st" and idl: "idle st"
    and f: "f < length (features st)"
    and es1: "list_all image_event es1" and es2: "list_all image_event es2"
  shows "hoveredFeature (step (PointerMove (Some f)) st) = Some f \<and>
         (hoveredFeature st \<noteq> Some f \<longrightarrow>
            Some (style (features (step (PointerMove (Some f)) st) ! f)) =
              hover_style (styleCache st) (props (features st ! f))) \<and>
         hoveredFeature (run (PointerMove (Some f) # es1 @ PointerMove None # es2) st) = None \<and>
         Some (style (features (run (PointerMove (Some f) # es1 @ PointerMove None # es2) st) ! f)) =
           default_style (styleCache st) (props (features st ! f)) \<and>
         non_default (run (PointerMove (Some f) # es1 @ PointerMove None # es2) st) = []"
proof -
  let ?st1 = "pointermove (Some f) st"
  let ?st2 = "pointermove None ?st1"
  have fa: "featureAtPixel st (Some f) = Some f"
    using f by (simp add: featureAtPixel_def)
  have one: "hover_inv ?st1 \<and> preloaded ?st1 \<and> hoveredFeature ?st1 = Some f"
    using pointermove_preloaded [OF inv pre, of "Some f" "Some f"] fa by simp
  have idle1: "idle ?st1"
    using pointermove_preloaded_renders [OF inv pre, of "Some f" "Some f"] fa idl
    by (simp add: idle_def)
  have two: "hover_inv ?st2 \<and> preloaded ?st2 \<and> hoveredFeature ?st2 = None"
    using pointermove_preloaded [of ?st1 None None] one by (simp add: featureAtPixel_def)
  have idle2: "idle ?st2"
    using pointermove_preloaded_renders [of ?st1 None None] one idle1
    by (simp add: idle_def featureAtPixel_def)
  have r: "run (PointerMove (Some f) # es1 @ PointerMove None # es2) st = ?st2"
  proof -
    have "run es1 ?st1 = ?st1" using idle1 es1 by (rule run_images_idle)
    moreover have "run es2 ?st2 = ?st2" using idle2 es2 by (rule run_images_idle)
    ultimately show ?thesis using f by (simp add: run_append featureAtPixel_def)
  qed
  have hov: "Some (style (features ?st1 ! f)) =
      hover_style (styleCache st) (props (features st ! f))"
    if "hoveredFeature st \<noteq> Some f"
    using pointermove_hover_style [OF inv pre f that] .
  have all_default: "is_default ?st2 i" if "i < length (features st)" for i
    using two that by (simp add: hover_inv_iff)
  have "Some (style (features ?st2 ! f)) =
      default_style (styleCache ?st2) (props (features ?st2 ! f))"
    using all_default [OF f] by (simp add: is_default_def)
  then have dflt: "Some (style (features ?st2 ! f)) =
      default_style (styleCache st) (props (features st ! f))"
    using f by (simp add: props_nth_pointermove)
  have none: "non_default ?st2 = []"
    using all_default by (simp add: non_default_def filter_empty_conv)
  from one two hov dflt none fa show ?thesis
    unfolding r by (simp add: featureAtPixel_def)
qed

text \<open>
  C4. A click on a desk marker stores the selection with the desk's identity and the
  centre of its circle, opens the desk modal, and changes nothing else: no style is
  touched, no timer is set, no image is requested.
\<close>

theorem click_desk:
  assumes "f < length (features st)"
    and "props (features st ! f) = Desk i" and "geometry (features st ! f) = Circle c r"
  shows "step (Click (Some f)) st =
     st\<lparr>selectedDesk := Some \<lparr>seld_id = i, seld_coords = c\<rparr>, isDeskModalOpen := True\<rparr>"
  using assms by (simp add: featureAtPixel_def click_def)

lemma click_profile_selection:
  assumes "f < length (features st)"
    and "props (features st ! f) = Profile p" and "geometry (features st ! f) = Point c"
  shows "selectedLocation (step (Click (Some f)) st) = Some \<lparr>sel_coords = c, sel_profile = p\<rparr> \<and>
         isOpen (step (Click (Some f)) st)"
  using assms
  by (simp add: featureAtPixel_def click_def await_def createProfileStyle_def new_Style_def
      finish_click_def setStyle_def suspend_def
      split: option.split prod.split outcome.split)

lemma click_profile_cached:
  assumes "f < length (features st)"
    and "props (features st ! f) = Profile p" and "geometry (features st ! f) = Point c"
    and "cache_get (styleCache st) p CLICK_MARKER_SIZE = Some l"
  shows "step (Click (Some f)) st =
     finish_click f l
       (st\<lparr>selectedLocation := Some \<lparr>sel_coords = c, sel_profile = p\<rparr>, isOpen := True\<rparr>)"
  using assms by (simp add: featureAtPixel_def click_def createProfileStyle_hit)

lemma timeout_revert_cached:
  assumes "t < length (timers st)" and "\<not> fired (timers st ! t)"
    and "target (timers st ! t) = f" and "f < length (features st)"
    and "props (features st ! f) = Profile p"
    and "cache_get (styleCache st) p DEFAULT_MARKER_SIZE = Some d"
  shows "step (Timeout t) st =
     setStyle f d (st\<lparr>timers := (timers st)[t := (timers st ! t)\<lparr>fired := True\<rparr>]\<rparr>)"
  using assms
  by (simp add: timeout_callback_def createProfileStyle_hit finish_revert_def)

text \<open>
  C1, as amended. A click on a profile marker always stores the selection with the
  marker's position and image source and opens the modal. If the click-size style of the
  marker's image is in the cache, the marker gets that style within the same step, and a
  timer of 200 ms is set for the marker. Whenever that timer fires in a state where the
  default-size style is in the cache, the marker gets the default-size style, whatever
  \<^verbatim>\<open>hoveredFeature\<close> is, and \<^verbatim>\<open>hoveredFeature\<close> is left as it was.
\<close>

theorem click_profile:
  assumes "f < length (features st)"
    and "props (features st ! f) = Profile p" and "geometry (features st ! f) = Point c"
  shows "selectedLocation (step (Click (Some f)) st) = Some \<lparr>sel_coords = c, sel_profile = p\<rparr> \<and>
         isOpen (step (Click (Some f)) st) \<and>
         (\<forall>l. cache_get (styleCache st) p CLICK_MARKER_SIZE = Some l \<longrightarrow>
            style (features (step (Click (Some f)) st) ! f) = l \<and>
            timers (step (Click (Some f)) st) =
              timers st @ [\<lparr>delay = 200, target = f, fired = False\<rparr>]) \<and>
         (\<forall>st' t d.
            t < length (timers st') \<and> timers st' ! t = \<lparr>delay = 200, target = f, fired = False\<rparr> \<and>
            f < length (features st') \<and> props (features st' ! f) = Profile p \<and>
            cache_get (styleCache st') p DEFAULT_MARKER_SIZE = Some d \<longrightarrow>
            style (features (step (Timeout t) st') ! f) = d \<and>
            hoveredFeature (step (Timeout t) st') = hoveredFeature st')"
proof -
  have large: "style (features (step (Click (Some f)) st) ! f) = l \<and>
      timers (step (Click (Some f)) st) = timers st @ [\<lparr>delay = 200, target = f, fired = False\<rparr>]"
    if "cache_get (styleCache st) p CLICK_MARKER_SIZE = Some l" for l
    unfolding click_profile_cached [OF assms that]
    using assms(1) by (simp add: finish_click_def setStyle_def CLICK_ANIMATION_DURATION_def)
  have revert: "style (features (step (Timeout t) st') ! f) = d \<and>
      hoveredFeature (step (Timeout t) st') = hoveredFeature st'"
    if "t < length (timers st') \<and> timers st' ! t = \<lparr>delay = 200, target = f, fired = False\<rparr> \<and>
        f < length (features st') \<and> props (features st' ! f) = Profile p \<and>
        cache_get (styleCache st') p DEFAULT_MARKER_SIZE = Some d" for st' t d
  proof -
    from that have t: "t < length (timers st')"
      and tm: "timers st' ! t = \<lparr>delay = 200, target = f, fired = False\<rparr>"
      and f': "f < length (features st')" and pr: "props (features st' ! f) = Profile p"
      and dc: "cache_get (styleCache st') p DEFAULT_MARKER_SIZE = Some d"
      by blast+
    from tm have nf: "\<not> fired (timers st' ! t)" and tg: "target (timers st' ! t) = f"
      by simp_all
    have "step (Timeout t) st' =
        setStyle f d (st'\<lparr>timers := (timers st')[t := (timers st' ! t)\<lparr>fired := True\<rparr>]\<rparr>)"
      using t nf tg f' pr dc by (rule timeout_revert_cached)
    with f' show ?thesis by (simp add: setStyle_def)
  qed
  from click_profile_selection [OF assms] large revert show ?thesis by blast
qed

section \<open>The markers and their identities\<close>

text \<open>
  Three facts about every handler, each proved handler by handler: a marker, once on the
  map, stays there with its geometry and its properties; the markers that the controller
  refers to exist; and no handler reads the identity of a desk, so that relabelling the
  identities commutes with every event.
\<close>

subsection \<open>Markers are only ever added\<close>

lemma extends_iff:
  "extends st st' \<longleftrightarrow> (\<exists>fs. map marker (features st') = map marker (features st) @ fs)"
proof
  assume "extends st st'"
  then have "map marker (features st') =
      map marker (features st) @ drop (length (features st)) (map marker (features st'))"
    unfolding extends_def by (metis append_take_drop_id)
  then show "\<exists>fs. map marker (features st') = map marker (features st) @ fs" ..
next
  assume "\<exists>fs. map marker (features st') = map marker (features st) @ fs"
  then show "extends st st'" by (auto simp: extends_def)
qed

lemma extends_refl [simp]: "extends st st"
  by (simp add: extends_def)

lemma extends_trans: "extends a b \<Longrightarrow> extends b c \<Longrightarrow> extends a c"
  by (auto simp: extends_iff)

lemma extends_same: "map marker (features st') = map marker (features st) \<Longrightarrow> extends st st'"
  by (simp add: extends_iff)

lemma extends_length: "extends st st' \<Longrightarrow> length (features st) \<le> length (features st')"
  by (auto simp: extends_iff dest: arg_cong [where f = length])

lemma map_marker_update: "map marker (xs[h := (xs ! h)\<lparr>style := d\<rparr>]) = map marker xs"
proof (cases "h < length xs")
  case True
  have "marker ((xs ! h)\<lparr>style := d\<rparr>) = map marker xs ! h"
    using True by (simp add: marker_def)
  then show ?thesis by (simp add: map_update)
next
  case False
  then show ?thesis by (simp add: list_update_beyond not_less)
qed

lemma marker_setStyle [simp]: "map marker (features (setStyle h d st)) = map marker (features st)"
  by (simp add: setStyle_def map_marker_update)

lemma extends_await:
  assumes "\<And>s st. extends st (body s st)"
  shows "extends (snd r) (await r k body)"
  using assms by (auto simp: await_def extends_iff split: prod.split outcome.split)

lemma extends_createProfileStyle [simp]: "extends st (snd (createProfileStyle p sz st))"
  by (simp add: extends_def)

lemma extends_finish_hover [simp]: "extends st (finish_hover f s st)"
  by (simp add: extends_same finish_hover_def)

lemma extends_hover_block [simp]: "extends st (hover_block feature st)"
proof -
  have "extends st (await (createProfileStyle p sz st) k (finish_hover f))" for p sz k f
    using extends_trans [OF extends_createProfileStyle extends_await] by simp
  then show ?thesis
    by (simp add: hover_block_def split: option.split properties.split)
qed

lemma extends_finish_unhover [simp]: "extends st (finish_unhover feature s st)"
proof (cases "hoveredFeature st")
  case None
  then show ?thesis by (simp add: finish_unhover_def)
next
  case (Some h)
  have "extends st ((setStyle h s st)\<lparr>hoveredFeature := None\<rparr>)"
    by (simp add: extends_same)
  then show ?thesis
    using Some extends_trans [OF _ extends_hover_block] by (simp add: finish_unhover_def)
qed

lemma extends_await_createProfileStyle:
  assumes "\<And>s st. extends st (body s st)"
  shows "extends st (await (createProfileStyle p sz st) k body)"
  using extends_trans [OF extends_createProfileStyle extends_await, of body st p sz k] assms
  by simp

lemma extends_hover_block_after:
  assumes "map marker (features st1) = map marker (features st)"
  shows "extends st (hover_block feature st1)"
  using extends_trans [OF extends_same [OF assms] extends_hover_block] .

lemma extends_pointermove [simp]: "extends st (pointermove feature st)"
proof -
  define st1 where "st1 = st\<lparr>cursor := (if feature \<noteq> None then ''pointer'' else [])\<rparr>"
  have pm: "pointermove feature st =
     (case hoveredFeature st1 of
        None \<Rightarrow> hover_block feature st1
      | Some h \<Rightarrow>
          if Some h = feature then hover_block feature st1
          else
            (case props (features st1 ! h) of
               Profile p \<Rightarrow>
                 await (createProfileStyle p DEFAULT_MARKER_SIZE st1) (Unhover feature)
                   (finish_unhover feature)
             | Desk i \<Rightarrow>
                 hover_block feature ((setStyle h deskStyle st1)\<lparr>hoveredFeature := None\<rparr>)))"
    by (simp only: pointermove_def Let_def st1_def)
  have "extends st st1" by (simp add: st1_def extends_same)
  moreover have "extends st1 (pointermove feature st)"
    unfolding pm
    by (simp add: extends_await_createProfileStyle extends_hover_block_after
        split: option.split properties.split)
  ultimately show ?thesis by (rule extends_trans)
qed

lemma extends_timeout_callback [simp]: "extends st (timeout_callback f st)"
proof -
  have "extends st (await (createProfileStyle p sz st) k (finish_revert f))" for p sz k
    using extends_trans [OF extends_createProfileStyle extends_await, of "finish_revert f"]
    by (simp add: finish_revert_def extends_same)
  then show ?thesis by (simp add: timeout_callback_def split: properties.split)
qed

lemma extends_finish_click [simp]: "extends st (finish_click f s st)"
  by (simp add: extends_same finish_click_def)

lemma extends_click [simp]: "extends st (click feature st)"
proof -
  have "extends st (await (createProfileStyle p sz (st\<lparr>selectedLocation := x, isOpen := True\<rparr>)) k
      (finish_click f))" for p sz k f x
  proof -
    have "extends st (st\<lparr>selectedLocation := x, isOpen := True\<rparr>)"
      by (simp add: extends_same)
    then show ?thesis
      using extends_trans [OF _ extends_trans [OF extends_createProfileStyle extends_await]]
      by simp
  qed
  then show ?thesis
    by (simp add: click_def extends_same split: option.split properties.split geometry.split)
qed

lemma extends_add_profile_feature [simp]: "extends st (add_profile_feature l s st)"
  by (simp add: extends_iff add_profile_feature_def)

lemma extends_suspend [simp]: "extends st (suspend rid k st)"
  by (simp add: extends_same)

lemma extends_init_loop [simp]: "extends st (init_loop ls st)"
proof (induction ls arbitrary: st)
  case Nil
  show ?case by simp
next
  case (Cons l ls)
  obtain r st' where c: "createProfileStyle (loc_profile l) DEFAULT_MARKER_SIZE st = (r, st')"
    by (cases "createProfileStyle (loc_profile l) DEFAULT_MARKER_SIZE st")
  have s: "extends st st'"
    using extends_createProfileStyle [of st "loc_profile l" DEFAULT_MARKER_SIZE] c by simp
  show ?case
  proof (cases r)
    case (Resolved x)
    have "extends st' (init_loop ls (add_profile_feature l x st'))"
      using extends_trans [OF extends_add_profile_feature Cons.IH] .
    with c s Resolved show ?thesis using extends_trans by simp
  next
    case (Pending n)
    with c s show ?thesis using extends_trans [OF s extends_suspend] by simp
  next
    case Rejected
    with c s show ?thesis by simp
  qed
qed

lemma extends_preload [simp]: "extends st (preload ps st)"
proof (induction ps arbitrary: st)
  case Nil
  show ?case by simp
next
  case (Cons a ps)
  obtain p sz where a: "a = (p, sz)" by (cases a)
  obtain r st' where c: "createProfileStyle p sz st = (r, st')"
    by (cases "createProfileStyle p sz st")
  have s: "extends st st'"
    using extends_createProfileStyle [of st p sz] c by simp
  show ?case
  proof (cases r)
    case (Resolved x)
    with a c show ?thesis using extends_trans [OF s Cons.IH] by simp
  next
    case (Pending n)
    have "extends st (suspend n Preload st')"
      using extends_trans [OF s extends_suspend] .
    with a c Pending show ?thesis using extends_trans [OF _ Cons.IH] by simp
  next
    case Rejected
    with a c s show ?thesis by simp
  qed
qed

lemma extends_after_preload [simp]: "extends st (after_preload st)"
  by (simp add: after_preload_def)

lemma extends_initializeFeatures [simp]: "extends st (initializeFeatures st)"
  unfolding initializeFeatures_def
  using extends_trans [OF extends_preload extends_after_preload] .

lemma extends_resume [simp]: "extends st (resume k s st)"
proof (cases "(k, s, st)" rule: resume.cases)
  case (3 location rest s st)
  then show ?thesis
    using extends_trans [OF extends_add_profile_feature extends_init_loop] by simp
qed (simp_all add: finish_revert_def extends_same)

lemma extends_step: "extends st (step e st)"
proof (cases e)
  case (ImageLoad rid)
  have "extends st (resume k (fst (img_onload r (settle rid st))) (snd (img_onload r (settle rid st))))"
    for k r
  proof -
    have "extends st (snd (img_onload r (settle rid st)))"
      by (simp add: extends_same img_onload_def new_Style_def settle_def Let_def)
    then show ?thesis using extends_trans [OF _ extends_resume] by blast
  qed
  then show ?thesis by (simp add: ImageLoad Let_def case_prod_beta)
next
  case (ImageError rid)
  have "extends st (resume k (fst (img_onerror r (settle rid st))) (snd (img_onerror r (settle rid st))))"
    for k r
  proof -
    have "extends st (snd (img_onerror r (settle rid st)))"
      by (simp add: extends_same img_onerror_def new_Style_def settle_def)
    then show ?thesis using extends_trans [OF _ extends_resume] by blast
  qed
  then show ?thesis by (simp add: ImageError Let_def case_prod_beta)
next
  case (Timeout t)
  have "extends st (timeout_callback f (st\<lparr>timers := ts\<rparr>))" for f ts
  proof -
    have "extends st (st\<lparr>timers := ts\<rparr>)" by (simp add: extends_same)
    then show ?thesis using extends_trans [OF _ extends_timeout_callback] by blast
  qed
  then show ?thesis by (simp add: Timeout)
qed simp_all

lemma extends_run: "extends st (run es st)"
proof (induction es arbitrary: st)
  case Nil
  show ?case by simp
next
  case (Cons e es)
  show ?case using extends_trans [OF extends_step Cons.IH] by simp
qed

subsection \<open>The markers that the controller refers to exist\<close>

lemma in_range_mono: "in_range fo n \<Longrightarrow> n \<le> m \<Longrightarrow> in_range fo m"
  by (auto simp: in_range_def split: option.split)

lemma cont_ok_mono: "cont_ok n k \<Longrightarrow> n \<le> m \<Longrightarrow> cont_ok m k"
  by (cases "(n, k)" rule: cont_ok.cases) (auto intro: in_range_mono)

lemma refs_ok_mono: "refs_ok n st \<Longrightarrow> n \<le> m \<Longrightarrow> refs_ok m st"
  by (auto simp: refs_ok_def list_all_iff intro: in_range_mono cont_ok_mono)

lemma list_all_update: "list_all P xs \<Longrightarrow> P x \<Longrightarrow> list_all P (xs[i := x])"
  by (auto simp: list_all_iff dest: set_update_subset_insert [THEN subsetD])

lemma refs_ok_createProfileStyle:
  "refs_ok n st \<Longrightarrow> refs_ok n (snd (createProfileStyle p sz st))"
  by (auto simp: refs_ok_def createProfileStyle_def new_Style_def split: option.split)

lemma refs_ok_suspend:
  "refs_ok n st \<Longrightarrow> cont_ok n (Some k) \<Longrightarrow> refs_ok n (suspend rid k st)"
  by (simp add: refs_ok_def suspend_def list_all_update)

lemma refs_ok_setStyle [simp]: "refs_ok n (setStyle f s st) = refs_ok n st"
  by (simp add: refs_ok_def setStyle_def)

lemma refs_ok_await:
  assumes "refs_ok n (snd r)" and "cont_ok n (Some k)"
    and "\<And>s st. refs_ok n st \<Longrightarrow> refs_ok n (body s st)"
  shows "refs_ok n (await r k body)"
  using assms by (auto simp: await_def refs_ok_suspend split: prod.split outcome.split)

lemma refs_ok_await_createProfileStyle:
  assumes "refs_ok n st" and "cont_ok n (Some k)"
    and "\<And>s st. refs_ok n st \<Longrightarrow> refs_ok n (body s st)"
  shows "refs_ok n (await (createProfileStyle p sz st) k body)"
  using refs_ok_createProfileStyle [OF assms(1)] assms(2,3) by (rule refs_ok_await)

lemma refs_ok_finish_hover:
  "refs_ok n st \<Longrightarrow> f < n \<Longrightarrow> refs_ok n (finish_hover f s st)"
  by (simp add: refs_ok_def finish_hover_def setStyle_def in_range_def)

lemma refs_ok_hover_block:
  assumes "refs_ok n st" and "in_range feature n"
  shows "refs_ok n (hover_block feature st)"
proof (cases feature)
  case None
  with assms show ?thesis by simp
next
  case (Some f)
  with assms(2) have f: "f < n" by (simp add: in_range_def)
  have "refs_ok n (await (createProfileStyle p sz st) (Hover f) (finish_hover f))" for p sz
    using assms(1) f by (intro refs_ok_await_createProfileStyle refs_ok_finish_hover) simp_all
  with assms(1) f Some show ?thesis
    by (simp add: hover_block_def refs_ok_finish_hover split: properties.split)
qed

lemma refs_ok_finish_unhover:
  assumes "refs_ok n st" and "in_range feature n"
  shows "refs_ok n (finish_unhover feature s st)"
proof (cases "hoveredFeature st")
  case None
  with assms show ?thesis by (simp add: finish_unhover_def)
next
  case (Some h)
  have "refs_ok n ((setStyle h s st)\<lparr>hoveredFeature := None\<rparr>)"
    using assms(1) by (simp add: refs_ok_def in_range_def setStyle_def)
  then have "refs_ok n (hover_block feature ((setStyle h s st)\<lparr>hoveredFeature := None\<rparr>))"
    using assms(2) by (rule refs_ok_hover_block)
  with Some show ?thesis by (simp add: finish_unhover_def)
qed

lemma refs_ok_pointermove:
  assumes "refs_ok n st" and "in_range feature n"
  shows "refs_ok n (pointermove feature st)"
proof -
  define st1 where "st1 = st\<lparr>cursor := (if feature \<noteq> None then ''pointer'' else [])\<rparr>"
  have pm: "pointermove feature st =
     (case hoveredFeature st1 of
        None \<Rightarrow> hover_block feature st1
      | Some h \<Rightarrow>
          if Some h = feature then hover_block feature st1
          else
            (case props (features st1 ! h) of
               Profile p \<Rightarrow>
                 await (createProfileStyle p DEFAULT_MARKER_SIZE st1) (Unhover feature)
                   (finish_unhover feature)
             | Desk i \<Rightarrow>
                 hover_block feature ((setStyle h deskStyle st1)\<lparr>hoveredFeature := None\<rparr>)))"
    by (simp only: pointermove_def Let_def st1_def)
  have ok1: "refs_ok n st1"
    using assms(1) by (simp add: st1_def refs_ok_def)
  have a: "refs_ok n (hover_block feature st1)"
    using ok1 assms(2) by (rule refs_ok_hover_block)
  have b: "refs_ok n (await (createProfileStyle p sz st1) (Unhover feature) (finish_unhover feature))"
    for p sz
    using ok1 assms(2) by (intro refs_ok_await_createProfileStyle refs_ok_finish_unhover) simp_all
  have c: "refs_ok n (hover_block feature ((setStyle h deskStyle st1)\<lparr>hoveredFeature := None\<rparr>))" for h
  proof -
    have "refs_ok n ((setStyle h deskStyle st1)\<lparr>hoveredFeature := None\<rparr>)"
      using ok1 by (simp add: refs_ok_def in_range_def setStyle_def)
    then show ?thesis using assms(2) by (rule refs_ok_hover_block)
  qed
  show ?thesis
    unfolding pm using a b c by (simp split: option.split properties.split)
qed

lemma refs_ok_timeout_callback:
  assumes "refs_ok n st" and "f < n"
  shows "refs_ok n (timeout_callback f st)"
proof -
  have "refs_ok n (await (createProfileStyle p sz st) (ClickRevert f) (finish_revert f))" for p sz
    using assms by (intro refs_ok_await_createProfileStyle) (simp_all add: finish_revert_def)
  with assms(1) show ?thesis by (simp add: timeout_callback_def split: properties.split)
qed

lemma refs_ok_finish_click:
  "refs_ok n st \<Longrightarrow> f < n \<Longrightarrow> refs_ok n (finish_click f s st)"
  by (simp add: refs_ok_def finish_click_def setStyle_def)

lemma refs_ok_click:
  assumes "refs_ok n st" and "in_range feature n"
  shows "refs_ok n (click feature st)"
proof (cases feature)
  case None
  with assms show ?thesis by (simp add: click_def)
next
  case (Some f)
  with assms(2) have f: "f < n" by (simp add: in_range_def)
  have "refs_ok n (await (createProfileStyle p sz (st\<lparr>selectedLocation := x, isOpen := True\<rparr>))
      (ClickLarge f) (finish_click f))" for p sz x
  proof -
    have "refs_ok n (st\<lparr>selectedLocation := x, isOpen := True\<rparr>)"
      using assms(1) by (simp add: refs_ok_def)
    then show ?thesis
      using f by (intro refs_ok_await_createProfileStyle refs_ok_finish_click) simp_all
  qed
  moreover have "refs_ok n (st\<lparr>selectedDesk := x, isDeskModalOpen := True\<rparr>)" for x
    using assms(1) by (simp add: refs_ok_def)
  ultimately show ?thesis
    using assms(1) Some by (simp add: click_def split: properties.split geometry.split)
qed

lemma refs_ok_add_profile_feature [simp]:
  "refs_ok n (add_profile_feature l s st) = refs_ok n st"
  by (simp add: refs_ok_def add_profile_feature_def)

lemma refs_ok_init_loop: "refs_ok n st \<Longrightarrow> refs_ok n (init_loop ls st)"
proof (induction ls arbitrary: st)
  case Nil
  then show ?case by simp
next
  case (Cons l ls)
  obtain r st' where c: "createProfileStyle (loc_profile l) DEFAULT_MARKER_SIZE st = (r, st')"
    by (cases "createProfileStyle (loc_profile l) DEFAULT_MARKER_SIZE st")
  from refs_ok_createProfileStyle [OF Cons.prems, of "loc_profile l" DEFAULT_MARKER_SIZE] c
  have s: "refs_ok n st'" by simp
  show ?case
  proof (cases r)
    case (Resolved x)
    with c s show ?thesis by (simp add: Cons.IH)
  next
    case (Pending m)
    with c s show ?thesis by (simp add: refs_ok_suspend)
  next
    case Rejected
    with c s show ?thesis by simp
  qed
qed

lemma refs_ok_preload: "refs_ok n st \<Longrightarrow> refs_ok n (preload ps st)"
proof (induction ps arbitrary: st)
  case Nil
  then show ?case by simp
next
  case (Cons a ps)
  obtain p sz where a: "a = (p, sz)" by (cases a)
  obtain r st' where c: "createProfileStyle p sz st = (r, st')"
    by (cases "createProfileStyle p sz st")
  from refs_ok_createProfileStyle [OF Cons.prems, of p sz] c
  have s: "refs_ok n st'" by simp
  show ?case
  proof (cases r)
    case (Resolved x)
    with a c s show ?thesis by (simp add: Cons.IH)
  next
    case (Pending m)
    with a c s show ?thesis by (simp add: Cons.IH refs_ok_suspend)
  next
    case Rejected
    with a c s show ?thesis by simp
  qed
qed

lemma refs_ok_after_preload: "refs_ok n st \<Longrightarrow> refs_ok n (after_preload st)"
  by (simp add: after_preload_def refs_ok_init_loop)

lemma refs_ok_resume:
  assumes "refs_ok n st" and "cont_ok n k"
  shows "refs_ok n (resume k s st)"
  using assms
  by (cases "(k, s, st)" rule: resume.cases)
    (simp_all add: refs_ok_after_preload refs_ok_init_loop refs_ok_finish_unhover
      refs_ok_finish_hover refs_ok_finish_click finish_revert_def)

lemma list_all_awaiter_settled:
  "list_all (\<lambda>r. Q (r_awaiter r)) (xs[i := (xs ! i)\<lparr>r_settled := b\<rparr>]) =
   list_all (\<lambda>r. Q (r_awaiter r)) xs"
proof (cases "i < length xs")
  case True
  then show ?thesis by (auto simp: list_all_length nth_list_update)
next
  case False
  then show ?thesis by (simp add: list_update_beyond not_less)
qed

lemma refs_ok_settle [simp]: "refs_ok n (settle rid st) = refs_ok n st"
  by (simp add: refs_ok_def settle_def list_all_awaiter_settled)

lemma refs_ok_img_onload [simp]: "refs_ok n (snd (img_onload r st)) = refs_ok n st"
  by (simp add: refs_ok_def img_onload_def new_Style_def Let_def)

lemma refs_ok_img_onerror [simp]: "refs_ok n (snd (img_onerror r st)) = refs_ok n st"
  by (simp add: refs_ok_def img_onerror_def new_Style_def)

lemma refs_ok_awaiter:
  "refs_ok n st \<Longrightarrow> rid < length (renders st) \<Longrightarrow> cont_ok n (r_awaiter (renders st ! rid))"
  by (simp add: refs_ok_def list_all_length)

lemma refs_ok_target:
  "refs_ok n st \<Longrightarrow> t < length (timers st) \<Longrightarrow> target (timers st ! t) < n"
  by (simp add: refs_ok_def list_all_length)

lemma in_range_featureAtPixel: "in_range (featureAtPixel st fo) (length (features st))"
  by (simp add: in_range_def featureAtPixel_def split: option.split)

lemma refs_ok_step:
  assumes "refs_ok n st" and "length (features st) \<le> n"
  shows "refs_ok n (step e st)"
proof (cases e)
  case (PointerMove fo)
  have "in_range (featureAtPixel st fo) n"
    using in_range_featureAtPixel assms(2) by (rule in_range_mono)
  with assms(1) show ?thesis by (simp add: PointerMove refs_ok_pointermove)
next
  case (Click fo)
  have "in_range (featureAtPixel st fo) n"
    using in_range_featureAtPixel assms(2) by (rule in_range_mono)
  with assms(1) show ?thesis by (simp add: Click refs_ok_click)
next
  case (ImageLoad rid)
  show ?thesis
    using assms(1) refs_ok_awaiter [OF assms(1), of rid]
    by (simp add: ImageLoad Let_def case_prod_beta refs_ok_resume)
next
  case (ImageError rid)
  show ?thesis
    using assms(1) refs_ok_awaiter [OF assms(1), of rid]
    by (simp add: ImageError Let_def case_prod_beta refs_ok_resume)
next
  case (Timeout t)
  have "refs_ok n (st\<lparr>timers := (timers st)[t := (timers st ! t)\<lparr>fired := True\<rparr>]\<rparr>)"
    if "t < length (timers st)"
  proof -
    have "list_all (\<lambda>t. target t < n) ((timers st)[t := (timers st ! t)\<lparr>fired := True\<rparr>])"
      using assms(1) that refs_ok_target [OF assms(1) that]
      by (intro list_all_update) (simp_all add: refs_ok_def)
    with assms(1) show ?thesis by (simp add: refs_ok_def)
  qed
  then show ?thesis
    using assms(1) refs_ok_target [OF assms(1), of t]
    by (simp add: Timeout refs_ok_timeout_callback)
qed

lemma well_formed_step: "well_formed st \<Longrightarrow> well_formed (step e st)"
  unfolding well_formed_def
  using refs_ok_mono [OF refs_ok_step extends_length [OF extends_step]] by blast

lemma well_formed_run: "well_formed st \<Longrightarrow> well_formed (run es st)"
  by (induction es arbitrary: st) (simp_all add: well_formed_step)

lemma well_formed_init: "well_formed (init ctx)"
proof -
  have "refs_ok (length (features (mounted ctx))) (mounted ctx)"
    by (simp add: refs_ok_def mounted_def in_range_def)
  then have "refs_ok (length (features (mounted ctx))) (init ctx)"
    unfolding init_def initializeFeatures_def
    by (intro refs_ok_after_preload refs_ok_preload)
  moreover have "length (features (mounted ctx)) \<le> length (features (init ctx))"
    unfolding init_def by (rule extends_length) simp
  ultimately show ?thesis
    unfolding well_formed_def by (rule refs_ok_mono)
qed

subsection \<open>No handler reads an identity: relabelling commutes with every event\<close>

lemma relabel_fields [simp]:
  "length (features (relabel rn st)) = length (features st)"
  "hoveredFeature (relabel rn st) = hoveredFeature st"
  "styleCache (relabel rn st) = styleCache st"
  "renders (relabel rn st) = renders st"
  "timers (relabel rn st) = timers st"
  "has2d (relabel rn st) = has2d st"
  "nextId (relabel rn st) = nextId st"
  "console (relabel rn st) = console st"
  by (simp_all add: relabel_def)

lemma relabel_nth:
  assumes "i < length (features st)"
  shows "props (features (relabel rn st) ! i) = relabel_props rn (props (features st ! i))"
    and "geometry (features (relabel rn st) ! i) = geometry (features st ! i)"
  using assms by (simp_all add: relabel_def)

lemma relabel_updates:
  "relabel rn (st\<lparr>cursor := c\<rparr>) = (relabel rn st)\<lparr>cursor := c\<rparr>"
  "relabel rn (st\<lparr>hoveredFeature := h\<rparr>) = (relabel rn st)\<lparr>hoveredFeature := h\<rparr>"
  "relabel rn (st\<lparr>timers := ts\<rparr>) = (relabel rn st)\<lparr>timers := ts\<rparr>"
  "relabel rn (st\<lparr>renders := rs\<rparr>) = (relabel rn st)\<lparr>renders := rs\<rparr>"
  "relabel rn (st\<lparr>selectedLocation := l, isOpen := b\<rparr>) =
     (relabel rn st)\<lparr>selectedLocation := l, isOpen := b\<rparr>"
  by (simp_all add: relabel_def)

lemma createProfileStyle_relabel:
  "createProfileStyle p sz (relabel rn st) =
     (fst (createProfileStyle p sz st), relabel rn (snd (createProfileStyle p sz st)))"
  by (simp add: createProfileStyle_def relabel_def new_Style_def split: option.split)

lemma suspend_relabel: "suspend rid k (relabel rn st) = relabel rn (suspend rid k st)"
  by (simp add: suspend_def relabel_def)

lemma map_style_update:
  "(map (\<lambda>f. f\<lparr>props := g (props f)\<rparr>) xs)
     [h := (map (\<lambda>f. f\<lparr>props := g (props f)\<rparr>) xs ! h)\<lparr>style := s\<rparr>] =
   map (\<lambda>f. f\<lparr>props := g (props f)\<rparr>) (xs[h := (xs ! h)\<lparr>style := s\<rparr>])"
proof (cases "h < length xs")
  case True
  let ?G = "\<lambda>f. f\<lparr>props := g (props f)\<rparr>"
  have eq: "(xs ! h)\<lparr>props := g (props (xs ! h)), style := s\<rparr> =
      (xs ! h)\<lparr>style := s, props := g (props (xs ! h))\<rparr>"
    by (cases "xs ! h") simp
  from True have "(map ?G xs)[h := (map ?G xs ! h)\<lparr>style := s\<rparr>] =
      (map ?G xs)[h := (xs ! h)\<lparr>props := g (props (xs ! h)), style := s\<rparr>]"
    by simp
  also have "\<dots> = (map ?G xs)[h := (xs ! h)\<lparr>style := s, props := g (props (xs ! h))\<rparr>]"
    by (simp only: eq)
  also have "\<dots> = map ?G (xs[h := (xs ! h)\<lparr>style := s\<rparr>])"
    by (simp add: map_update)
  finally show ?thesis .
next
  case False
  then show ?thesis by (simp add: list_update_beyond not_less)
qed

lemma setStyle_relabel: "setStyle f s (relabel rn st) = relabel rn (setStyle f s st)"
  by (simp add: setStyle_def relabel_def map_style_update)

lemma await_relabel:
  assumes "r' = (fst r, relabel rn (snd r))"
    and "\<And>s. body s (relabel rn (snd r)) = relabel rn (body s (snd r))"
  shows "await r' k body = relabel rn (await r k body)"
proof (cases r)
  case (Pair out st)
  with assms show ?thesis
    by (cases out) (simp_all add: await_def suspend_relabel)
qed

lemma await_createProfileStyle_relabel:
  assumes "\<And>s st'. length (features st') = length (features st) \<Longrightarrow>
      hoveredFeature st' = hoveredFeature st \<Longrightarrow>
      body s (relabel rn st') = relabel rn (body s st')"
  shows "await (createProfileStyle p sz (relabel rn st)) k body =
         relabel rn (await (createProfileStyle p sz st) k body)"
proof (rule await_relabel)
  show "createProfileStyle p sz (relabel rn st) =
      (fst (createProfileStyle p sz st), relabel rn (snd (createProfileStyle p sz st)))"
    by (rule createProfileStyle_relabel)
  have "hoveredFeature (snd (createProfileStyle p sz st)) = hoveredFeature st"
    by (simp add: createProfileStyle_def new_Style_def split: option.split)
  then show "body s (relabel rn (snd (createProfileStyle p sz st))) =
      relabel rn (body s (snd (createProfileStyle p sz st)))" for s
    by (intro assms) simp_all
qed

lemma finish_hover_relabel: "finish_hover f s (relabel rn st) = relabel rn (finish_hover f s st)"
  by (simp add: finish_hover_def setStyle_relabel relabel_updates)

lemma hover_block_relabel:
  assumes "in_range feature (length (features st))"
  shows "hover_block feature (relabel rn st) = relabel rn (hover_block feature st)"
proof (cases feature)
  case None
  then show ?thesis by simp
next
  case (Some f)
  with assms have f: "f < length (features st)" by (simp add: in_range_def)
  have a: "await (createProfileStyle p sz (relabel rn st)) k (finish_hover f) =
      relabel rn (await (createProfileStyle p sz st) k (finish_hover f))" for p sz k
    by (rule await_createProfileStyle_relabel) (rule finish_hover_relabel)
  show ?thesis
  proof (cases "props (features st ! f)")
    case (Profile p)
    with Some f a show ?thesis by (simp add: hover_block_def relabel_nth)
  next
    case (Desk i)
    with Some f show ?thesis by (simp add: hover_block_def relabel_nth finish_hover_relabel)
  qed
qed

lemma finish_unhover_relabel:
  assumes "in_range feature (length (features st))"
  shows "finish_unhover feature s (relabel rn st) = relabel rn (finish_unhover feature s st)"
proof (cases "hoveredFeature st")
  case None
  then show ?thesis by (simp add: finish_unhover_def)
next
  case (Some h)
  have "hover_block feature (relabel rn ((setStyle h s st)\<lparr>hoveredFeature := None\<rparr>)) =
      relabel rn (hover_block feature ((setStyle h s st)\<lparr>hoveredFeature := None\<rparr>))"
    by (rule hover_block_relabel) (use assms in simp)
  with Some show ?thesis
    by (simp add: finish_unhover_def setStyle_relabel relabel_updates)
qed

lemma pointermove_relabel:
  assumes "in_range feature (length (features st))"
    and "in_range (hoveredFeature st) (length (features st))"
  shows "pointermove feature (relabel rn st) = relabel rn (pointermove feature st)"
proof -
  define c where "c = (if feature \<noteq> None then ''pointer'' else [])"
  define st1 where "st1 = st\<lparr>cursor := c\<rparr>"
  have pm: "pointermove feature st0 =
     (case hoveredFeature (st0\<lparr>cursor := c\<rparr>) of
        None \<Rightarrow> hover_block feature (st0\<lparr>cursor := c\<rparr>)
      | Some h \<Rightarrow>
          if Some h = feature then hover_block feature (st0\<lparr>cursor := c\<rparr>)
          else
            (case props (features (st0\<lparr>cursor := c\<rparr>) ! h) of
               Profile p \<Rightarrow>
                 await (createProfileStyle p DEFAULT_MARKER_SIZE (st0\<lparr>cursor := c\<rparr>))
                   (Unhover feature) (finish_unhover feature)
             | Desk i \<Rightarrow>
                 hover_block feature
                   ((setStyle h deskStyle (st0\<lparr>cursor := c\<rparr>))\<lparr>hoveredFeature := None\<rparr>)))" for st0
    by (simp only: pointermove_def Let_def c_def)
  have r1: "(relabel rn st)\<lparr>cursor := c\<rparr> = relabel rn st1"
    by (simp add: st1_def relabel_updates)
  have len: "length (features st1) = length (features st)"
    and hov: "hoveredFeature st1 = hoveredFeature st"
    by (simp_all add: st1_def)
  have hb: "hover_block feature (relabel rn st1) = relabel rn (hover_block feature st1)"
    by (rule hover_block_relabel) (use assms(1) len in simp)
  have aw: "await (createProfileStyle p sz (relabel rn st1)) k (finish_unhover feature) =
      relabel rn (await (createProfileStyle p sz st1) k (finish_unhover feature))" for p sz k
    by (rule await_createProfileStyle_relabel, rule finish_unhover_relabel)
      (use assms(1) len in simp)
  have dk: "hover_block feature ((setStyle h deskStyle (relabel rn st1))\<lparr>hoveredFeature := None\<rparr>) =
      relabel rn (hover_block feature ((setStyle h deskStyle st1)\<lparr>hoveredFeature := None\<rparr>))" for h
  proof -
    have "hover_block feature (relabel rn ((setStyle h deskStyle st1)\<lparr>hoveredFeature := None\<rparr>)) =
        relabel rn (hover_block feature ((setStyle h deskStyle st1)\<lparr>hoveredFeature := None\<rparr>))"
      by (rule hover_block_relabel) (use assms(1) len in simp)
    then show ?thesis by (simp add: setStyle_relabel relabel_updates)
  qed
  show ?thesis
  proof (cases "hoveredFeature st")
    case None
    then show ?thesis
      unfolding pm [of st] pm [of "relabel rn st"] r1 st1_def [symmetric]
      using hb by (simp add: hov)
  next
    case (Some h)
    with assms(2) have h: "h < length (features st1)" by (simp add: in_range_def len)
    show ?thesis
    proof (cases "props (features st1 ! h)")
      case (Profile p)
      with Some h show ?thesis
        unfolding pm [of st] pm [of "relabel rn st"] r1 st1_def [symmetric]
        using hb aw by (simp add: hov relabel_nth)
    next
      case (Desk i)
      with Some h show ?thesis
        unfolding pm [of st] pm [of "relabel rn st"] r1 st1_def [symmetric]
        using hb dk by (simp add: hov relabel_nth)
    qed
  qed
qed

lemma timeout_callback_relabel:
  assumes "f < length (features st)"
  shows "timeout_callback f (relabel rn st) = relabel rn (timeout_callback f st)"
proof -
  have a: "await (createProfileStyle p sz (relabel rn st)) k (finish_revert f) =
      relabel rn (await (createProfileStyle p sz st) k (finish_revert f))" for p sz k
    by (rule await_createProfileStyle_relabel) (simp add: finish_revert_def setStyle_relabel)
  show ?thesis
    using assms a
    by (cases "props (features st ! f)") (simp_all add: timeout_callback_def relabel_nth)
qed

lemma finish_click_relabel: "finish_click f s (relabel rn st) = relabel rn (finish_click f s st)"
  by (simp add: finish_click_def setStyle_relabel relabel_updates)

lemma click_relabel:
  assumes "in_range feature (length (features st))"
  shows "click feature (relabel rn st) = relabel rn (click feature st)"
proof (cases feature)
  case None
  then show ?thesis by (simp add: click_def)
next
  case (Some f)
  with assms have f: "f < length (features st)" by (simp add: in_range_def)
  have a: "await (createProfileStyle p sz ((relabel rn st)\<lparr>selectedLocation := l, isOpen := True\<rparr>))
        k (finish_click f) =
      relabel rn (await (createProfileStyle p sz (st\<lparr>selectedLocation := l, isOpen := True\<rparr>))
        k (finish_click f))" for p sz k l
    unfolding relabel_updates(5) [symmetric]
    by (rule await_createProfileStyle_relabel) (rule finish_click_relabel)
  have d: "(relabel rn st)\<lparr>selectedDesk := Some \<lparr>seld_id = rn i, seld_coords = c\<rparr>,
        isDeskModalOpen := True\<rparr> =
      relabel rn (st\<lparr>selectedDesk := Some \<lparr>seld_id = i, seld_coords = c\<rparr>,
        isDeskModalOpen := True\<rparr>)" for i c
    by (simp add: relabel_def)
  show ?thesis
  proof (cases "props (features st ! f)")
    case (Profile p)
    with Some f a show ?thesis
      by (cases "geometry (features st ! f)") (simp_all add: click_def relabel_nth)
  next
    case (Desk i)
    with Some f d show ?thesis
      by (cases "geometry (features st ! f)") (simp_all add: click_def relabel_nth)
  qed
qed

lemma add_profile_feature_relabel:
  "add_profile_feature l s (relabel rn st) = relabel rn (add_profile_feature l s st)"
  by (simp add: add_profile_feature_def relabel_def)

lemma init_loop_relabel: "init_loop ls (relabel rn st) = relabel rn (init_loop ls st)"
proof (induction ls arbitrary: st)
  case Nil
  show ?case by simp
next
  case (Cons l ls)
  obtain r st' where c: "createProfileStyle (loc_profile l) DEFAULT_MARKER_SIZE st = (r, st')"
    by (cases "createProfileStyle (loc_profile l) DEFAULT_MARKER_SIZE st")
  then have c': "createProfileStyle (loc_profile l) DEFAULT_MARKER_SIZE (relabel rn st) =
      (r, relabel rn st')"
    by (simp add: createProfileStyle_relabel)
  show ?case
    by (cases r)
      (simp_all add: c c' Cons.IH add_profile_feature_relabel suspend_relabel)
qed

lemma after_preload_relabel: "after_preload (relabel rn st) = relabel rn (after_preload st)"
  by (simp add: after_preload_def preload_done_def init_loop_relabel)

lemma resume_relabel:
  assumes "cont_ok (length (features st)) k"
  shows "resume k s (relabel rn st) = relabel rn (resume k s st)"
  using assms
  by (cases "(k, s, st)" rule: resume.cases)
    (simp_all add: after_preload_relabel init_loop_relabel add_profile_feature_relabel
      finish_unhover_relabel finish_hover_relabel finish_click_relabel finish_revert_def
      setStyle_relabel)

lemma settle_relabel: "settle rid (relabel rn st) = relabel rn (settle rid st)"
  by (simp add: settle_def relabel_def)

lemma img_onload_relabel:
  "img_onload r (relabel rn st) = (fst (img_onload r st), relabel rn (snd (img_onload r st)))"
  by (simp add: img_onload_def new_Style_def relabel_def Let_def)

lemma img_onerror_relabel:
  "img_onerror r (relabel rn st) = (fst (img_onerror r st), relabel rn (snd (img_onerror r st)))"
  by (simp add: img_onerror_def new_Style_def relabel_def)

lemma featureAtPixel_relabel [simp]: "featureAtPixel (relabel rn st) fo = featureAtPixel st fo"
  by (cases fo) (simp_all add: featureAtPixel_def)

lemma step_relabel:
  assumes "well_formed st"
  shows "step e (relabel rn st) = relabel rn (step e st)"
proof -
  from assms have ok: "refs_ok (length (features st)) st"
    by (simp add: well_formed_def)
  then have hov: "in_range (hoveredFeature st) (length (features st))"
    by (simp add: refs_ok_def)
  show ?thesis
  proof (cases e)
    case (PointerMove fo)
    then show ?thesis
      using pointermove_relabel [OF in_range_featureAtPixel hov] by simp
  next
    case (Click fo)
    then show ?thesis
      using click_relabel [OF in_range_featureAtPixel] by simp
  next
    case (ImageLoad rid)
    show ?thesis
    proof (cases "rid < length (renders st) \<and> \<not> r_settled (renders st ! rid)")
      case True
      then have k: "cont_ok (length (features st)) (r_awaiter (renders st ! rid))"
        using refs_ok_awaiter [OF ok] by simp
      have len: "length (features (snd (img_onload r (settle rid st)))) = length (features st)" for r
        by (simp add: img_onload_def new_Style_def settle_def Let_def)
      from True show ?thesis
        using resume_relabel [of "snd (img_onload (renders st ! rid) (settle rid st))"
            "r_awaiter (renders st ! rid)"] k
        by (simp add: ImageLoad Let_def case_prod_beta settle_relabel img_onload_relabel len)
    next
      case False
      then show ?thesis by (auto simp: ImageLoad)
    qed
  next
    case (ImageError rid)
    show ?thesis
    proof (cases "rid < length (renders st) \<and> \<not> r_settled (renders st ! rid)")
      case True
      then have k: "cont_ok (length (features st)) (r_awaiter (renders st ! rid))"
        using refs_ok_awaiter [OF ok] by simp
      have len: "length (features (snd (img_onerror r (settle rid st)))) = length (features st)" for r
        by (simp add: img_onerror_def new_Style_def settle_def)
      from True show ?thesis
        using resume_relabel [of "snd (img_onerror (renders st ! rid) (settle rid st))"
            "r_awaiter (renders st ! rid)"] k
        by (simp add: ImageError Let_def case_prod_beta settle_relabel img_onerror_relabel len)
    next
      case False
      then show ?thesis by (auto simp: ImageError)
    qed
  next
    case (Timeout t)
    show ?thesis
    proof (cases "t < length (timers st) \<and> \<not> fired (timers st ! t)")
      case True
      then have "target (timers st ! t) < length (features st)"
        using refs_ok_target [OF ok] by simp
      then have "timeout_callback (target (timers st ! t))
            (relabel rn (st\<lparr>timers := (timers st)[t := (timers st ! t)\<lparr>fired := True\<rparr>]\<rparr>)) =
          relabel rn (timeout_callback (target (timers st ! t))
            (st\<lparr>timers := (timers st)[t := (timers st ! t)\<lparr>fired := True\<rparr>]\<rparr>))"
        by (intro timeout_callback_relabel) simp
      with True show ?thesis by (simp add: Timeout relabel_updates)
    next
      case False
      then show ?thesis by (auto simp: Timeout)
    qed
  qed
qed

lemma well_formed_relabel [simp]: "well_formed (relabel rn st) = well_formed st"
  by (simp add: well_formed_def refs_ok_def)

lemma run_relabel:
  assumes "well_formed st"
  shows "run es (relabel rn st) = relabel rn (run es st)"
  using assms
proof (induction es arbitrary: st)
  case Nil
  show ?case by simp
next
  case (Cons e es)
  from Cons.prems have "well_formed (step e st)" by (rule well_formed_step)
  then have "run es (relabel rn (step e st)) = relabel rn (run es (step e st))"
    by (rule Cons.IH)
  then show ?case using step_relabel [OF Cons.prems] by simp
qed

section \<open>Concrete runs\<close>

lemmas consts_defs = DEFAULT_MARKER_SIZE_def HOVER_MARKER_SIZE_def CLICK_MARKER_SIZE_def
  CLICK_ANIMATION_DURATION_def DESK_RADIUS_def DEFAULT_LOCATIONS_def DESK_LOCATIONS_def

lemmas model_defs = init_def mounted_def initializeFeatures_def after_preload_def preload_done_def
  createProfileStyle_def cache_get_def cache_put_def canvas_dimension_def prepare_canvas_def
  arc_def draw_def
  new_Style_def suspend_def await_def setStyle_def finish_hover_def hover_block_def
  finish_unhover_def pointermove_def finish_revert_def timeout_callback_def finish_click_def
  click_def add_profile_feature_def img_onload_def img_onerror_def featureAtPixel_def
  settle_def createDeskFeature_def Let_def

lemma init_True_renders:
  "length (renders (init True)) = 15 \<and>
   renders (init True) ! 0 =
     \<lparr>r_path = ''/profiles/profile1.jpeg'', r_size = 30,
      r_canvas = \<lparr>width = 66, height = 66,
                  ops = [BeginPath, Arc 33 33 33 Zero TwoPi, SetFillStyle ''#e5e7eb'', Fill,
                         BeginPath, Arc 33 33 30 Zero TwoPi, Clip]\<rparr>,
      r_awaiter = Some Preload, r_settled = False\<rparr>"
  by (simp add: model_defs consts_defs)

lemma init_True_features: "features (init True) = map createDeskFeature DESK_LOCATIONS"
  by (simp add: model_defs consts_defs)

text \<open>
  The first image of the start-up: the render of \<^verbatim>\<open>profile1.jpeg\<close> at size 30 is in flight;
  when it loads, style object 2 is cached and every later call returns the cached object.
\<close>

theorem createProfileStyle_memo_witness:
  "0 < length (renders (init True)) \<and> \<not> r_settled (renders (init True) ! 0) \<and>
   r_path (renders (init True) ! 0) = ''/profiles/profile1.jpeg'' \<and>
   r_size (renders (init True) ! 0) = 30 \<and>
   fst (img_onload (renders (init True) ! 0) (settle 0 (init True))) =
     avatar (nextId (init True)) ''/profiles/profile1.jpeg'' 30 \<and>
   cache_get (styleCache (snd (img_onload (renders (init True) ! 0) (settle 0 (init True)))))
     ''/profiles/profile1.jpeg'' 30 =
     Some (fst (img_onload (renders (init True) ! 0) (settle 0 (init True)))) \<and>
   createProfileStyle ''/profiles/profile1.jpeg'' 30 (step (ImageLoad 0) (init True)) =
     (Resolved (fst (img_onload (renders (init True) ! 0) (settle 0 (init True)))),
      step (ImageLoad 0) (init True)) \<and>
   (\<forall>es. \<exists>s'.
      cache_get (styleCache (run es (step (ImageLoad 0) (init True))))
        ''/profiles/profile1.jpeg'' 30 = Some s' \<and>
      createProfileStyle ''/profiles/profile1.jpeg'' 30 (run es (step (ImageLoad 0) (init True))) =
        (Resolved s', run es (step (ImageLoad 0) (init True))))"
proof -
  let ?st = "init True"
  let ?r = "renders ?st ! 0"
  have h1: "0 < length (renders ?st)" and h2: "\<not> r_settled ?r"
    and h3: "r_path ?r = ''/profiles/profile1.jpeg''" and h4: "r_size ?r = 30"
    using init_True_renders by simp_all
  have h5: "img_onload ?r (settle 0 ?st) =
      (fst (img_onload ?r (settle 0 ?st)), snd (img_onload ?r (settle 0 ?st)))"
    by simp
  have av: "fst (img_onload ?r (settle 0 ?st)) = avatar (nextId ?st) ''/profiles/profile1.jpeg'' 30"
    using init_True_renders by (simp add: img_onload_style avatar_def settle_def)
  from createProfileStyle_memo [OF h1 h2 h3 h4 h5] h1 h2 h3 h4 av show ?thesis
    by blast
qed

text \<open>
  The first call of the start-up, size 30: a canvas of 66 by 66, the two circles of radius
  33 and 30 around (33, 33), and after the load the icon \<open>avatar 2\<close>.
\<close>

theorem createProfileStyle_compositing_witness:
  "(0::int) < 30 \<and> (30::int) \<le> 1073741820 \<and> has2d (mounted True) \<and>
   cache_get (styleCache (mounted True)) ''/profiles/profile1.jpeg'' 30 = None \<and>
   (\<exists>st1 r.
      createProfileStyle ''/profiles/profile1.jpeg'' 30 (mounted True) = (Pending 0, st1) \<and>
      renders st1 = [r] \<and>
      r_canvas r =
        \<lparr>width = 66, height = 66,
         ops = [BeginPath, Arc 33 33 33 Zero TwoPi, SetFillStyle ''#e5e7eb'', Fill,
                BeginPath, Arc 33 33 30 Zero TwoPi, Clip]\<rparr> \<and>
      fst (img_onload r st1) = avatar 2 ''/profiles/profile1.jpeg'' 30)"
proof -
  have h1: "(0::int) < 30" and h1': "(30::int) \<le> 1073741820" by simp_all
  have h2: "has2d (mounted True)" by (simp add: mounted_def)
  have h3: "cache_get (styleCache (mounted True)) ''/profiles/profile1.jpeg'' 30 = None"
    by (simp add: mounted_def cache_get_def)
  from createProfileStyle_compositing [OF h1 h1' h2 h3]
  obtain st1 r where
    c: "createProfileStyle ''/profiles/profile1.jpeg'' 30 (mounted True) =
          (Pending (length (renders (mounted True))), st1)"
    and r: "renders st1 = renders (mounted True) @ [r]"
    and cv: "r_canvas r =
        \<lparr>width = 2 * (30 + 3), height = 2 * (30 + 3),
         ops = [BeginPath, Arc (30 + 3) (30 + 3) (30 + 3) Zero TwoPi,
                SetFillStyle ''#e5e7eb'', Fill,
                BeginPath, Arc (30 + 3) (30 + 3) 30 Zero TwoPi, Clip]\<rparr>"
    and av: "\<forall>st2. fst (img_onload r st2) = avatar (nextId st2) ''/profiles/profile1.jpeg'' 30"
    by blast
  have n: "nextId st1 = 2"
    using c by (auto simp: createProfileStyle_def mounted_def cache_get_def prepare_canvas_nonneg)
  have "createProfileStyle ''/profiles/profile1.jpeg'' 30 (mounted True) = (Pending 0, st1)"
    using c by (simp add: mounted_def)
  moreover have "renders st1 = [r]" using r by (simp add: mounted_def)
  moreover have "fst (img_onload r st1) = avatar 2 ''/profiles/profile1.jpeg'' 30"
    using av n by simp
  ultimately show ?thesis using h1 h1' h2 h3 cv by auto
qed

text \<open>
  The claim fails for the positive size 1073741821. The side \<open>2 * (sz + 3)\<close> is then
  2147483648, one more than a canvas dimension can be, so the two assignments leave the
  canvas at its default size of 300 by 150: it is neither square nor of the side stated.
\<close>

theorem createProfileStyle_compositing_counterexample:
  "(0::int) < 1073741821 \<and> 2 * (1073741821 + 3) = (2147483648::int) \<and>
   fst (createProfileStyle ''/profiles/profile1.jpeg'' 1073741821 (mounted True)) = Pending 0 \<and>
   map (\<lambda>r. (r_size r, width (r_canvas r), height (r_canvas r)))
     (renders (snd (createProfileStyle ''/profiles/profile1.jpeg'' 1073741821 (mounted True)))) =
     [(1073741821, 300, 150)]"
  by (simp add: createProfileStyle_def mounted_def cache_get_def prepare_canvas_def
      canvas_dimension_def arc_def draw_def Let_def)

text \<open>
  The third desk of the configuration, \<^verbatim>\<open>desk-3\<close> at (333, 506), clicked right after start-up.
\<close>

theorem click_desk_witness:
  "2 < length (features (init True)) \<and>
   props (features (init True) ! 2) = Desk ''desk-3'' \<and>
   geometry (features (init True) ! 2) = Circle (333, 506) 25 \<and>
   step (Click (Some 2)) (init True) =
     (init True)\<lparr>selectedDesk := Some \<lparr>seld_id = ''desk-3'', seld_coords = (333, 506)\<rparr>,
                 isDeskModalOpen := True\<rparr> \<and>
   timers (step (Click (Some 2)) (init True)) = timers (init True) \<and>
   features (step (Click (Some 2)) (init True)) = features (init True)"
proof -
  have h1: "2 < length (features (init True))"
    and h2: "props (features (init True) ! 2) = Desk ''desk-3''"
    and h3: "geometry (features (init True) ! 2) = Circle (333, 506) 25"
    by (simp_all add: init_True_features DESK_LOCATIONS_def createDeskFeature_def DESK_RADIUS_def)
  from click_desk [OF h1 h2 h3] h1 h2 h3 show ?thesis by simp
qed

lemma upt_12: "[0..<12] = [0, 1, 2, 3, 4, 5, 6, 7, 8, 9, 10, 11]"
  by code_simp

lemmas notion_defs = non_default_def is_default_def default_style_def hover_style_def
  preloaded_def hover_inv_def in_range_def idle_def avatar_def deskStyle_def deskHoverStyle_def
  upt_12

text \<open>The start-up in which every image loads, and a hover, a click and the timer after it.\<close>

lemma loaded_facts:
  "length (features loaded) = 12 \<and>
   features loaded ! 7 =
     \<lparr>geometry = Point (176, 325), props = Profile ''/profiles/profile1.jpeg'',
      style = avatar 14 ''/profiles/profile1.jpeg'' 30\<rparr> \<and>
   features loaded ! 0 =
     \<lparr>geometry = Circle (176, 255) 25, props = Desk ''desk-1'', style = deskStyle\<rparr> \<and>
   hoveredFeature loaded = None \<and> timers loaded = [] \<and> console loaded = [] \<and>
   map (cache_get (styleCache loaded) ''/profiles/profile1.jpeg'') [30, 40, 45] =
     [Some (avatar 14 ''/profiles/profile1.jpeg'' 30),
      Some (avatar 15 ''/profiles/profile1.jpeg'' 40),
      Some (avatar 16 ''/profiles/profile1.jpeg'' 45)] \<and>
   preloaded loaded \<and> hover_inv loaded \<and> idle loaded \<and> non_default loaded = []"
proof -
  define P where "P st \<longleftrightarrow>
   length (features st) = 12 \<and>
   features st ! 7 =
     \<lparr>geometry = Point (176, 325), props = Profile ''/profiles/profile1.jpeg'',
      style = avatar 14 ''/profiles/profile1.jpeg'' 30\<rparr> \<and>
   features st ! 0 =
     \<lparr>geometry = Circle (176, 255) 25, props = Desk ''desk-1'', style = deskStyle\<rparr> \<and>
   hoveredFeature st = None \<and> timers st = [] \<and> console st = [] \<and>
   map (cache_get (styleCache st) ''/profiles/profile1.jpeg'') [30, 40, 45] =
     [Some (avatar 14 ''/profiles/profile1.jpeg'' 30),
      Some (avatar 15 ''/profiles/profile1.jpeg'' 40),
      Some (avatar 16 ''/profiles/profile1.jpeg'' 45)] \<and>
   preloaded st \<and> hover_inv st \<and> idle st \<and> non_default st = []" for st :: state
  have "P loaded"
    unfolding loaded_def
    apply (simp add: model_defs consts_defs)
    apply (simp add: P_def cache_get_def notion_defs consts_defs)
    done
  then show ?thesis unfolding P_def .
qed

lemma loaded_runs:
  "(hoveredFeature (run [PointerMove (Some 7), Click (Some 7), Timeout 0] loaded) = Some 7 \<and>
    style (features (run [PointerMove (Some 7), Click (Some 7), Timeout 0] loaded) ! 7) =
      avatar 14 ''/profiles/profile1.jpeg'' 30 \<and>
    timers (run [PointerMove (Some 7), Click (Some 7), Timeout 0] loaded) =
      [\<lparr>delay = 200, target = 7, fired = True\<rparr>]) \<and>
   (hoveredFeature (run [PointerMove (Some 7), Click (Some 7)] loaded) = Some 7 \<and>
    style (features (run [PointerMove (Some 7), Click (Some 7)] loaded) ! 7) =
      avatar 16 ''/profiles/profile1.jpeg'' 45) \<and>
   (non_default (run [PointerMove (Some 7), PointerMove (Some 0)] loaded) = [0] \<and>
    hoveredFeature (run [PointerMove (Some 7), PointerMove (Some 0)] loaded) = Some 0)"
proof -
  define Pa where "Pa a \<longleftrightarrow>
   (hoveredFeature a = Some 7 \<and>
    style (features a ! 7) = avatar 14 ''/profiles/profile1.jpeg'' 30 \<and>
    timers a = [\<lparr>delay = 200, target = 7, fired = True\<rparr>])" for a :: state
  define Pb where "Pb b \<longleftrightarrow>
   (hoveredFeature b = Some 7 \<and>
    style (features b ! 7) = avatar 16 ''/profiles/profile1.jpeg'' 45)" for b :: state
  define Pc where "Pc c \<longleftrightarrow>
   (non_default c = [0] \<and> hoveredFeature c = Some 0)" for c :: state
  define P where "P st \<longleftrightarrow>
    Pa (run [PointerMove (Some 7), Click (Some 7), Timeout 0] st) \<and>
    Pb (run [PointerMove (Some 7), Click (Some 7)] st) \<and>
    Pc (run [PointerMove (Some 7), PointerMove (Some 0)] st)" for st :: state
  have "P loaded"
    unfolding loaded_def
    apply (simp add: model_defs consts_defs)
    apply (simp add: P_def model_defs consts_defs)
    apply (simp add: Pa_def Pb_def Pc_def cache_get_def notion_defs consts_defs)
    done
  then show ?thesis unfolding P_def Pa_def Pb_def Pc_def .
qed

text \<open>
  The start-up in which the hover- and click-size images of \<^verbatim>\<open>profile1.jpeg\<close> fail: the
  markers are all there with their default styles, and a hover or a click on the first
  marker has to wait for a new image.
\<close>

lemma half_loaded_facts:
  "hoveredFeature half_loaded = None \<and> non_default half_loaded = [] \<and>
   timers half_loaded = [] \<and> length (features half_loaded) = 12 \<and>
   features half_loaded ! 7 =
     \<lparr>geometry = Point (176, 325), props = Profile ''/profiles/profile1.jpeg'',
      style = avatar 14 ''/profiles/profile1.jpeg'' 30\<rparr> \<and>
   features half_loaded ! 0 =
     \<lparr>geometry = Circle (176, 255) 25, props = Desk ''desk-1'', style = deskStyle\<rparr> \<and>
   map (cache_get (styleCache half_loaded) ''/profiles/profile1.jpeg'') [30, 40, 45] =
     [Some (avatar 14 ''/profiles/profile1.jpeg'' 30), None, None] \<and>
   idle half_loaded \<and> hover_inv half_loaded \<and> \<not> preloaded half_loaded"
proof -
  define P where "P st \<longleftrightarrow>
   hoveredFeature st = None \<and> non_default st = [] \<and>
   timers st = [] \<and> length (features st) = 12 \<and>
   features st ! 7 =
     \<lparr>geometry = Point (176, 325), props = Profile ''/profiles/profile1.jpeg'',
      style = avatar 14 ''/profiles/profile1.jpeg'' 30\<rparr> \<and>
   features st ! 0 =
     \<lparr>geometry = Circle (176, 255) 25, props = Desk ''desk-1'', style = deskStyle\<rparr> \<and>
   map (cache_get (styleCache st) ''/profiles/profile1.jpeg'') [30, 40, 45] =
     [Some (avatar 14 ''/profiles/profile1.jpeg'' 30), None, None] \<and>
   idle st \<and> hover_inv st \<and> \<not> preloaded st" for st :: state
  have "P half_loaded"
    unfolding half_loaded_def
    apply (simp add: model_defs consts_defs)
    apply (simp add: P_def cache_get_def notion_defs consts_defs)
    done
  then show ?thesis unfolding P_def .
qed

lemma half_loaded_runs:
  "(hoveredFeature (run [PointerMove (Some 7), PointerMove (Some 0), ImageLoad 15] half_loaded) = Some 7 \<and>
    non_default (run [PointerMove (Some 7), PointerMove (Some 0), ImageLoad 15] half_loaded) = [0, 7] \<and>
    style (features (run [PointerMove (Some 7), PointerMove (Some 0), ImageLoad 15] half_loaded) ! 0) =
      deskHoverStyle \<and>
    style (features (run [PointerMove (Some 7), PointerMove (Some 0), ImageLoad 15] half_loaded) ! 7) =
      avatar 17 ''/profiles/profile1.jpeg'' 40) \<and>
   (hoveredFeature
      (run [PointerMove (Some 7), PointerMove (Some 0), ImageLoad 15, PointerMove None] half_loaded) =
      None \<and>
    non_default
      (run [PointerMove (Some 7), PointerMove (Some 0), ImageLoad 15, PointerMove None] half_loaded) =
      [0]) \<and>
   (hoveredFeature (run [PointerMove (Some 7), PointerMove None, ImageLoad 15] half_loaded) = Some 7 \<and>
    non_default (run [PointerMove (Some 7), PointerMove None, ImageLoad 15] half_loaded) = [7] \<and>
    cursor (run [PointerMove (Some 7), PointerMove None, ImageLoad 15] half_loaded) = [] \<and>
    style (features (run [PointerMove (Some 7), PointerMove None, ImageLoad 15] half_loaded) ! 7) =
      avatar 17 ''/profiles/profile1.jpeg'' 40) \<and>
   (selectedLocation (run [Click (Some 7)] half_loaded) =
      Some \<lparr>sel_coords = (176, 325), sel_profile = ''/profiles/profile1.jpeg''\<rparr> \<and>
    isOpen (run [Click (Some 7)] half_loaded) \<and>
    timers (run [Click (Some 7)] half_loaded) = [] \<and>
    style (features (run [Click (Some 7)] half_loaded) ! 7) =
      avatar 14 ''/profiles/profile1.jpeg'' 30) \<and>
   (style (features (run [Click (Some 7), ImageError 15] half_loaded) ! 7) =
      \<lparr>sid = 17, options = NoOptions\<rparr> \<and>
    timers (run [Click (Some 7), ImageError 15] half_loaded) =
      [\<lparr>delay = 200, target = 7, fired = False\<rparr>])"
proof -
  define Pa where "Pa a \<longleftrightarrow>
   (hoveredFeature a = Some 7 \<and> non_default a = [0, 7] \<and>
    style (features a ! 0) = deskHoverStyle \<and>
    style (features a ! 7) = avatar 17 ''/profiles/profile1.jpeg'' 40)" for a :: state
  define Pe where "Pe e \<longleftrightarrow> (hoveredFeature e = None \<and> non_default e = [0])" for e :: state
  define Pb where "Pb b \<longleftrightarrow>
   (hoveredFeature b = Some 7 \<and> non_default b = [7] \<and> cursor b = [] \<and>
    style (features b ! 7) = avatar 17 ''/profiles/profile1.jpeg'' 40)" for b :: state
  define Pc where "Pc c \<longleftrightarrow>
   (selectedLocation c =
      Some \<lparr>sel_coords = (176, 325), sel_profile = ''/profiles/profile1.jpeg''\<rparr> \<and>
    isOpen c \<and> timers c = [] \<and>
    style (features c ! 7) = avatar 14 ''/profiles/profile1.jpeg'' 30)" for c :: state
  define Pd where "Pd d \<longleftrightarrow>
   (style (features d ! 7) = \<lparr>sid = 17, options = NoOptions\<rparr> \<and>
    timers d = [\<lparr>delay = 200, target = 7, fired = False\<rparr>])" for d :: state
  define P where "P st \<longleftrightarrow>
    Pa (run [PointerMove (Some 7), PointerMove (Some 0), ImageLoad 15] st) \<and>
    Pe (run [PointerMove (Some 7), PointerMove (Some 0), ImageLoad 15, PointerMove None] st) \<and>
    Pb (run [PointerMove (Some 7), PointerMove None, ImageLoad 15] st) \<and>
    Pc (run [Click (Some 7)] st) \<and>
    Pd (run [Click (Some 7), ImageError 15] st)" for st :: state
  have "P half_loaded"
    unfolding half_loaded_def
    apply (simp add: model_defs consts_defs)
    apply (simp add: P_def model_defs consts_defs)
    apply (simp add: Pa_def Pe_def Pb_def Pc_def Pd_def cache_get_def notion_defs consts_defs)
    done
  then show ?thesis unfolding P_def Pa_def Pe_def Pb_def Pc_def Pd_def .
qed

text \<open>The start-up in a browser without a 2d context: every style request resolves at once.\<close>

lemma no_context_facts:
  "console (init False) = [] \<and> renders (init False) = [] \<and>
   map (\<lambda>f. (props f, style f)) (drop 7 (features (init False))) =
     [(Profile ''/profiles/profile1.jpeg'', \<lparr>sid = 17, options = NoOptions\<rparr>),
      (Profile ''/profiles/profile2.jpeg'', \<lparr>sid = 18, options = NoOptions\<rparr>),
      (Profile ''/profiles/profile3.jpeg'', \<lparr>sid = 19, options = NoOptions\<rparr>),
      (Profile ''/profiles/profile4.jpeg'', \<lparr>sid = 20, options = NoOptions\<rparr>),
      (Profile ''/profiles/profile1.jpeg'', \<lparr>sid = 21, options = NoOptions\<rparr>)]"
proof -
  define P where "P st \<longleftrightarrow>
   console st = [] \<and> renders st = [] \<and>
   map (\<lambda>f. (props f, style f)) (drop 7 (features st)) =
     [(Profile ''/profiles/profile1.jpeg'', \<lparr>sid = 17, options = NoOptions\<rparr>),
      (Profile ''/profiles/profile2.jpeg'', \<lparr>sid = 18, options = NoOptions\<rparr>),
      (Profile ''/profiles/profile3.jpeg'', \<lparr>sid = 19, options = NoOptions\<rparr>),
      (Profile ''/profiles/profile4.jpeg'', \<lparr>sid = 20, options = NoOptions\<rparr>),
      (Profile ''/profiles/profile1.jpeg'', \<lparr>sid = 21, options = NoOptions\<rparr>)]" for st :: state
  have "P (init False)"
    apply (simp add: model_defs consts_defs)
    apply (simp add: P_def)
    done
  then show ?thesis unfolding P_def .
qed

lemma init_desks: "take 7 (features (init ctx)) = map createDeskFeature DESK_LOCATIONS"
  by (cases ctx) (simp_all add: model_defs consts_defs)

subsection \<open>C1: the click on a profile marker\<close>

text \<open>
  After a start-up in which every image loaded, the marker at (176, 325) is clicked: the
  selection is delivered, the marker gets the click-size icon and the timer is set. With
  the pointer on the marker before the click, the marker is still the hovered one when the
  timer fires, and it gets the default-size icon all the same.
\<close>

theorem click_profile_witness:
  "7 < length (features loaded) \<and>
   props (features loaded ! 7) = Profile ''/profiles/profile1.jpeg'' \<and>
   geometry (features loaded ! 7) = Point (176, 325) \<and>
   cache_get (styleCache loaded) ''/profiles/profile1.jpeg'' CLICK_MARKER_SIZE =
     Some (avatar 16 ''/profiles/profile1.jpeg'' 45) \<and>
   selectedLocation (step (Click (Some 7)) loaded) =
     Some \<lparr>sel_coords = (176, 325), sel_profile = ''/profiles/profile1.jpeg''\<rparr> \<and>
   isOpen (step (Click (Some 7)) loaded) \<and>
   style (features (step (Click (Some 7)) loaded) ! 7) = avatar 16 ''/profiles/profile1.jpeg'' 45 \<and>
   timers (step (Click (Some 7)) loaded) = [\<lparr>delay = 200, target = 7, fired = False\<rparr>] \<and>
   hoveredFeature (run [PointerMove (Some 7), Click (Some 7)] loaded) = Some 7 \<and>
   style (features (run [PointerMove (Some 7), Click (Some 7)] loaded) ! 7) =
     avatar 16 ''/profiles/profile1.jpeg'' 45 \<and>
   hoveredFeature (run [PointerMove (Some 7), Click (Some 7), Timeout 0] loaded) = Some 7 \<and>
   style (features (run [PointerMove (Some 7), Click (Some 7), Timeout 0] loaded) ! 7) =
     avatar 14 ''/profiles/profile1.jpeg'' 30"
proof -
  have h1: "7 < length (features loaded)"
    and h2: "props (features loaded ! 7) = Profile ''/profiles/profile1.jpeg''"
    and h3: "geometry (features loaded ! 7) = Point (176, 325)"
    and h4: "cache_get (styleCache loaded) ''/profiles/profile1.jpeg'' CLICK_MARKER_SIZE =
        Some (avatar 16 ''/profiles/profile1.jpeg'' 45)"
    and t: "timers loaded = []"
    using loaded_facts by (simp_all add: CLICK_MARKER_SIZE_def)
  from click_profile [OF h1 h2 h3] h4 t
  have "selectedLocation (step (Click (Some 7)) loaded) =
          Some \<lparr>sel_coords = (176, 325), sel_profile = ''/profiles/profile1.jpeg''\<rparr> \<and>
        isOpen (step (Click (Some 7)) loaded) \<and>
        style (features (step (Click (Some 7)) loaded) ! 7) =
          avatar 16 ''/profiles/profile1.jpeg'' 45 \<and>
        timers (step (Click (Some 7)) loaded) = [\<lparr>delay = 200, target = 7, fired = False\<rparr>]"
    by (simp del: step.simps)
  with h1 h2 h3 h4 loaded_runs show ?thesis by (simp del: step.simps run.simps)
qed

text \<open>
  The claim without the condition on the cache fails. After a start-up in which the hover-
  and click-size images of \<^verbatim>\<open>profile1.jpeg\<close> failed to load (\<^verbatim>\<open>onerror\<close>: nothing is cached for
  them), the marker at (176, 325) is clicked. The selection is delivered, but
  \<^verbatim>\<open>createProfileStyle\<close> misses the cache and requests the image again (render 15): after
  the click the marker still shows its default icon and no timer is set. When that image
  fails as well, the marker gets the empty style.
\<close>

theorem click_profile_counterexample:
  "features half_loaded ! 7 =
     \<lparr>geometry = Point (176, 325), props = Profile ''/profiles/profile1.jpeg'',
      style = avatar 14 ''/profiles/profile1.jpeg'' 30\<rparr> \<and>
   cache_get (styleCache half_loaded) ''/profiles/profile1.jpeg'' 45 = None \<and>
   selectedLocation (run [Click (Some 7)] half_loaded) =
     Some \<lparr>sel_coords = (176, 325), sel_profile = ''/profiles/profile1.jpeg''\<rparr> \<and>
   style (features (run [Click (Some 7)] half_loaded) ! 7) =
     avatar 14 ''/profiles/profile1.jpeg'' 30 \<and>
   timers (run [Click (Some 7)] half_loaded) = [] \<and>
   style (features (run [Click (Some 7), ImageError 15] half_loaded) ! 7) =
     \<lparr>sid = 17, options = NoOptions\<rparr>"
  using half_loaded_facts half_loaded_runs by (simp del: step.simps run.simps)

subsection \<open>C5 and C6: hovering\<close>

text \<open>
  After a start-up in which every image loaded: the pointer moves onto the marker at
  (176, 325), then onto \<^verbatim>\<open>desk-1\<close> (only the desk is non-default), then off all markers; an
  image event arrives in between and changes nothing.
\<close>

theorem hover_at_most_one_witness:
  "preloaded loaded \<and> hover_inv loaded \<and> idle loaded \<and>
   list_all pointer_or_image
     [PointerMove (Some 7), ImageLoad 0, PointerMove (Some 0), PointerMove None] \<and>
   length (non_default (run [PointerMove (Some 7), ImageLoad 0, PointerMove (Some 0)] loaded)) \<le> 1 \<and>
   set (non_default (run [PointerMove (Some 7), ImageLoad 0, PointerMove (Some 0)] loaded)) \<subseteq>
     set_option (hoveredFeature (run [PointerMove (Some 7), ImageLoad 0, PointerMove (Some 0)] loaded)) \<and>
   preloaded
     (run [PointerMove (Some 7), ImageLoad 0, PointerMove (Some 0), PointerMove None] loaded) \<and>
   hover_inv
     (run [PointerMove (Some 7), ImageLoad 0, PointerMove (Some 0), PointerMove None] loaded) \<and>
   idle (run [PointerMove (Some 7), ImageLoad 0, PointerMove (Some 0), PointerMove None] loaded) \<and>
   hoveredFeature
     (step (PointerMove (Some 7))
        (run [PointerMove (Some 7), ImageLoad 0, PointerMove (Some 0), PointerMove None] loaded)) =
     featureAtPixel
       (run [PointerMove (Some 7), ImageLoad 0, PointerMove (Some 0), PointerMove None] loaded)
       (Some 7) \<and>
   non_default (run [PointerMove (Some 7), PointerMove (Some 0)] loaded) = [0] \<and>
   hoveredFeature (run [PointerMove (Some 7), PointerMove (Some 0)] loaded) = Some 0"
proof -
  let ?es = "[PointerMove (Some 7), ImageLoad 0, PointerMove (Some 0), PointerMove None]"
  have h1: "preloaded loaded" and h2: "hover_inv loaded" and h3: "idle loaded"
    using loaded_facts by simp_all
  have h4: "list_all pointer_or_image ?es" by simp
  have t: "take 3 ?es = [PointerMove (Some 7), ImageLoad 0, PointerMove (Some 0)]" by simp
  from hover_at_most_one [OF h1 h2 h3 h4]
  have a: "length (non_default (run (take 3 ?es) loaded)) \<le> 1 \<and>
      set (non_default (run (take 3 ?es) loaded)) \<subseteq>
        set_option (hoveredFeature (run (take 3 ?es) loaded))"
    and b: "preloaded (run ?es loaded) \<and> hover_inv (run ?es loaded) \<and> idle (run ?es loaded)"
    and c: "hoveredFeature (step (PointerMove (Some 7)) (run ?es loaded)) =
      featureAtPixel (run ?es loaded) (Some 7)"
    by blast+
  from a have a': "length (non_default (run [PointerMove (Some 7), ImageLoad 0, PointerMove (Some 0)] loaded)) \<le> 1 \<and>
      set (non_default (run [PointerMove (Some 7), ImageLoad 0, PointerMove (Some 0)] loaded)) \<subseteq>
        set_option (hoveredFeature (run [PointerMove (Some 7), ImageLoad 0, PointerMove (Some 0)] loaded))"
    unfolding t .
  have d: "non_default (run [PointerMove (Some 7), PointerMove (Some 0)] loaded) = [0] \<and>
      hoveredFeature (run [PointerMove (Some 7), PointerMove (Some 0)] loaded) = Some 0"
    using loaded_runs by blast
  from h1 h2 h3 h4 a' b c d show ?thesis by blast
qed

text \<open>
  The claim without the condition on the cache fails. After a start-up in which the
  hover-size image of \<^verbatim>\<open>profile1.jpeg\<close> failed to load, no image is loading any more and every
  marker shows its default style, but that hover style is not in the cache. The pointer
  moves onto the marker at (176, 325): the handler requests the image again (render 15) and
  stops at its \<^verbatim>\<open>await\<close>, \<^verbatim>\<open>hoveredFeature\<close> still \<^verbatim>\<open>null\<close>. The pointer moves onto \<^verbatim>\<open>desk-1\<close>:
  the desk gets the hover fill and becomes \<^verbatim>\<open>hoveredFeature\<close>. The image loads: the stopped
  handler gives the marker the hover icon and makes it \<^verbatim>\<open>hoveredFeature\<close>. Now two markers
  (0 and 7) are in a non-default style; and when the pointer then leaves all markers, only
  the marker is reverted: the desk keeps its hover fill although nothing is hovered.
\<close>

theorem hover_at_most_one_counterexample:
  "idle half_loaded \<and> hover_inv half_loaded \<and> \<not> preloaded half_loaded \<and>
   cache_get (styleCache half_loaded) ''/profiles/profile1.jpeg'' 40 = None \<and>
   hoveredFeature half_loaded = None \<and> non_default half_loaded = [] \<and>
   list_all pointer_or_image [PointerMove (Some 7), PointerMove (Some 0), ImageLoad 15] \<and>
   non_default (run [PointerMove (Some 7), PointerMove (Some 0), ImageLoad 15] half_loaded) = [0, 7] \<and>
   hoveredFeature (run [PointerMove (Some 7), PointerMove (Some 0), ImageLoad 15] half_loaded) =
     Some 7 \<and>
   style (features (run [PointerMove (Some 7), PointerMove (Some 0), ImageLoad 15] half_loaded) ! 0) =
     deskHoverStyle \<and>
   non_default
     (run [PointerMove (Some 7), PointerMove (Some 0), ImageLoad 15, PointerMove None] half_loaded) =
     [0] \<and>
   hoveredFeature
     (run [PointerMove (Some 7), PointerMove (Some 0), ImageLoad 15, PointerMove None] half_loaded) =
     None"
  using half_loaded_facts half_loaded_runs by (simp del: step.simps run.simps)

text \<open>
  After a start-up in which every image loaded, the marker at (176, 325) is hovered and
  left: it gets the hover-size icon, then again the very default-size icon it had. The
  image events in between and afterwards change nothing.
\<close>

theorem hover_then_leave_witness:
  "preloaded loaded \<and> hover_inv loaded \<and> idle loaded \<and> 7 < length (features loaded) \<and>
   list_all image_event [ImageLoad 0] \<and> list_all image_event [ImageError 1, ImageLoad 15] \<and>
   hoveredFeature loaded \<noteq> Some 7 \<and>
   hoveredFeature (step (PointerMove (Some 7)) loaded) = Some 7 \<and>
   style (features (step (PointerMove (Some 7)) loaded) ! 7) =
     avatar 15 ''/profiles/profile1.jpeg'' 40 \<and>
   hoveredFeature
     (run [PointerMove (Some 7), ImageLoad 0, PointerMove None, ImageError 1, ImageLoad 15] loaded) =
     None \<and>
   style (features
     (run [PointerMove (Some 7), ImageLoad 0, PointerMove None, ImageError 1, ImageLoad 15] loaded) ! 7) =
     avatar 14 ''/profiles/profile1.jpeg'' 30 \<and>
   style (features
     (run [PointerMove (Some 7), ImageLoad 0, PointerMove None, ImageError 1, ImageLoad 15] loaded) ! 7) =
     style (features loaded ! 7) \<and>
   non_default
     (run [PointerMove (Some 7), ImageLoad 0, PointerMove None, ImageError 1, ImageLoad 15] loaded) = []"
proof -
  have h1: "preloaded loaded" and h2: "hover_inv loaded" and h3: "idle loaded"
    and h4: "7 < length (features loaded)"
    and h5: "hoveredFeature loaded \<noteq> Some 7"
    and f: "features loaded ! 7 =
       \<lparr>geometry = Point (176, 325), props = Profile ''/profiles/profile1.jpeg'',
        style = avatar 14 ''/profiles/profile1.jpeg'' 30\<rparr>"
    and c: "cache_get (styleCache loaded) ''/profiles/profile1.jpeg'' 30 =
        Some (avatar 14 ''/profiles/profile1.jpeg'' 30)"
      "cache_get (styleCache loaded) ''/profiles/profile1.jpeg'' 40 =
        Some (avatar 15 ''/profiles/profile1.jpeg'' 40)"
    using loaded_facts by simp_all
  have e1: "list_all image_event [ImageLoad 0]"
    and e2: "list_all image_event [ImageError 1, ImageLoad 15]"
    by simp_all
  from hover_then_leave [OF h1 h2 h3 h4 e1 e2] h1 h2 h3 h4 h5 e1 e2 f c show ?thesis
    by (simp add: hover_style_def default_style_def DEFAULT_MARKER_SIZE_def HOVER_MARKER_SIZE_def
        del: step.simps run.simps)
qed

text \<open>
  The claim without the condition on the cache fails. After the same start-up as above
  (hover-size image of \<^verbatim>\<open>profile1.jpeg\<close> failed), the pointer moves onto the marker at
  (176, 325) and off again while the image is requested anew; then the image loads. The
  marker now shows the hover-size icon and is \<^verbatim>\<open>hoveredFeature\<close>, with the pointer on no
  marker (the cursor is the default one).
\<close>

theorem hover_then_leave_counterexample:
  "idle half_loaded \<and> hover_inv half_loaded \<and> \<not> preloaded half_loaded \<and>
   cache_get (styleCache half_loaded) ''/profiles/profile1.jpeg'' 40 = None \<and>
   hoveredFeature half_loaded = None \<and> non_default half_loaded = [] \<and>
   style (features half_loaded ! 7) = avatar 14 ''/profiles/profile1.jpeg'' 30 \<and>
   list_all image_event [ImageLoad 15] \<and>
   hoveredFeature (run [PointerMove (Some 7), PointerMove None, ImageLoad 15] half_loaded) = Some 7 \<and>
   cursor (run [PointerMove (Some 7), PointerMove None, ImageLoad 15] half_loaded) = [] \<and>
   style (features (run [PointerMove (Some 7), PointerMove None, ImageLoad 15] half_loaded) ! 7) =
     avatar 17 ''/profiles/profile1.jpeg'' 40 \<and>
   non_default (run [PointerMove (Some 7), PointerMove None, ImageLoad 15] half_loaded) = [7]"
  using half_loaded_facts half_loaded_runs by (simp del: step.simps run.simps)

subsection \<open>C3: failures of the compositor\<close>

text \<open>
  Size 30. Without a 2d context the first call resolves to the empty style object 2 and
  the console stays empty. With a context the first call is pending on its image. In the
  start-up that image is render 0: its failure writes the console error and resumes
  \<^verbatim>\<open>Promise.all\<close> with the empty style object 2, its load or its failure settles the
  promise, and an expired timer, a pointer move, a click and the load of another image
  leave it pending.
\<close>

theorem createProfileStyle_failure_modes_witness:
  "(0::int) \<le> 30 \<and>
   cache_get (styleCache (mounted False)) ''/profiles/profile1.jpeg'' 30 = None \<and>
   \<not> has2d (mounted False) \<and>
   fst (createProfileStyle ''/profiles/profile1.jpeg'' 30 (mounted False)) \<noteq> Rejected \<and>
   createProfileStyle ''/profiles/profile1.jpeg'' 30 (mounted False) =
     (Resolved \<lparr>sid = 2, options = NoOptions\<rparr>, (mounted False)\<lparr>nextId := 3\<rparr>) \<and>
   console ((mounted False)\<lparr>nextId := 3\<rparr>) = [] \<and>
   cache_get (styleCache (mounted True)) ''/profiles/profile1.jpeg'' 30 = None \<and>
   has2d (mounted True) \<and>
   fst (createProfileStyle ''/profiles/profile1.jpeg'' 30 (mounted True)) = Pending 0 \<and>
   pending (snd (createProfileStyle ''/profiles/profile1.jpeg'' 30 (mounted True))) 0 \<and>
   pending (init True) 0 \<and>
   step (ImageError 0) (init True) =
     resume (Some Preload) \<lparr>sid = 2, options = NoOptions\<rparr>
       ((settle 0 (init True))
          \<lparr>console := [''Failed to load image: /profiles/profile1.jpeg''], nextId := 3\<rparr>) \<and>
   \<not> pending (step (ImageError 0) (init True)) 0 \<and>
   \<not> pending (step (ImageLoad 0) (init True)) 0 \<and>
   pending (run [Timeout 0, PointerMove (Some 0), Click (Some 0), ImageLoad 1] (init True)) 0"
proof -
  let ?es = "[Timeout 0, PointerMove (Some 0), Click (Some 0), ImageLoad 1]"
  have h: "(0::int) \<le> 30" by simp
  have m: "cache_get (styleCache (mounted False)) ''/profiles/profile1.jpeg'' 30 = None \<and>
      \<not> has2d (mounted False)"
    by (simp add: mounted_def cache_get_def)
  have m': "cache_get (styleCache (mounted True)) ''/profiles/profile1.jpeg'' 30 = None \<and>
      has2d (mounted True)"
    by (simp add: mounted_def cache_get_def)
  have n: "nextId (mounted False) = 2" "console (mounted False) = []"
    by (simp_all add: mounted_def)
  have n': "length (renders (mounted True)) = 0"
    by (simp add: mounted_def)
  have p: "pending (init True) 0"
    using init_True_renders by (simp add: pending_def)
  have i: "r_awaiter (renders (init True) ! 0) = Some Preload"
    "r_path (renders (init True) ! 0) = ''/profiles/profile1.jpeg''"
    using init_True_renders by simp_all
  have j: "nextId (init True) = 2" "console (init True) = []"
    by (simp_all add: model_defs consts_defs)
  have es: "ImageLoad 0 \<notin> set ?es \<and> ImageError 0 \<notin> set ?es" by simp
  from createProfileStyle_failure_modes [OF h, of "''/profiles/profile1.jpeg''" "mounted False"]
  have a: "fst (createProfileStyle ''/profiles/profile1.jpeg'' 30 (mounted False)) \<noteq> Rejected"
    and b: "createProfileStyle ''/profiles/profile1.jpeg'' 30 (mounted False) =
      (Resolved \<lparr>sid = nextId (mounted False), options = NoOptions\<rparr>,
       (mounted False)\<lparr>nextId := nextId (mounted False) + 1\<rparr>)"
    and c: "step (ImageError 0) (init True) =
      resume (r_awaiter (renders (init True) ! 0)) \<lparr>sid = nextId (init True), options = NoOptions\<rparr>
        ((settle 0 (init True))\<lparr>console := console (init True) @
             [''Failed to load image: '' @ r_path (renders (init True) ! 0)],
           nextId := nextId (init True) + 1\<rparr>)"
    and d: "\<not> pending (step (ImageError 0) (init True)) 0"
      "\<not> pending (step (ImageLoad 0) (init True)) 0"
    and e: "pending (run ?es (init True)) 0"
    using m p es by blast+
  from createProfileStyle_failure_modes [OF h, of "''/profiles/profile1.jpeg''" "mounted True"]
  have g: "fst (createProfileStyle ''/profiles/profile1.jpeg'' 30 (mounted True)) =
        Pending (length (renders (mounted True))) \<and>
      pending (snd (createProfileStyle ''/profiles/profile1.jpeg'' 30 (mounted True)))
        (length (renders (mounted True)))"
    using m' by blast
  from a b c h m m' show ?thesis
    unfolding n i j using p d e g [unfolded n'] by (simp add: n del: step.simps run.simps)
qed

text \<open>
  The start-up in which every image loads but the first, which neither loads nor fails:
  \<^verbatim>\<open>Promise.all\<close> is still waiting, and no profile marker is on the map.
\<close>

lemma blocked_start:
  "pending (run [ImageLoad 1, ImageLoad 2, ImageLoad 3, ImageLoad 4, ImageLoad 5, ImageLoad 6,
                 ImageLoad 7, ImageLoad 8, ImageLoad 9, ImageLoad 10, ImageLoad 11, ImageLoad 12,
                 ImageLoad 13, ImageLoad 14, Timeout 0, PointerMove (Some 7), Click (Some 7)]
            (init True)) 0 \<and>
   length (features
     (run [ImageLoad 1, ImageLoad 2, ImageLoad 3, ImageLoad 4, ImageLoad 5, ImageLoad 6,
           ImageLoad 7, ImageLoad 8, ImageLoad 9, ImageLoad 10, ImageLoad 11, ImageLoad 12,
           ImageLoad 13, ImageLoad 14, Timeout 0, PointerMove (Some 7), Click (Some 7)]
        (init True))) = 7"
proof -
  define P where "P st \<longleftrightarrow> pending st 0 \<and> length (features st) = 7" for st :: state
  have "P (run [ImageLoad 1, ImageLoad 2, ImageLoad 3, ImageLoad 4, ImageLoad 5, ImageLoad 6,
               ImageLoad 7, ImageLoad 8, ImageLoad 9, ImageLoad 10, ImageLoad 11, ImageLoad 12,
               ImageLoad 13, ImageLoad 14, Timeout 0, PointerMove (Some 7), Click (Some 7)]
          (init True))"
    apply (simp add: model_defs consts_defs)
    apply (simp add: P_def pending_def)
    done
  then show ?thesis unfolding P_def .
qed

text \<open>
  The claim as stated fails in two places. Without a 2d context the start-up ends with all
  five profile markers in empty styles and nothing written to the console: that failure is
  not reported. And the completion is not bounded: the first image of the start-up,
  \<^verbatim>\<open>profile1.jpeg\<close> at size 30, is requested with a context, and as long as neither its load
  nor its error is delivered the promise stays pending, through every sequence of other
  events and however long it is; no timer of the component ever settles it. So when all
  the other images have loaded, \<^verbatim>\<open>initializeFeatures\<close> is still waiting and the map shows
  the seven desks only, whatever the user does. (For the size
  \<open>-1\<close>, which the component never passes, the second \<^verbatim>\<open>context.arc\<close> gets a negative
  radius and throws inside the promise executor, so the promise is rejected: hence the
  condition on the size.)
\<close>

theorem createProfileStyle_failure_counterexample:
  "\<not> has2d (init False) \<and> console (init False) = [] \<and>
   map (\<lambda>f. (props f, style f)) (drop 7 (features (init False))) =
     [(Profile ''/profiles/profile1.jpeg'', \<lparr>sid = 17, options = NoOptions\<rparr>),
      (Profile ''/profiles/profile2.jpeg'', \<lparr>sid = 18, options = NoOptions\<rparr>),
      (Profile ''/profiles/profile3.jpeg'', \<lparr>sid = 19, options = NoOptions\<rparr>),
      (Profile ''/profiles/profile4.jpeg'', \<lparr>sid = 20, options = NoOptions\<rparr>),
      (Profile ''/profiles/profile1.jpeg'', \<lparr>sid = 21, options = NoOptions\<rparr>)] \<and>
   r_path (renders (init True) ! 0) = ''/profiles/profile1.jpeg'' \<and>
   r_size (renders (init True) ! 0) = 30 \<and>
   pending (init True) 0 \<and>
   (\<forall>es. pending
      (run (filter (\<lambda>e. e \<noteq> ImageLoad 0 \<and> e \<noteq> ImageError 0) es) (init True)) 0) \<and>
   pending (run [ImageLoad 1, ImageLoad 2, ImageLoad 3, ImageLoad 4, ImageLoad 5, ImageLoad 6,
                 ImageLoad 7, ImageLoad 8, ImageLoad 9, ImageLoad 10, ImageLoad 11, ImageLoad 12,
                 ImageLoad 13, ImageLoad 14, Timeout 0, PointerMove (Some 7), Click (Some 7)]
            (init True)) 0 \<and>
   length (features
     (run [ImageLoad 1, ImageLoad 2, ImageLoad 3, ImageLoad 4, ImageLoad 5, ImageLoad 6,
           ImageLoad 7, ImageLoad 8, ImageLoad 9, ImageLoad 10, ImageLoad 11, ImageLoad 12,
           ImageLoad 13, ImageLoad 14, Timeout 0, PointerMove (Some 7), Click (Some 7)]
        (init True))) = 7 \<and>
   createProfileStyle ''/profiles/profile1.jpeg'' (- 1) (mounted True) = (Rejected, mounted True)"
proof -
  have nc: "\<not> has2d (init False)"
    by (simp add: model_defs consts_defs)
  have r: "r_path (renders (init True) ! 0) = ''/profiles/profile1.jpeg''"
    "r_size (renders (init True) ! 0) = 30"
    using init_True_renders by simp_all
  have p: "pending (init True) 0"
    using init_True_renders by (simp add: pending_def)
  have q: "pending (run (filter (\<lambda>e. e \<noteq> ImageLoad 0 \<and> e \<noteq> ImageError 0) es) (init True)) 0"
    for es
    using settled_is_run [of 0 False "init True"
        "filter (\<lambda>e. e \<noteq> ImageLoad 0 \<and> e \<noteq> ImageError 0) es"] p
    by (simp add: pending_settled_is)
  have rej: "createProfileStyle ''/profiles/profile1.jpeg'' (- 1) (mounted True) =
      (Rejected, mounted True)"
    by (rule createProfileStyle_rejected) (simp_all add: mounted_def cache_get_def)
  from nc r p q rej no_context_facts blocked_start show ?thesis by blast
qed

subsection \<open>C8: the two desks named desk-6\<close>

text \<open>
  The two renders of the start-up for the key (\<^verbatim>\<open>profile1.jpeg\<close>, 30), one for each of the two
  markers with that image: when both images load, the style of the later load replaces the
  style of the earlier one in the cache.
\<close>

lemma cache_last_write:
  "(r_path (renders (init True) ! 0), r_size (renders (init True) ! 0)) =
     (''/profiles/profile1.jpeg'', 30) \<and>
   (r_path (renders (init True) ! 12), r_size (renders (init True) ! 12)) =
     (''/profiles/profile1.jpeg'', 30) \<and>
   cache_get (styleCache (run [ImageLoad 0] (init True))) ''/profiles/profile1.jpeg'' 30 =
     Some (avatar 2 ''/profiles/profile1.jpeg'' 30) \<and>
   cache_get (styleCache (run [ImageLoad 0, ImageLoad 12] (init True)))
     ''/profiles/profile1.jpeg'' 30 =
     Some (avatar 3 ''/profiles/profile1.jpeg'' 30)"
proof -
  define P where "P st \<longleftrightarrow>
   (r_path (renders st ! 0), r_size (renders st ! 0)) = (''/profiles/profile1.jpeg'', 30) \<and>
   (r_path (renders st ! 12), r_size (renders st ! 12)) = (''/profiles/profile1.jpeg'', 30) \<and>
   cache_get (styleCache (run [ImageLoad 0] st)) ''/profiles/profile1.jpeg'' 30 =
     Some (avatar 2 ''/profiles/profile1.jpeg'' 30) \<and>
   cache_get (styleCache (run [ImageLoad 0, ImageLoad 12] st)) ''/profiles/profile1.jpeg'' 30 =
     Some (avatar 3 ''/profiles/profile1.jpeg'' 30)" for st :: state
  have "P (init True)"
    apply (simp add: model_defs consts_defs)
    apply (simp add: P_def model_defs consts_defs)
    apply (simp add: cache_get_def notion_defs)
    done
  then show ?thesis unfolding P_def .
qed

lemma init_plain:
  "console (init ctx) = [] \<and> selectedDesk (init ctx) = None \<and>
   relabel (\<lambda>i. if i = ''desk-7'' then ''desk-6'' else i) (renamed_desk 6 ''desk-7'' (init ctx)) =
     init ctx \<and>
   map props (take 7 (features (renamed_desk 6 ''desk-7'' (init ctx)))) =
     [Desk ''desk-1'', Desk ''desk-2'', Desk ''desk-3'', Desk ''desk-4'', Desk ''desk-5'',
      Desk ''desk-6'', Desk ''desk-7'']"
proof -
  define P where "P st \<longleftrightarrow>
    console st = [] \<and> selectedDesk st = None \<and>
    relabel (\<lambda>i. if i = ''desk-7'' then ''desk-6'' else i) (renamed_desk 6 ''desk-7'' st) = st \<and>
    map props (take 7 (features (renamed_desk 6 ''desk-7'' st))) =
      [Desk ''desk-1'', Desk ''desk-2'', Desk ''desk-3'', Desk ''desk-4'', Desk ''desk-5'',
       Desk ''desk-6'', Desk ''desk-7'']" for st :: state
  have "P (init True)"
    apply (simp add: model_defs consts_defs)
    apply (simp add: P_def relabel_def renamed_desk_def)
    done
  moreover have "P (init False)"
    apply (simp add: model_defs consts_defs)
    apply (simp add: P_def relabel_def renamed_desk_def)
    done
  ultimately have "P (init ctx)" by (cases ctx) simp_all
  then show ?thesis unfolding P_def .
qed

text \<open>
  C8. The configuration has two entries with the identity \<^verbatim>\<open>desk-6\<close>. Nothing validates or
  rejects them: mounting the map adds one feature for each of the seven entries, and the
  start-up leaves them in place and writes no error, with or without a 2d context; the two
  features named \<^verbatim>\<open>desk-6\<close> are the sixth and the seventh, at (309, 250) and (309, 96). They
  stay on the map through every sequence of events, and a click on either of them reports
  \<^verbatim>\<open>desk-6\<close> with the centre of the marker that was clicked.

  The identity of a desk is only stored as a property of its feature and copied into the
  selection by a click on that feature. No handler looks anything up by it, so for the
  desks the clause on identity-keyed lookups constrains no behaviour. That no handler
  depends on an identity, or on two identities being equal, is stated in two ways: every
  run from the start-up commutes with every relabelling of the identities; and the
  component runs exactly as the one whose seventh desk is named \<^verbatim>\<open>desk-7\<close>, whose identities
  are all different, except that this desk is reported under the name \<^verbatim>\<open>desk-6\<close>. So the
  duplicate is no runtime fault.

  The one lookup by key that the component has is the style cache, keyed by the image
  source of a profile marker and the size. It does behave as "last registered wins":
  \<^verbatim>\<open>onload\<close> stores its style under the key whatever the cache holds there. The image
  \<^verbatim>\<open>profile1.jpeg\<close> is configured for two markers, so the start-up requests it twice at size
  30 (renders 0 and 12); when both have loaded, the cache holds the style of the later load.
\<close>

theorem desk_duplicates:
  "map desk_id DESK_LOCATIONS =
     [''desk-1'', ''desk-2'', ''desk-3'', ''desk-4'', ''desk-5'', ''desk-6'', ''desk-6''] \<and>
   features (mounted ctx) = map createDeskFeature DESK_LOCATIONS \<and>
   take 7 (features (init ctx)) = map createDeskFeature DESK_LOCATIONS \<and>
   console (init ctx) = [] \<and>
   features (init ctx) ! 5 =
     \<lparr>geometry = Circle (309, 250) 25, props = Desk ''desk-6'', style = deskStyle\<rparr> \<and>
   features (init ctx) ! 6 =
     \<lparr>geometry = Circle (309, 96) 25, props = Desk ''desk-6'', style = deskStyle\<rparr> \<and>
   (\<forall>es. map marker (take 7 (features (run es (init ctx)))) =
      map marker (map createDeskFeature DESK_LOCATIONS)) \<and>
   selectedDesk (step (Click (Some 5)) (init ctx)) =
     Some \<lparr>seld_id = ''desk-6'', seld_coords = (309, 250)\<rparr> \<and>
   selectedDesk (step (Click (Some 6)) (init ctx)) =
     Some \<lparr>seld_id = ''desk-6'', seld_coords = (309, 96)\<rparr> \<and>
   (\<forall>rn es. run es (relabel rn (init ctx)) = relabel rn (run es (init ctx))) \<and>
   distinct (map props (take 7 (features (renamed_desk 6 ''desk-7'' (init ctx))))) \<and>
   (\<forall>es. run es (init ctx) =
      relabel (\<lambda>i. if i = ''desk-7'' then ''desk-6'' else i)
        (run es (renamed_desk 6 ''desk-7'' (init ctx)))) \<and>
   (\<forall>r st. cache_get (styleCache (snd (img_onload r st))) (r_path r) (r_size r) =
      Some (fst (img_onload r st))) \<and>
   (r_path (renders (init True) ! 0), r_size (renders (init True) ! 0)) =
     (''/profiles/profile1.jpeg'', 30) \<and>
   (r_path (renders (init True) ! 12), r_size (renders (init True) ! 12)) =
     (''/profiles/profile1.jpeg'', 30) \<and>
   cache_get (styleCache (run [ImageLoad 0] (init True))) ''/profiles/profile1.jpeg'' 30 =
     Some (avatar 2 ''/profiles/profile1.jpeg'' 30) \<and>
   cache_get (styleCache (run [ImageLoad 0, ImageLoad 12] (init True)))
     ''/profiles/profile1.jpeg'' 30 =
     Some (avatar 3 ''/profiles/profile1.jpeg'' 30)"
proof -
  let ?fs = "features (init ctx)"
  let ?rn = "\<lambda>i. if i = ''desk-7'' then ''desk-6'' else i"
  let ?u = "renamed_desk 6 ''desk-7'' (init ctx)"
  have d: "map desk_id DESK_LOCATIONS =
      [''desk-1'', ''desk-2'', ''desk-3'', ''desk-4'', ''desk-5'', ''desk-6'', ''desk-6'']"
    by (simp add: DESK_LOCATIONS_def)
  have m: "features (mounted ctx) = map createDeskFeature DESK_LOCATIONS"
    by (simp add: mounted_def)
  have t: "take 7 ?fs = map createDeskFeature DESK_LOCATIONS"
    by (rule init_desks)
  have len: "7 \<le> length ?fs"
  proof -
    have "length (take 7 ?fs) = 7" by (simp add: t DESK_LOCATIONS_def)
    then show ?thesis by simp
  qed
  have nth: "?fs ! i = map createDeskFeature DESK_LOCATIONS ! i" if "i < 7" for i
    using that t by (metis nth_take)
  have f5: "?fs ! 5 =
      \<lparr>geometry = Circle (309, 250) 25, props = Desk ''desk-6'', style = deskStyle\<rparr>"
    by (simp add: nth DESK_LOCATIONS_def createDeskFeature_def DESK_RADIUS_def)
  have f6: "?fs ! 6 =
      \<lparr>geometry = Circle (309, 96) 25, props = Desk ''desk-6'', style = deskStyle\<rparr>"
    by (simp add: nth DESK_LOCATIONS_def createDeskFeature_def DESK_RADIUS_def)
  have stay: "map marker (take 7 (features (run es (init ctx)))) =
      map marker (map createDeskFeature DESK_LOCATIONS)" for es
  proof -
    have "take (length ?fs) (map marker (features (run es (init ctx)))) = map marker ?fs"
      using extends_run [of "init ctx" es] by (simp add: extends_def)
    then have "take 7 (take (length ?fs) (map marker (features (run es (init ctx))))) =
        take 7 (map marker ?fs)"
      by simp
    then have "take 7 (map marker (features (run es (init ctx)))) = take 7 (map marker ?fs)"
      using len by (simp add: min_def)
    then show ?thesis by (simp add: take_map t)
  qed
  have c5: "selectedDesk (step (Click (Some 5)) (init ctx)) =
      Some \<lparr>seld_id = ''desk-6'', seld_coords = (309, 250)\<rparr>"
    using len by (simp add: featureAtPixel_def click_def f5)
  have c6: "selectedDesk (step (Click (Some 6)) (init ctx)) =
      Some \<lparr>seld_id = ''desk-6'', seld_coords = (309, 96)\<rparr>"
    using len by (simp add: featureAtPixel_def click_def f6)
  have rel: "run es (relabel rn (init ctx)) = relabel rn (run es (init ctx))" for rn es
    using well_formed_init by (rule run_relabel)
  have u: "relabel ?rn ?u = init ctx"
    using init_plain by blast
  have dist: "distinct (map props (take 7 (features ?u)))"
  proof -
    have "map props (take 7 (features ?u)) =
        [Desk ''desk-1'', Desk ''desk-2'', Desk ''desk-3'', Desk ''desk-4'', Desk ''desk-5'',
         Desk ''desk-6'', Desk ''desk-7'']"
      using init_plain by blast
    then show ?thesis by simp
  qed
  have wu: "well_formed ?u"
  proof -
    have "well_formed (relabel ?rn ?u)" unfolding u by (rule well_formed_init)
    then show ?thesis by simp
  qed
  have same: "run es (init ctx) = relabel ?rn (run es ?u)" for es
    using run_relabel [OF wu, of es ?rn] by (simp only: u)
  have c: "console (init ctx) = []"
    using init_plain by blast
  have lw: "cache_get (styleCache (snd (img_onload r st))) (r_path r) (r_size r) =
      Some (fst (img_onload r st))" for r st
    using img_onload_cache [of r st "fst (img_onload r st)" "snd (img_onload r st)"]
    by (simp add: cache_get_put)
  from d m t c f5 f6 stay c5 c6 rel dist same lw cache_last_write show ?thesis by blast
qed

end
